(* ===== verification/Prelude.thy ===== *)
theory Prelude
  imports Main "HOL-Library.Word" "HOL-Library.Sublist" "HOL-Library.Monad_Syntax"
begin

text \<open>
  Shared ground of the development: the operations of the Rust standard library on strings,
  unsigned integers and durations that the components call, with the lemmas they share.

  A Rust \<open>str\<close> or byte slice is a \<open>string\<close>, the list of its bytes, so a \<open>char\<close> here is one byte
  and \<open>length\<close> is \<open>str::len\<close>. A \<open>Duration\<close> and an \<open>Instant\<close> are a number of nanoseconds
  (\<open>Instant::duration_since\<close> is zero for a later instant, as subtraction on \<open>nat\<close> is); unsigned
  integers keep their width as words.
\<close>

named_theorems str_simps \<open>evaluation of the string operations on concrete strings\<close>
named_theorems outcome_simps \<open>what each operation of a component answers, by case\<close>

subsection \<open>Results\<close>

text \<open>\<open>Result::ok\<close>, \<open>Result::is_ok\<close> and the question mark operator on a sum type.\<close>

definition ok_of :: "'e + 'a \<Rightarrow> 'a option" where
  "ok_of r = (case r of Inl _ \<Rightarrow> None | Inr x \<Rightarrow> Some x)"

definition is_ok :: "'e + 'a \<Rightarrow> bool" where
  "is_ok r = (case r of Inl _ \<Rightarrow> False | Inr _ \<Rightarrow> True)"

definition bind_res :: "'e + 'a \<Rightarrow> ('a \<Rightarrow> 'e + 'b) \<Rightarrow> 'e + 'b" where
  "bind_res r f = (case r of Inl e \<Rightarrow> Inl e | Inr x \<Rightarrow> f x)"

lemma ok_of_simps [simp]: "ok_of (Inl e) = None" "ok_of (Inr x) = Some x"
  by (simp_all add: ok_of_def)

lemma is_ok_simps [simp]: "\<not> is_ok (Inl e)" "is_ok (Inr x)"
  by (simp_all add: is_ok_def)

lemma bind_res_simps [simp]: "bind_res (Inl e) f = Inl e" "bind_res (Inr x) f = f x"
  by (simp_all add: bind_res_def)

lemma bind_res_eq_Inr: "bind_res r f = Inr y \<longleftrightarrow> (\<exists>x. r = Inr x \<and> f x = Inr y)"
  by (cases r) auto

lemma bind_res_eq_Inl: "bind_res r f = Inl e \<longleftrightarrow> r = Inl e \<or> (\<exists>x. r = Inr x \<and> f x = Inl e)"
  by (cases r) auto

lemma is_ok_iff: "is_ok r \<longleftrightarrow> (\<exists>x. r = Inr x)"
  by (cases r) auto

lemma not_is_ok_iff: "\<not> is_ok r \<longleftrightarrow> (\<exists>e. r = Inl e)"
  by (cases r) auto

subsection \<open>Unsigned integers\<close>

text \<open>\<open>saturating_add\<close> at the width of the type.\<close>

definition sat_add :: "'a::len word \<Rightarrow> 'a word \<Rightarrow> 'a word" where
  "sat_add a b = (if unat a + unat b < 2 ^ LENGTH('a) then a + b else - 1)"

lemma unat_sat_add: "unat (sat_add a b :: 'a::len word) = min (unat a + unat b) (2 ^ LENGTH('a) - 1)"
proof (cases "unat a + unat b < 2 ^ LENGTH('a)")
  case True
  then have "unat (a + b) = unat a + unat b" by (simp add: unat_word_ariths)
  with True show ?thesis by (simp add: sat_add_def)
next
  case False
  then show ?thesis by (simp add: sat_add_def unsigned_minus_1_eq_mask mask_eq_exp_minus_1)
qed

lemma sat_add_small: "unat a + unat b < 2 ^ LENGTH('a) \<Longrightarrow> sat_add a b = (a + b :: 'a::len word)"
  by (simp add: sat_add_def)

subsection \<open>Durations\<close>

type_synonym duration = nat
type_synonym instant = nat

definition from_secs :: "nat \<Rightarrow> duration" where
  "from_secs n = n * 1000000000"

definition from_mins :: "nat \<Rightarrow> duration" where
  "from_mins n = from_secs (60 * n)"

definition as_secs :: "duration \<Rightarrow> nat" where
  "as_secs d = d div 1000000000"

lemma as_secs_from_secs [simp]: "as_secs (from_secs n) = n"
  by (simp add: as_secs_def from_secs_def)

subsection \<open>Letter case\<close>

definition ascii_upper :: string where
  "ascii_upper = ''ABCDEFGHIJKLMNOPQRSTUVWXYZ''"

definition ascii_lower :: string where
  "ascii_lower = ''abcdefghijklmnopqrstuvwxyz''"

definition lower_char :: "char \<Rightarrow> char" where
  "lower_char c = (case map_of (zip ascii_upper ascii_lower) c of None \<Rightarrow> c | Some d \<Rightarrow> d)"

definition upper_char :: "char \<Rightarrow> char" where
  "upper_char c = (case map_of (zip ascii_lower ascii_upper) c of None \<Rightarrow> c | Some d \<Rightarrow> d)"

text \<open>\<open>to_ascii_lowercase\<close>, \<open>to_ascii_uppercase\<close> and \<open>eq_ignore_ascii_case\<close>.\<close>

definition to_lower :: "string \<Rightarrow> string" where
  "to_lower s = map lower_char s"

definition to_upper :: "string \<Rightarrow> string" where
  "to_upper s = map upper_char s"

definition eq_ignore_case :: "string \<Rightarrow> string \<Rightarrow> bool" where
  "eq_ignore_case a b \<longleftrightarrow> to_lower a = to_lower b"

lemma lower_char_idem [simp]: "lower_char (lower_char c) = lower_char c"
  by (simp add: lower_char_def ascii_upper_def ascii_lower_def)

lemma to_lower_idem [simp]: "to_lower (to_lower s) = to_lower s"
  by (simp add: to_lower_def)

lemma to_lower_Nil_iff [simp]: "to_lower s = [] \<longleftrightarrow> s = []" "to_lower [] = []"
  by (simp_all add: to_lower_def)

lemma length_to_lower [simp]: "length (to_lower s) = length s"
  by (simp add: to_lower_def)

lemma to_lower_append: "to_lower (s @ t) = to_lower s @ to_lower t"
  by (simp add: to_lower_def)

lemma eq_ignore_case_refl [simp]: "eq_ignore_case s s"
  by (simp add: eq_ignore_case_def)

lemma eq_ignore_case_lower [simp]: "eq_ignore_case s (to_lower s)" "eq_ignore_case (to_lower s) s"
  by (simp_all add: eq_ignore_case_def)

lemma eq_ignore_case_sym: "eq_ignore_case s t \<longleftrightarrow> eq_ignore_case t s"
  by (auto simp: eq_ignore_case_def)

lemmas [str_simps] =
  to_lower_def to_upper_def lower_char_def upper_char_def ascii_upper_def ascii_lower_def
  eq_ignore_case_def

subsection \<open>Prefixes, suffixes and substrings\<close>

fun strip_prefix :: "string \<Rightarrow> string \<Rightarrow> string option" where
  "strip_prefix [] s = Some s"
| "strip_prefix (p # ps) [] = None"
| "strip_prefix (p # ps) (c # cs) = (if p = c then strip_prefix ps cs else None)"

definition starts_with :: "string \<Rightarrow> string \<Rightarrow> bool" where
  "starts_with p s \<longleftrightarrow> strip_prefix p s \<noteq> None"

definition ends_with :: "string \<Rightarrow> string \<Rightarrow> bool" where
  "ends_with p s \<longleftrightarrow> strip_prefix (rev p) (rev s) \<noteq> None"

lemma strip_prefix_Some_iff: "strip_prefix p s = Some r \<longleftrightarrow> s = p @ r"
  by (induction p s rule: strip_prefix.induct) auto

lemma strip_prefix_append [simp]: "strip_prefix p (p @ r) = Some r"
  by (simp add: strip_prefix_Some_iff)

lemma starts_with_iff: "starts_with p s \<longleftrightarrow> (\<exists>r. s = p @ r)"
  using strip_prefix_Some_iff by (auto simp: starts_with_def)

lemma ends_with_iff: "ends_with p s \<longleftrightarrow> (\<exists>r. s = r @ p)"
proof -
  have "ends_with p s \<longleftrightarrow> (\<exists>r. rev s = rev p @ r)"
    using strip_prefix_Some_iff by (auto simp: ends_with_def)
  also have "\<dots> \<longleftrightarrow> (\<exists>r. s = r @ p)"
    by (metis rev_append rev_rev_ident)
  finally show ?thesis .
qed

text \<open>\<open>str::split_once\<close> with a string pattern: the first occurrence; and \<open>str::contains\<close>.\<close>

fun split_once :: "string \<Rightarrow> string \<Rightarrow> (string \<times> string) option" where
  "split_once pat [] = (if pat = [] then Some ([], []) else None)"
| "split_once pat (c # cs) =
     (case strip_prefix pat (c # cs) of
        Some rest \<Rightarrow> Some ([], rest)
      | None \<Rightarrow> (case split_once pat cs of
            None \<Rightarrow> None
          | Some (a, b) \<Rightarrow> Some (c # a, b)))"

definition contains_str :: "string \<Rightarrow> string \<Rightarrow> bool" where
  "contains_str pat s \<longleftrightarrow> split_once pat s \<noteq> None"

lemma split_once_SomeD: "split_once pat s = Some (a, b) \<Longrightarrow> s = a @ pat @ b"
proof (induction pat s arbitrary: a b rule: split_once.induct)
  case (1 pat)
  then show ?case by (auto split: if_splits)
next
  case (2 pat c cs)
  show ?case
  proof (cases "strip_prefix pat (c # cs)")
    case None
    with "2.prems" obtain a' where "split_once pat cs = Some (a', b)" and a: "a = c # a'"
      by (auto split: option.splits)
    with "2.IH" [OF None] have "cs = a' @ pat @ b" by blast
    with a show ?thesis by simp
  next
    case (Some rest)
    with "2.prems" have "a = []" "b = rest" by auto
    with Some show ?thesis by (auto simp: strip_prefix_Some_iff)
  qed
qed

lemma split_once_prefix [simp]: "split_once p (p @ r) = Some ([], r)"
proof (cases "p @ r")
  case Nil
  then show ?thesis by simp
next
  case (Cons c cs)
  then have "strip_prefix p (c # cs) = Some r" by (metis strip_prefix_append)
  with Cons show ?thesis by simp
qed

lemma contains_str_iff: "contains_str pat s \<longleftrightarrow> (\<exists>a b. s = a @ pat @ b)"
proof
  assume "contains_str pat s"
  then show "\<exists>a b. s = a @ pat @ b"
    using split_once_SomeD by (fastforce simp: contains_str_def)
next
  assume "\<exists>a b. s = a @ pat @ b"
  then obtain a b where "s = a @ pat @ b" by blast
  then show "contains_str pat s"
  proof (induction a arbitrary: s)
    case Nil
    then show ?case by (simp add: contains_str_def)
  next
    case (Cons x a)
    then show ?case by (auto simp: contains_str_def split: option.splits)
  qed
qed

lemma split_once_char: "split_once [d] s = Some (a, b) \<longleftrightarrow> s = a @ d # b \<and> d \<notin> set a"
proof (induction s arbitrary: a)
  case Nil
  then show ?case by simp
next
  case (Cons c cs)
  show ?case
  proof (cases "c = d")
    case True
    then show ?thesis by (cases a) auto
  next
    case False
    then have "split_once [d] (c # cs) =
        map_option (\<lambda>(a, b). (c # a, b)) (split_once [d] cs)"
      by (auto split: option.split)
    with False Cons.IH [of "tl a"] show ?thesis
      by (cases a; cases "split_once [d] cs") auto
  qed
qed

text \<open>\<open>str::rsplit_once\<close> with a one-byte pattern: the last occurrence.\<close>

definition rsplit_once :: "char \<Rightarrow> string \<Rightarrow> (string \<times> string) option" where
  "rsplit_once d s =
     (case split_once [d] (rev s) of
        None \<Rightarrow> None
      | Some (a, b) \<Rightarrow> Some (rev b, rev a))"

lemma rsplit_once_SomeD: "rsplit_once d s = Some (a, b) \<Longrightarrow> s = a @ d # b"
proof -
  assume "rsplit_once d s = Some (a, b)"
  then have "split_once [d] (rev s) = Some (rev b, rev a)"
    by (auto simp: rsplit_once_def split: option.splits)
  from split_once_SomeD [OF this] have "rev (rev s) = rev (rev b @ [d] @ rev a)"
    by (rule arg_cong)
  then show ?thesis by simp
qed

subsection \<open>Splitting and joining\<close>

text \<open>\<open>str::split\<close> with a one-byte pattern: always at least one piece.\<close>

fun split_on :: "char \<Rightarrow> string \<Rightarrow> string list" where
  "split_on d [] = [[]]"
| "split_on d (c # cs) =
     (if c = d then [] # split_on d cs
      else (case split_on d cs of [] \<Rightarrow> [[c]] | p # ps \<Rightarrow> (c # p) # ps))"

fun join :: "string \<Rightarrow> string list \<Rightarrow> string" where
  "join sep [] = []"
| "join sep [x] = x"
| "join sep (x # y # ys) = x @ sep @ join sep (y # ys)"

lemma split_on_not_Nil [simp]: "split_on d s \<noteq> []"
  by (induction s) (auto split: list.splits)

lemma join_split_on: "join [d] (split_on d s) = s"
proof (induction s)
  case Nil
  then show ?case by simp
next
  case (Cons c cs)
  obtain p ps where "split_on d cs = p # ps"
    by (cases "split_on d cs") auto
  with Cons show ?case by (cases ps) auto
qed

lemma split_on_no_sep: "p \<in> set (split_on d s) \<Longrightarrow> d \<notin> set p"
proof (induction s arbitrary: p)
  case Nil
  then show ?case by simp
next
  case (Cons c cs)
  then show ?case by (auto split: if_splits list.splits)
qed

lemma split_on_append_sep: "split_on d (a @ d # b) = split_on d a @ split_on d b"
  by (induction a) (auto split: list.splits simp: append_eq_Cons_conv)

lemma split_on_single: "d \<notin> set s \<Longrightarrow> split_on d s = [s]"
  by (induction s) auto

subsection \<open>Trimming\<close>

text \<open>
  \<open>str::trim\<close> removes the characters with the Unicode property \<open>White_Space\<close>; these are their
  UTF-8 encodings.
\<close>

definition white_space :: "string list" where
  "white_space =
     [[CHR 0x09], [CHR 0x0A], [CHR 0x0B], [CHR 0x0C], [CHR 0x0D], [CHR 0x20],
      [CHR 0xC2, CHR 0x85], [CHR 0xC2, CHR 0xA0], [CHR 0xE1, CHR 0x9A, CHR 0x80],
      [CHR 0xE2, CHR 0x80, CHR 0x80], [CHR 0xE2, CHR 0x80, CHR 0x81],
      [CHR 0xE2, CHR 0x80, CHR 0x82], [CHR 0xE2, CHR 0x80, CHR 0x83],
      [CHR 0xE2, CHR 0x80, CHR 0x84], [CHR 0xE2, CHR 0x80, CHR 0x85],
      [CHR 0xE2, CHR 0x80, CHR 0x86], [CHR 0xE2, CHR 0x80, CHR 0x87],
      [CHR 0xE2, CHR 0x80, CHR 0x88], [CHR 0xE2, CHR 0x80, CHR 0x89],
      [CHR 0xE2, CHR 0x80, CHR 0x8A], [CHR 0xE2, CHR 0x80, CHR 0xA8],
      [CHR 0xE2, CHR 0x80, CHR 0xA9], [CHR 0xE2, CHR 0x80, CHR 0xAF],
      [CHR 0xE2, CHR 0x81, CHR 0x9F], [CHR 0xE3, CHR 0x80, CHR 0x80]]"

fun strip_any :: "string list \<Rightarrow> string \<Rightarrow> string option" where
  "strip_any [] s = None"
| "strip_any (w # ws) s =
     (if w = [] then strip_any ws s
      else (case strip_prefix w s of Some r \<Rightarrow> Some r | None \<Rightarrow> strip_any ws s))"

lemma strip_any_SomeD: "strip_any ws s = Some r \<Longrightarrow> \<exists>w. w \<in> set ws \<and> w \<noteq> [] \<and> s = w @ r"
  by (induction ws) (auto simp: strip_prefix_Some_iff split: if_splits option.splits)

lemma strip_any_NoneD: "strip_any ws s = None \<Longrightarrow> w \<in> set ws \<Longrightarrow> w \<noteq> [] \<Longrightarrow> s \<noteq> w @ r"
  by (induction ws) (auto split: if_splits option.splits)

function strip_all :: "string list \<Rightarrow> string \<Rightarrow> string" where
  "strip_all ws s = (case strip_any ws s of None \<Rightarrow> s | Some r \<Rightarrow> strip_all ws r)"
  by pat_completeness auto
termination
  by (relation "measure (\<lambda>(ws, s). length s)") (auto dest!: strip_any_SomeD)

declare strip_all.simps [simp del]

definition trim_start :: "string \<Rightarrow> string" where
  "trim_start s = strip_all white_space s"

definition trim_end :: "string \<Rightarrow> string" where
  "trim_end s = rev (strip_all (map rev white_space) (rev s))"

definition trim :: "string \<Rightarrow> string" where
  "trim s = trim_end (trim_start s)"

lemma strip_all_None: "strip_any ws (strip_all ws s) = None"
proof (induction ws s rule: strip_all.induct)
  case (1 ws s)
  then show ?case
    by (cases "strip_any ws s") (auto simp: strip_all.simps [of ws s])
qed

lemma strip_all_suffix: "\<exists>p. s = p @ strip_all ws s"
proof (induction ws s rule: strip_all.induct)
  case (1 ws s)
  show ?case
  proof (cases "strip_any ws s")
    case None
    then show ?thesis by (simp add: strip_all.simps [of ws s])
  next
    case (Some r)
    with "1.IH" obtain p where "r = p @ strip_all ws r" by blast
    moreover from Some obtain w where "s = w @ r" by (auto dest: strip_any_SomeD)
    ultimately have "s = (w @ p) @ strip_all ws r" by simp
    with Some show ?thesis by (metis (no_types, lifting) option.simps(5) strip_all.simps)
  qed
qed

lemma trim_Nil [simp]: "trim [] = []"
  by (simp add: trim_def trim_start_def trim_end_def strip_all.simps white_space_def)

lemmas [str_simps] =
  trim_def trim_start_def trim_end_def strip_all.simps white_space_def

text \<open>\<open>trim_start_matches\<close> with a one-byte pattern.\<close>

definition trim_start_char :: "char \<Rightarrow> string \<Rightarrow> string" where
  "trim_start_char d s = dropWhile (\<lambda>c. c = d) s"

subsection \<open>Printing numbers\<close>

definition digits :: string where
  "digits = ''0123456789abcdef''"

fun show_base :: "nat \<Rightarrow> nat \<Rightarrow> string" where
  "show_base b n =
     (if n < b \<or> b < 2 then [digits ! (n mod 16)]
      else show_base b (n div b) @ [digits ! (n mod b mod 16)])"

declare show_base.simps [simp del]

definition show_nat :: "nat \<Rightarrow> string" where
  "show_nat n = show_base 10 n"

lemmas [str_simps] = show_nat_def show_base.simps digits_def

lemma show_base_not_Nil [simp]: "show_base b n \<noteq> []"
  by (subst show_base.simps) simp

lemma show_nat_not_Nil [simp]: "show_nat n \<noteq> []"
  by (simp add: show_nat_def)

subsection \<open>Lists\<close>

text \<open>\<open>Iterator::find_map\<close> and \<open>filter_map\<close>.\<close>

fun find_map :: "('a \<Rightarrow> 'b option) \<Rightarrow> 'a list \<Rightarrow> 'b option" where
  "find_map f [] = None"
| "find_map f (x # xs) = (case f x of Some y \<Rightarrow> Some y | None \<Rightarrow> find_map f xs)"

lemma find_map_SomeD: "find_map f xs = Some y \<Longrightarrow> \<exists>x \<in> set xs. f x = Some y"
  by (induction xs) (auto split: option.splits)

lemma find_map_None_iff: "find_map f xs = None \<longleftrightarrow> (\<forall>x \<in> set xs. f x = None)"
  by (induction xs) (auto split: option.splits)

lemma set_map_filter: "y \<in> set (List.map_filter f xs) \<longleftrightarrow> (\<exists>x \<in> set xs. f x = Some y)"
  by (induction xs) (auto simp: List.map_filter_simps split: option.splits)

lemma find_Some_iff_ex: "(\<exists>x. find P xs = Some x) \<longleftrightarrow> (\<exists>x \<in> set xs. P x)"
  by (induction xs) auto

lemma find_None_iff_all: "find P xs = None \<longleftrightarrow> (\<forall>x \<in> set xs. \<not> P x)"
  by (induction xs) auto

lemma find_SomeD: "find P xs = Some x \<Longrightarrow> x \<in> set xs \<and> P x"
  by (induction xs) (auto split: if_splits)

end
