(* ===== verification/Net.thy ===== *)
theory Net
  imports Prelude
begin

text \<open>
  The part of \<open>std::net\<close> that the proxy calls: \<open>IpAddr\<close> with its textual forms (\<open>Display\<close> and
  \<open>FromStr\<close>, used when a target host is an address literal and when forwarding headers are
  written), the folding of IPv4-mapped IPv6 addresses, and \<open>SocketAddr\<close>.
\<close>

subsection \<open>Addresses\<close>

datatype ip_addr = V4 "32 word" | V6 "128 word"

type_synonym socket_addr = "ip_addr \<times> 16 word"

definition is_ipv6 :: "ip_addr \<Rightarrow> bool" where
  "is_ipv6 ip = (case ip of V4 _ \<Rightarrow> False | V6 _ \<Rightarrow> True)"

definition to_ipv4_mapped :: "128 word \<Rightarrow> 32 word option" where
  "to_ipv4_mapped v = (if drop_bit 32 v = 0xFFFF then Some (ucast v) else None)"

text \<open>\<open>Ipv6Addr::to_canonical\<close>.\<close>

definition to_canonical :: "128 word \<Rightarrow> ip_addr" where
  "to_canonical v = (case to_ipv4_mapped v of Some a \<Rightarrow> V4 a | None \<Rightarrow> V6 v)"

text \<open>The address \<open>::ffff:a\<close> that embeds an IPv4 address, \<open>Ipv4Addr::to_ipv6_mapped\<close>.\<close>

definition to_ipv6_mapped :: "32 word \<Rightarrow> 128 word" where
  "to_ipv6_mapped a = push_bit 32 0xFFFF + ucast a"

text \<open>\<open>IpAddr\<close> derives its order: every IPv4 address before every IPv6 address.\<close>

instantiation ip_addr :: linorder
begin

fun less_eq_ip_addr :: "ip_addr \<Rightarrow> ip_addr \<Rightarrow> bool" where
  "less_eq_ip_addr (V4 a) (V4 b) \<longleftrightarrow> a \<le> b"
| "less_eq_ip_addr (V4 a) (V6 b) \<longleftrightarrow> True"
| "less_eq_ip_addr (V6 a) (V4 b) \<longleftrightarrow> False"
| "less_eq_ip_addr (V6 a) (V6 b) \<longleftrightarrow> a \<le> b"

definition less_ip_addr :: "ip_addr \<Rightarrow> ip_addr \<Rightarrow> bool" where
  "less_ip_addr a b \<longleftrightarrow> a \<le> b \<and> \<not> b \<le> a"

instance
proof
  fix x y z :: ip_addr
  show "x < y \<longleftrightarrow> x \<le> y \<and> \<not> y \<le> x" by (simp add: less_ip_addr_def)
  show "x \<le> x" by (cases x) auto
  show "x \<le> y \<Longrightarrow> y \<le> z \<Longrightarrow> x \<le> z" by (cases x; cases y; cases z) auto
  show "x \<le> y \<Longrightarrow> y \<le> x \<Longrightarrow> x = y" by (cases x; cases y) auto
  show "x \<le> y \<or> y \<le> x" by (cases x; cases y) auto
qed

end

lemma unat_to_ipv6_mapped: "unat (to_ipv6_mapped a) = 0xFFFF * 2 ^ 32 + unat a"
proof -
  have u: "unat (ucast a :: 128 word) = unat a"
    by (simp add: unsigned_ucast_eq take_bit_nat_eq_self less_le_trans [OF unsigned_less])
  have "unat a < 2 ^ 32" using unsigned_less [of a] by simp
  then show ?thesis
    by (simp add: to_ipv6_mapped_def unat_word_ariths u push_bit_eq_mult)
qed

lemma mod_add_multiple: "x < k \<Longrightarrow> (m * k + x) mod k = (x :: nat)"
  by simp

lemma to_ipv4_mapped_to_ipv6_mapped: "to_ipv4_mapped (to_ipv6_mapped a) = Some a"
proof -
  have b: "unat a < 2 ^ 32" using unsigned_less [of a] by simp
  have "unat (drop_bit 32 (to_ipv6_mapped a)) = 0xFFFF"
    using b by (simp add: unat_drop_bit_eq drop_bit_nat_def unat_to_ipv6_mapped del: unat_div)
  then have d: "drop_bit 32 (to_ipv6_mapped a) = 0xFFFF"
    by (simp add: word_unat_eq_iff)
  have "unat (ucast (to_ipv6_mapped a) :: 32 word) = unat (to_ipv6_mapped a) mod 2 ^ 32"
    by (simp add: unsigned_ucast_eq take_bit_eq_mod)
  also have "\<dots> = unat a"
    unfolding unat_to_ipv6_mapped using b by (rule mod_add_multiple)
  finally have "unat (ucast (to_ipv6_mapped a) :: 32 word) = unat a" .
  with d show ?thesis by (simp add: to_ipv4_mapped_def word_unat_eq_iff)
qed

lemma to_canonical_mapped [simp]: "to_canonical (to_ipv6_mapped a) = V4 a"
  by (simp add: to_canonical_def to_ipv4_mapped_to_ipv6_mapped)

subsection \<open>Printing\<close>

definition octets :: "32 word \<Rightarrow> nat list" where
  "octets a = [unat a div 2 ^ 24, unat a div 2 ^ 16 mod 256, unat a div 2 ^ 8 mod 256, unat a mod 256]"

definition show_ipv4 :: "32 word \<Rightarrow> string" where
  "show_ipv4 a = join ''.'' (map show_nat (octets a))"

definition segments :: "128 word \<Rightarrow> nat list" where
  "segments v = map (\<lambda>i. unat v div 2 ^ (16 * i) mod 65536) [7, 6, 5, 4, 3, 2, 1, 0]"

text \<open>The longest run of zero segments, the first of several: (start, length).\<close>

fun longest_zeros :: "nat \<Rightarrow> nat list \<Rightarrow> nat \<times> nat \<Rightarrow> nat \<times> nat \<Rightarrow> nat \<times> nat" where
  "longest_zeros i [] cur best = best"
| "longest_zeros i (s # ss) cur best =
     (if s = 0 then
        (let cur' = (if snd cur = 0 then (i, 1) else (fst cur, snd cur + 1))
         in longest_zeros (Suc i) ss cur' (if snd best < snd cur' then cur' else best))
      else longest_zeros (Suc i) ss (0, 0) best)"

definition show_segments :: "nat list \<Rightarrow> string" where
  "show_segments ss = join '':'' (map (show_base 16) ss)"

definition show_ipv6 :: "128 word \<Rightarrow> string" where
  "show_ipv6 v =
     (case to_ipv4_mapped v of
        Some a \<Rightarrow> ''::ffff:'' @ show_ipv4 a
      | None \<Rightarrow>
          (let ss = segments v; (st, n) = longest_zeros 0 ss (0, 0) (0, 0) in
             if n > 1 then show_segments (take st ss) @ ''::'' @ show_segments (drop (st + n) ss)
             else show_segments ss))"

definition show_ip :: "ip_addr \<Rightarrow> string" where
  "show_ip ip = (case ip of V4 a \<Rightarrow> show_ipv4 a | V6 v \<Rightarrow> show_ipv6 v)"

subsection \<open>Parsing\<close>

text \<open>\<open>char::to_digit\<close>, then the number reader of the address parser.\<close>

definition digit_of :: "nat \<Rightarrow> char \<Rightarrow> nat option" where
  "digit_of radix c =
     (case map_of (zip ''0123456789abcdefABCDEF'' [0, 1, 2, 3, 4, 5, 6, 7, 8, 9, 10, 11, 12, 13, 14, 15, 10, 11, 12, 13, 14, 15]) c of
        Some d \<Rightarrow> if d < radix then Some d else None
      | None \<Rightarrow> None)"

fun read_digits :: "nat \<Rightarrow> nat \<Rightarrow> nat \<Rightarrow> nat \<Rightarrow> nat \<Rightarrow> string \<Rightarrow> (nat \<times> nat \<times> string) option" where
  "read_digits radix lim maxd r n [] = Some (r, n, [])"
| "read_digits radix lim maxd r n (c # cs) =
     (case digit_of radix c of
        None \<Rightarrow> Some (r, n, c # cs)
      | Some d \<Rightarrow>
          if lim < r * radix + d \<or> maxd < Suc n then None
          else read_digits radix lim maxd (r * radix + d) (Suc n) cs)"

definition read_number :: "nat \<Rightarrow> nat \<Rightarrow> nat \<Rightarrow> bool \<Rightarrow> string \<Rightarrow> (nat \<times> string) option" where
  "read_number radix lim maxd zero_prefix s =
     (case read_digits radix lim maxd 0 0 s of
        None \<Rightarrow> None
      | Some (r, n, rest) \<Rightarrow>
          if n = 0 \<or> (\<not> zero_prefix \<and> starts_with ''0'' s \<and> 1 < n) then None
          else Some (r, rest))"

definition read_octet :: "string \<Rightarrow> (nat \<times> string) option" where
  "read_octet s = read_number 10 255 3 False s"

definition read_sep_octet :: "string \<Rightarrow> (nat \<times> string) option" where
  "read_sep_octet s = Option.bind (strip_prefix ''.'' s) read_octet"

definition read_ipv4 :: "string \<Rightarrow> (32 word \<times> string) option" where
  "read_ipv4 s = do {
     (a, s) \<leftarrow> read_octet s;
     (b, s) \<leftarrow> read_sep_octet s;
     (c, s) \<leftarrow> read_sep_octet s;
     (d, s) \<leftarrow> read_sep_octet s;
     Some (of_nat (((a * 256 + b) * 256 + c) * 256 + d), s) }"

definition read_group :: "nat \<Rightarrow> string \<Rightarrow> (nat \<times> string) option" where
  "read_group i s =
     Option.bind (if i = 0 then Some s else strip_prefix '':'' s) (read_number 16 65535 4 True)"

text \<open>
  \<open>read_groups\<close> reads up to \<open>limit\<close> groups, a trailing dotted IPv4 address counting as two; it
  gives the groups, whether it ended in a dotted address, and the rest of the input.
\<close>

function read_groups :: "nat \<Rightarrow> nat \<Rightarrow> string \<Rightarrow> nat list \<times> bool \<times> string" where
  "read_groups limit i s =
     (if limit \<le> i then ([], False, s)
      else
        (case (if i + 1 < limit
               then Option.bind (if i = 0 then Some s else strip_prefix '':'' s) read_ipv4
               else None) of
           Some (a, rest) \<Rightarrow> ([unat a div 65536, unat a mod 65536], True, rest)
         | None \<Rightarrow>
             (case read_group i s of
                None \<Rightarrow> ([], False, s)
              | Some (g, rest) \<Rightarrow>
                  (let (gs, v4, rest') = read_groups limit (i + 1) rest in (g # gs, v4, rest')))))"
  by pat_completeness auto
termination
  by (relation "measure (\<lambda>(limit, i, s). limit - i)") auto

declare read_groups.simps [simp del]

definition of_segments :: "nat list \<Rightarrow> 128 word" where
  "of_segments ss = of_nat (foldl (\<lambda>acc s. acc * 65536 + s) 0 ss)"

definition read_ipv6 :: "string \<Rightarrow> (128 word \<times> string) option" where
  "read_ipv6 s =
     (let (hd_gs, v4, rest) = read_groups 8 0 s in
        if length hd_gs = 8 then Some (of_segments hd_gs, rest)
        else if v4 then None
        else (case strip_prefix ''::'' rest of
                None \<Rightarrow> None
              | Some rest' \<Rightarrow>
                  (let limit = 7 - length hd_gs;
                       (tl_gs, _, rest'') = read_groups limit 0 rest'
                   in Some (of_segments
                        (hd_gs @ replicate (8 - length hd_gs - length tl_gs) 0 @ tl_gs), rest''))))"

text \<open>\<open>str::parse\<close> at the type \<open>IpAddr\<close>: the whole text must be an address.\<close>

definition parse_ip :: "string \<Rightarrow> ip_addr option" where
  "parse_ip s =
     (case read_ipv4 s of
        Some (a, rest) \<Rightarrow> if rest = [] then Some (V4 a) else None
      | None \<Rightarrow>
          (case read_ipv6 s of
             Some (v, rest) \<Rightarrow> if rest = [] then Some (V6 v) else None
           | None \<Rightarrow> None))"

lemma replicate_numeral_eval: "replicate (numeral k) x = x # replicate (pred_numeral k) x"
  by (simp add: numeral_eq_Suc)

lemmas parse_ip_eval =
  parse_ip_def read_ipv4_def read_sep_octet_def read_octet_def read_number_def
  digit_of_def starts_with_def read_ipv6_def read_group_def of_segments_def read_groups.simps
  replicate_numeral_eval

lemmas show_ip_eval =
  show_ip_def show_ipv4_def octets_def show_ipv6_def to_ipv4_mapped_def segments_def
  show_segments_def str_simps

end
