(* ===== verification/Errors.thy ===== *)
theory Errors
  imports Net
begin

text \<open>
  The error taxonomy of \<open>corx-core/src/error.rs\<close>: the machine-readable kinds, the errors of the
  hot path, and the client-safe payload they are rendered into. A boxed source error is the text
  it displays.
\<close>

subsection \<open>Kinds\<close>

datatype error_kind =
    InvalidUrlKind
  | MissingRequiredHeaderKind
  | OriginNotAllowedKind
  | SsrfBlockedKind
  | DnsFailureKind
  | UpstreamUnreachableKind
  | UpstreamTimeoutKind
  | TooManyRedirectsKind
  | TlsFailureKind
  | PayloadTooLargeKind
  | RateLimitedKind
  | TargetNotAllowedKind
  | UnauthorizedKind
  | CircuitOpenKind
  | RedirectBlockedKind
  | IoKind
  | InternalKind

text \<open>A \<open>StatusCode\<close> is its number.\<close>

type_synonym status_code = nat

fun kind_status :: "error_kind \<Rightarrow> status_code" where
  "kind_status InvalidUrlKind = 400"
| "kind_status MissingRequiredHeaderKind = 400"
| "kind_status OriginNotAllowedKind = 403"
| "kind_status SsrfBlockedKind = 403"
| "kind_status TargetNotAllowedKind = 403"
| "kind_status RedirectBlockedKind = 403"
| "kind_status DnsFailureKind = 502"
| "kind_status UpstreamUnreachableKind = 502"
| "kind_status TlsFailureKind = 502"
| "kind_status UpstreamTimeoutKind = 504"
| "kind_status TooManyRedirectsKind = 508"
| "kind_status PayloadTooLargeKind = 413"
| "kind_status RateLimitedKind = 429"
| "kind_status UnauthorizedKind = 401"
| "kind_status CircuitOpenKind = 503"
| "kind_status IoKind = 500"
| "kind_status InternalKind = 500"

fun kind_as_str :: "error_kind \<Rightarrow> string" where
  "kind_as_str InvalidUrlKind = ''invalid_url''"
| "kind_as_str MissingRequiredHeaderKind = ''missing_required_header''"
| "kind_as_str OriginNotAllowedKind = ''origin_not_allowed''"
| "kind_as_str SsrfBlockedKind = ''ssrf_blocked''"
| "kind_as_str DnsFailureKind = ''dns_failure''"
| "kind_as_str UpstreamUnreachableKind = ''upstream_unreachable''"
| "kind_as_str UpstreamTimeoutKind = ''upstream_timeout''"
| "kind_as_str TooManyRedirectsKind = ''too_many_redirects''"
| "kind_as_str TlsFailureKind = ''tls_failure''"
| "kind_as_str PayloadTooLargeKind = ''payload_too_large''"
| "kind_as_str RateLimitedKind = ''rate_limited''"
| "kind_as_str TargetNotAllowedKind = ''target_not_allowed''"
| "kind_as_str UnauthorizedKind = ''unauthorized''"
| "kind_as_str CircuitOpenKind = ''circuit_open''"
| "kind_as_str RedirectBlockedKind = ''redirect_blocked''"
| "kind_as_str IoKind = ''io''"
| "kind_as_str InternalKind = ''internal''"

fun client_message :: "error_kind \<Rightarrow> string" where
  "client_message InvalidUrlKind = ''invalid target url''"
| "client_message MissingRequiredHeaderKind = ''missing required header''"
| "client_message OriginNotAllowedKind = ''origin not allowed''"
| "client_message SsrfBlockedKind = ''target address blocked by ssrf policy''"
| "client_message DnsFailureKind = ''dns lookup failed''"
| "client_message UpstreamUnreachableKind = ''upstream unreachable''"
| "client_message UpstreamTimeoutKind = ''upstream timed out''"
| "client_message TooManyRedirectsKind = ''too many redirects''"
| "client_message TlsFailureKind = ''tls handshake failed''"
| "client_message PayloadTooLargeKind = ''payload too large''"
| "client_message RateLimitedKind = ''rate limited''"
| "client_message TargetNotAllowedKind = ''target not allowed''"
| "client_message UnauthorizedKind = ''unauthorized''"
| "client_message CircuitOpenKind = ''circuit open for target host''"
| "client_message RedirectBlockedKind = ''redirect blocked by policy''"
| "client_message IoKind = ''internal error''"
| "client_message InternalKind = ''internal error''"

text \<open>The kinds are a finite enumeration, so facts over all of them are checked one by one.\<close>

instantiation error_kind :: enum
begin

definition enum_error_kind :: "error_kind list" where
  "enum_error_kind =
     [InvalidUrlKind, MissingRequiredHeaderKind, OriginNotAllowedKind, SsrfBlockedKind,
      DnsFailureKind, UpstreamUnreachableKind, UpstreamTimeoutKind, TooManyRedirectsKind,
      TlsFailureKind, PayloadTooLargeKind, RateLimitedKind, TargetNotAllowedKind,
      UnauthorizedKind, CircuitOpenKind, RedirectBlockedKind, IoKind, InternalKind]"

definition enum_all_error_kind :: "(error_kind \<Rightarrow> bool) \<Rightarrow> bool" where
  "enum_all_error_kind P \<longleftrightarrow> list_all P Enum.enum"

definition enum_ex_error_kind :: "(error_kind \<Rightarrow> bool) \<Rightarrow> bool" where
  "enum_ex_error_kind P \<longleftrightarrow> list_ex P Enum.enum"

instance
proof
  show U: "(UNIV :: error_kind set) = set enum_class.enum"
  proof (rule UNIV_eq_I)
    fix k :: error_kind
    show "k \<in> set enum_class.enum" by (cases k) (simp_all add: enum_error_kind_def)
  qed
  show "distinct (enum_class.enum :: error_kind list)"
    by (simp add: enum_error_kind_def)
  show "enum_class.enum_all P \<longleftrightarrow> Ball UNIV P" for P :: "error_kind \<Rightarrow> bool"
    by (simp add: enum_all_error_kind_def list_all_iff U)
  show "enum_class.enum_ex P \<longleftrightarrow> Bex UNIV P" for P :: "error_kind \<Rightarrow> bool"
    by (simp add: enum_ex_error_kind_def list_ex_iff U)
qed

end

subsection \<open>Errors\<close>

datatype proxy_error =
    InvalidUrl string
  | MissingHeader string
  | OriginNotAllowed string
  | SsrfBlocked ip_addr
  | Dns string string
  | UpstreamErr string
  | UpstreamTimeout
  | TooManyRedirects "8 word"
  | Tls string
  | PayloadTooLarge
  | RateLimited
  | TargetNotAllowed string
  | Unauthorized string
  | CircuitOpen string
  | RedirectBlocked string
  | Io string
  | Internal string

fun error_kind_of :: "proxy_error \<Rightarrow> error_kind" where
  "error_kind_of (InvalidUrl _) = InvalidUrlKind"
| "error_kind_of (MissingHeader _) = MissingRequiredHeaderKind"
| "error_kind_of (OriginNotAllowed _) = OriginNotAllowedKind"
| "error_kind_of (SsrfBlocked _) = SsrfBlockedKind"
| "error_kind_of (Dns _ _) = DnsFailureKind"
| "error_kind_of (UpstreamErr _) = UpstreamUnreachableKind"
| "error_kind_of UpstreamTimeout = UpstreamTimeoutKind"
| "error_kind_of (TooManyRedirects _) = TooManyRedirectsKind"
| "error_kind_of (Tls _) = TlsFailureKind"
| "error_kind_of PayloadTooLarge = PayloadTooLargeKind"
| "error_kind_of RateLimited = RateLimitedKind"
| "error_kind_of (TargetNotAllowed _) = TargetNotAllowedKind"
| "error_kind_of (Unauthorized _) = UnauthorizedKind"
| "error_kind_of (CircuitOpen _) = CircuitOpenKind"
| "error_kind_of (RedirectBlocked _) = RedirectBlockedKind"
| "error_kind_of (Io _) = IoKind"
| "error_kind_of (Internal _) = InternalKind"

text \<open>The diagnostic text of an error, which stays in the server log.\<close>

fun display_error :: "proxy_error \<Rightarrow> string" where
  "display_error (InvalidUrl s) = ''invalid target url: '' @ s"
| "display_error (MissingHeader s) = ''missing required header: `'' @ s @ ''`''"
| "display_error (OriginNotAllowed s) = ''origin `'' @ s @ ''` is not allowed''"
| "display_error (SsrfBlocked ip) = ''target resolves to blocked address: '' @ show_ip ip"
| "display_error (Dns h s) = ''dns lookup failed for `'' @ h @ ''`: '' @ s"
| "display_error (UpstreamErr s) = ''upstream unreachable: '' @ s"
| "display_error UpstreamTimeout = ''upstream timed out''"
| "display_error (TooManyRedirects n) =
     ''too many redirects (limit '' @ show_nat (unat n) @ '')''"
| "display_error (Tls s) = ''tls handshake failed: '' @ s"
| "display_error PayloadTooLarge = ''payload too large''"
| "display_error RateLimited = ''rate limited''"
| "display_error (TargetNotAllowed s) = ''target not allowed: '' @ s"
| "display_error (Unauthorized s) = ''unauthorized: '' @ s"
| "display_error (CircuitOpen h) = ''circuit open for host `'' @ h @ ''`''"
| "display_error (RedirectBlocked s) = ''redirect blocked: '' @ s"
| "display_error (Io s) = ''i/o error: '' @ s"
| "display_error (Internal s) = ''internal error: '' @ s"

record error_payload =
  ep_error :: string
  ep_message :: string

definition to_payload :: "proxy_error \<Rightarrow> status_code \<times> error_payload" where
  "to_payload e =
     (let kind = error_kind_of e in
        (kind_status kind, \<lparr>ep_error = kind_as_str kind, ep_message = client_message kind\<rparr>))"

type_synonym 'a res = "proxy_error + 'a"

subsection \<open>What the taxonomy promises\<close>

lemma kind_as_str_inj: "inj kind_as_str"
proof -
  have "distinct (map kind_as_str enum_class.enum)"
    by (simp add: enum_error_kind_def)
  then have "inj_on kind_as_str (set enum_class.enum)"
    by (simp add: distinct_map)
  then show ?thesis by (simp add: enum_UNIV)
qed

lemma kind_status_error: "400 \<le> kind_status k \<and> kind_status k < 600"
  by (cases k) simp_all

text \<open>
  The client sees an error only through its kind: two errors are rendered alike exactly when
  their kinds agree, whatever host, address or source error they carry (so no diagnostic detail
  reaches the wire, and the slug determines the kind), and the status is an error status.
\<close>

theorem error_payload_is_client_safe:
  "(to_payload e = to_payload e' \<longleftrightarrow> error_kind_of e = error_kind_of e') \<and>
   400 \<le> fst (to_payload e) \<and> fst (to_payload e) < 600"
  using kind_as_str_inj kind_status_error [of "error_kind_of e"]
  by (auto simp: to_payload_def Let_def dest: injD)

end
