(* ===== verification/Config.thy ===== *)
theory Config
  imports Net
begin

text \<open>
  The configuration tree of \<open>corx-core/src/config/\<close> with its built-in defaults: one record per
  section, \<open>default_config\<close> for \<open>Config::default\<close>. Byte and rate fields keep the width of the code;
  \<open>usize\<close> is 64 bits; durations are nanoseconds; an \<open>IpNet\<close> (crate \<open>ipnet\<close>) is its address and prefix length, a
  \<open>PathBuf\<close> its text, and the \<open>f64\<close> sampling ratio its IEEE bit pattern.
\<close>

type_synonym u8 = "8 word"
type_synonym u16 = "16 word"
type_synonym u32 = "32 word"
type_synonym u64 = "64 word"
type_synonym usize = "64 word"
type_synonym ip_net = "ip_addr \<times> nat"

definition default_true :: bool where
  "default_true = True"

subsection \<open>Listener and TLS\<close>

record tls_config =
  tls_cert_path :: string
  tls_key_path :: string
  tls_client_ca_path :: "string option"
  tls_alpn_protocols :: "string list"

definition default_alpn_protocols :: "string list" where
  "default_alpn_protocols = [''h2'', ''http/1.1'']"

record server_config =
  sv_bind :: socket_addr
  sv_workers :: usize
  sv_graceful_shutdown :: duration
  sv_http2 :: bool
  sv_tls :: "tls_config option"

definition default_server_config :: server_config where
  "default_server_config =
     \<lparr>sv_bind = (V4 0, 8080), sv_workers = 0, sv_graceful_shutdown = from_secs 30,
      sv_http2 = True, sv_tls = None\<rparr>"

subsection \<open>Limits\<close>

datatype redirect_policy = Follow | Block | Rewrite

record limits_config =
  lm_max_request_body_bytes :: u64
  lm_max_request_header_bytes :: u32
  lm_max_response_body_bytes :: u64
  lm_inflight_max :: u32
  lm_request_timeout :: duration
  lm_connect_timeout :: duration
  lm_max_redirects :: u8
  lm_allow_https_to_http_downgrade :: bool
  lm_redirect_policy :: redirect_policy

definition MIB :: u64 where
  "MIB = 1024 * 1024"

definition default_max_response_body_bytes :: u64 where
  "default_max_response_body_bytes = 50 * MIB"

definition default_inflight_max :: u32 where
  "default_inflight_max = 1000"

definition default_limits_config :: limits_config where
  "default_limits_config =
     \<lparr>lm_max_request_body_bytes = 10 * MIB,
      lm_max_request_header_bytes = 32 * 1024,
      lm_max_response_body_bytes = default_max_response_body_bytes,
      lm_inflight_max = default_inflight_max,
      lm_request_timeout = from_mins 1,
      lm_connect_timeout = from_secs 10,
      lm_max_redirects = 5,
      lm_allow_https_to_http_downgrade = False,
      lm_redirect_policy = Follow\<rparr>"

subsection \<open>CORS\<close>

datatype cors_policy_kind = WildcardKind | ReflectKind | ExplicitKind

record cors_config =
  cc_policy :: cors_policy_kind
  cc_origins :: "string list"
  cc_allow_any_origin :: bool
  cc_allowed_methods :: "string list"
  cc_allowed_headers :: "string list"
  cc_exposed_headers :: "string list"
  cc_max_age :: duration
  cc_allow_credentials :: bool
  cc_allow_private_network :: bool

definition default_allowed_methods :: "string list" where
  "default_allowed_methods =
     [''GET'', ''HEAD'', ''POST'', ''PUT'', ''DELETE'', ''PATCH'', ''OPTIONS'']"

definition default_allowed_headers :: "string list" where
  "default_allowed_headers =
     [''accept'', ''accept-language'', ''authorization'', ''content-language'', ''content-type'',
      ''x-requested-with'', ''x-request-id'']"

definition default_exposed_headers :: "string list" where
  "default_exposed_headers = [''x-corx-status'', ''x-corx-target-url'', ''x-request-id'']"

definition default_cors_config :: cors_config where
  "default_cors_config =
     \<lparr>cc_policy = ReflectKind, cc_origins = [], cc_allow_any_origin = False,
      cc_allowed_methods = default_allowed_methods,
      cc_allowed_headers = default_allowed_headers,
      cc_exposed_headers = default_exposed_headers,
      cc_max_age = from_mins 10, cc_allow_credentials = False,
      cc_allow_private_network = False\<rparr>"

subsection \<open>Inbound guards\<close>

datatype preflight_mode = Enforce | Open_Mode

record preflight_config =
  pf_mode :: preflight_mode
  pf_rate_limit :: bool

definition default_preflight_config :: preflight_config where
  "default_preflight_config = \<lparr>pf_mode = Enforce, pf_rate_limit = True\<rparr>"

datatype auth_mode = NoAuth | Bearer

record auth_config =
  au_mode :: auth_mode
  au_bearer_tokens :: "string list"

definition default_auth_config :: auth_config where
  "default_auth_config = \<lparr>au_mode = NoAuth, au_bearer_tokens = []\<rparr>"

record security_config =
  sc_require_header :: "string list"
  sc_block_methods :: "string list"
  sc_remove_request_headers :: "string list"
  sc_remove_response_headers :: "string list"
  sc_origin_blacklist :: "string list"
  sc_origin_whitelist :: "string list"
  sc_preflight :: preflight_config
  sc_auth :: auth_config
  sc_require_client_binding :: bool

definition default_security_config :: security_config where
  "default_security_config =
     \<lparr>sc_require_header = [''origin''],
      sc_block_methods = [''CONNECT'', ''TRACE''],
      sc_remove_request_headers = [''cookie'', ''cookie2''],
      sc_remove_response_headers = [''set-cookie'', ''set-cookie2''],
      sc_origin_blacklist = [], sc_origin_whitelist = [],
      sc_preflight = default_preflight_config, sc_auth = default_auth_config,
      sc_require_client_binding = False\<rparr>"

subsection \<open>SSRF and target admission\<close>

datatype ssrf_mode = Strict | Permissive (allow_private: bool)

definition admits_private :: "ssrf_mode \<Rightarrow> bool" where
  "admits_private m \<longleftrightarrow> m = Permissive True"

record ssrf_config =
  sf_mode :: ssrf_mode
  sf_allow_ipv6 :: bool
  sf_extra_blocked_cidrs :: "ip_net list"
  sf_extra_allowed_cidrs :: "ip_net list"

definition default_ssrf_config :: ssrf_config where
  "default_ssrf_config =
     \<lparr>sf_mode = Strict, sf_allow_ipv6 = True, sf_extra_blocked_cidrs = [],
      sf_extra_allowed_cidrs = []\<rparr>"

datatype target_mode = AnyPublic | Allowlist | Denylist

record target_config =
  tc_mode :: target_mode
  tc_hosts :: "string list"
  tc_schemes :: "string list"
  tc_https_only :: bool

definition default_schemes :: "string list" where
  "default_schemes = [''https'', ''http'']"

definition default_target_config :: target_config where
  "default_target_config =
     \<lparr>tc_mode = AnyPublic, tc_hosts = [], tc_schemes = default_schemes, tc_https_only = False\<rparr>"

subsection \<open>Forwarding headers\<close>

record forwarded_config =
  fc_inject :: bool
  fc_trust_inbound_xff :: bool
  fc_inject_request_id :: bool

definition default_forwarded_config :: forwarded_config where
  "default_forwarded_config =
     \<lparr>fc_inject = True, fc_trust_inbound_xff = False, fc_inject_request_id = True\<rparr>"

subsection \<open>Rate limiting\<close>

record origin_limit_config =
  ol_rps :: u32
  ol_burst :: u32
  ol_unlimited_patterns :: "string list"

record ip_limit_config =
  il_rps :: u32
  il_burst :: u32
  il_trusted_cidrs :: "ip_net list"

record host_limit_config =
  hl_rps :: u32
  hl_burst :: u32

record global_limit_config =
  gl_rps :: u32
  gl_burst :: u32

record rate_limit_config =
  rl_enabled :: bool
  rl_max_keys :: usize
  rl_origin :: origin_limit_config
  rl_ip :: ip_limit_config
  rl_target_host :: host_limit_config
  rl_global :: global_limit_config

definition default_max_keys :: usize where
  "default_max_keys = 16384"

definition default_rate_limit_config :: rate_limit_config where
  "default_rate_limit_config =
     \<lparr>rl_enabled = True, rl_max_keys = default_max_keys,
      rl_origin = \<lparr>ol_rps = 50, ol_burst = 100, ol_unlimited_patterns = []\<rparr>,
      rl_ip = \<lparr>il_rps = 30, il_burst = 60, il_trusted_cidrs = []\<rparr>,
      rl_target_host = \<lparr>hl_rps = 100, hl_burst = 200\<rparr>,
      rl_global = \<lparr>gl_rps = 5000, gl_burst = 10000\<rparr>\<rparr>"

subsection \<open>Circuit breaker\<close>

record circuit_breaker_config =
  cb_enabled :: bool
  cb_failure_threshold :: u32
  cb_window :: duration
  cb_open_duration :: duration
  cb_half_open_max :: u32
  cb_count_5xx :: bool
  cb_max_hosts :: usize

definition default_failure_threshold :: u32 where "default_failure_threshold = 5"
definition default_half_open_max :: u32 where "default_half_open_max = 1"
definition default_window :: duration where "default_window = from_secs 30"
definition default_open_duration :: duration where "default_open_duration = from_secs 30"
definition default_max_hosts :: usize where "default_max_hosts = 8192"

definition default_circuit_breaker_config :: circuit_breaker_config where
  "default_circuit_breaker_config =
     \<lparr>cb_enabled = True, cb_failure_threshold = default_failure_threshold,
      cb_window = default_window, cb_open_duration = default_open_duration,
      cb_half_open_max = default_half_open_max, cb_count_5xx = True,
      cb_max_hosts = default_max_hosts\<rparr>"

subsection \<open>Upstream client and telemetry\<close>

record upstream_config =
  up_pool_max_idle_per_host :: usize
  up_pool_idle_timeout :: duration
  up_user_agent :: string

text \<open>The version of the workspace, which the build substitutes for \<open>CARGO_PKG_VERSION\<close>.\<close>

definition cargo_pkg_version :: string where
  "cargo_pkg_version = ''0.2.0''"

definition default_upstream_config :: upstream_config where
  "default_upstream_config =
     \<lparr>up_pool_max_idle_per_host = 32, up_pool_idle_timeout = from_secs 90,
      up_user_agent = ''corx/'' @ cargo_pkg_version\<rparr>"

datatype log_format = Pretty | Json

datatype otel_protocol = Grpc | HttpProto

record otel_config =
  ot_enabled :: bool
  ot_endpoint :: string
  ot_protocol :: otel_protocol
  ot_service_name :: string
  ot_service_namespace :: string
  ot_resource_attributes :: "string list"
  ot_sample_ratio :: u64

definition default_otel_endpoint :: string where
  "default_otel_endpoint = ''http://localhost:4317''"

definition default_otel_service_name :: string where
  "default_otel_service_name = ''corx''"

definition default_sample_ratio :: u64 where
  "default_sample_ratio = 0x3FB999999999999A"

definition default_otel_config :: otel_config where
  "default_otel_config =
     \<lparr>ot_enabled = False, ot_endpoint = default_otel_endpoint, ot_protocol = Grpc,
      ot_service_name = default_otel_service_name, ot_service_namespace = [],
      ot_resource_attributes = [], ot_sample_ratio = default_sample_ratio\<rparr>"

record observability_config =
  ob_log_format :: log_format
  ob_log_level :: string
  ob_metrics_endpoint :: string
  ob_otel :: otel_config

definition default_observability_config :: observability_config where
  "default_observability_config =
     \<lparr>ob_log_format = Json, ob_log_level = ''info'', ob_metrics_endpoint = ''/metrics'',
      ob_otel = default_otel_config\<rparr>"

subsection \<open>The whole tree\<close>

record config =
  cf_server :: server_config
  cf_limits :: limits_config
  cf_cors :: cors_config
  cf_security :: security_config
  cf_ssrf :: ssrf_config
  cf_target :: target_config
  cf_forwarded :: forwarded_config
  cf_rate_limit :: rate_limit_config
  cf_circuit_breaker :: circuit_breaker_config
  cf_upstream :: upstream_config
  cf_observability :: observability_config

definition default_config :: config where
  "default_config =
     \<lparr>cf_server = default_server_config, cf_limits = default_limits_config,
      cf_cors = default_cors_config, cf_security = default_security_config,
      cf_ssrf = default_ssrf_config, cf_target = default_target_config,
      cf_forwarded = default_forwarded_config, cf_rate_limit = default_rate_limit_config,
      cf_circuit_breaker = default_circuit_breaker_config,
      cf_upstream = default_upstream_config,
      cf_observability = default_observability_config\<rparr>"

lemmas default_config_eval =
  default_config_def default_server_config_def default_limits_config_def default_cors_config_def
  default_security_config_def default_preflight_config_def default_auth_config_def
  default_ssrf_config_def default_target_config_def default_forwarded_config_def
  default_rate_limit_config_def default_circuit_breaker_config_def default_upstream_config_def
  default_observability_config_def default_otel_config_def
  MIB_def default_max_response_body_bytes_def default_inflight_max_def default_max_keys_def
  default_failure_threshold_def default_half_open_max_def default_window_def
  default_open_duration_def default_max_hosts_def cargo_pkg_version_def from_secs_def from_mins_def
  default_schemes_def default_allowed_methods_def default_allowed_headers_def
  default_exposed_headers_def

end
