(* ===== verification/Validate.thy ===== *)
theory Validate
  imports Config
begin

text \<open>
  \<open>corx-core/src/config/validate.rs\<close>: the semantic validator run after the configuration is
  loaded. Each check appends to a report of errors and warnings; \<open>is_file\<close> stands for the file
  system the TLS check asks.
\<close>

subsection \<open>Reports\<close>

record config_error =
  ce_path :: string
  ce_reason :: string

record validation_report =
  vr_errors :: "config_error list"
  vr_warnings :: "config_error list"

definition empty_report :: validation_report where
  "empty_report = \<lparr>vr_errors = [], vr_warnings = []\<rparr>"

definition has_errors :: "validation_report \<Rightarrow> bool" where
  "has_errors r \<longleftrightarrow> vr_errors r \<noteq> []"

definition config_error_new :: "string \<Rightarrow> string \<Rightarrow> config_error" where
  "config_error_new path reason = \<lparr>ce_path = path, ce_reason = reason\<rparr>"

definition push_error :: "bool \<Rightarrow> string \<Rightarrow> string \<Rightarrow> validation_report \<Rightarrow> validation_report" where
  "push_error c path reason r =
     (if c then r\<lparr>vr_errors := vr_errors r @ [config_error_new path reason]\<rparr> else r)"

definition push_warning :: "bool \<Rightarrow> string \<Rightarrow> string \<Rightarrow> validation_report \<Rightarrow> validation_report" where
  "push_warning c path reason r =
     (if c then r\<lparr>vr_warnings := vr_warnings r @ [config_error_new path reason]\<rparr> else r)"

definition display_config_error :: "config_error \<Rightarrow> string" where
  "display_config_error e =
     ''invalid configuration at `'' @ ce_path e @ ''`: '' @ ce_reason e"

definition display_report :: "validation_report \<Rightarrow> string" where
  "display_report r =
     concat (map (\<lambda>e. ''ERROR '' @ display_config_error e @ [CHR 0x0A]) (vr_errors r)) @
     concat (map (\<lambda>e. ''WARN  '' @ display_config_error e @ [CHR 0x0A]) (vr_warnings r))"

subsection \<open>The checks\<close>

definition validate_cors :: "config \<Rightarrow> validation_report \<Rightarrow> validation_report" where
  "validate_cors cfg report = (let c = cf_cors cfg in
     push_warning (cc_allow_private_network c \<and> cc_policy c \<noteq> ExplicitKind)
       ''cors.allow_private_network''
       ''Private Network Access should usually be paired with `policy = \"explicit\"` so that only known origins can reach the private network''
     (push_error (cc_policy c = ReflectKind \<and> cc_allow_any_origin c \<and> cc_allow_credentials c)
       ''cors.allow_any_origin''
       ''reflect + allow_any_origin + allow_credentials is unsafe; list explicit origins instead''
     (push_error (cc_policy c = ExplicitKind \<and> cc_origins c = [])
       ''cors.origins''
       ''policy is `explicit` but no origins are listed; the proxy would reject every cross-origin request''
     (push_error (cc_policy c = WildcardKind \<and> cc_allow_credentials c)
       ''cors.allow_credentials''
       ''wildcard policy + allow_credentials=true is rejected by browsers; switch the policy to `reflect` or `explicit`''
     report))))"

definition validate_target :: "config \<Rightarrow> validation_report \<Rightarrow> validation_report" where
  "validate_target cfg report =
     push_error (tc_mode (cf_target cfg) = Allowlist \<and> tc_hosts (cf_target cfg) = [])
       ''target.hosts''
       ''mode is `allowlist` but hosts is empty; every target would be rejected''
     report"

definition has_client_binding :: "config \<Rightarrow> bool" where
  "has_client_binding cfg = (let s = cf_security cfg;
     has_origin_bind = (sc_origin_whitelist s \<noteq> []);
     has_bearer = (au_mode (sc_auth s) = Bearer \<and> au_bearer_tokens (sc_auth s) \<noteq> []);
     has_mtls = (case sv_tls (cf_server cfg) of None \<Rightarrow> False | Some t \<Rightarrow> tls_client_ca_path t \<noteq> None)
   in has_origin_bind \<or> has_bearer \<or> has_mtls)"

definition validate_auth :: "config \<Rightarrow> validation_report \<Rightarrow> validation_report" where
  "validate_auth cfg report = (let s = cf_security cfg in
     push_error (sc_require_client_binding s \<and> \<not> has_client_binding cfg)
       ''security.require_client_binding''
       ''require_client_binding is true but none of origin_whitelist, bearer auth, or mTLS client CA is configured''
     (push_error (au_mode (sc_auth s) = Bearer \<and> au_bearer_tokens (sc_auth s) = [])
       ''security.auth.bearer_tokens''
       ''auth.mode is `bearer` but no tokens are configured''
     report))"

definition validate_circuit :: "config \<Rightarrow> validation_report \<Rightarrow> validation_report" where
  "validate_circuit cfg report =
     (if \<not> cb_enabled (cf_circuit_breaker cfg) then report
      else push_error (cb_failure_threshold (cf_circuit_breaker cfg) = 0)
        ''circuit_breaker.failure_threshold''
        ''must be > 0 when the breaker is enabled''
      report)"

definition validate_limits :: "config \<Rightarrow> validation_report \<Rightarrow> validation_report" where
  "validate_limits cfg report = (let l = cf_limits cfg in
     push_error (lm_max_request_body_bytes l = 0)
       ''limits.max_request_body_bytes'' ''must be > 0''
     (push_warning (lm_max_redirects l > 32)
       ''limits.max_redirects''
       ''values above 32 are rarely useful and amplify resource consumption''
     (push_warning (lm_connect_timeout l \<ge> lm_request_timeout l)
       ''limits.connect_timeout''
       ''connect_timeout >= request_timeout: the request budget will be exhausted before the upstream can respond''
     report)))"

definition check_dimension :: "string \<Rightarrow> u32 \<Rightarrow> u32 \<Rightarrow> validation_report \<Rightarrow> validation_report" where
  "check_dimension pfx rps burst report =
     (if rps = 0 then report
      else if burst = 0 then
        push_error True (pfx @ ''.burst'') ''must be > 0 when the dimension's rps is > 0'' report
      else
        push_warning (burst < rps) (pfx @ ''.burst'')
          ''burst smaller than rps gives no headroom for bursty clients'' report)"

definition validate_rate_limit :: "rate_limit_config \<Rightarrow> validation_report \<Rightarrow> validation_report" where
  "validate_rate_limit cfg report =
     (if \<not> rl_enabled cfg then report
      else
       (let any_enabled = (ol_rps (rl_origin cfg) > 0 \<or> il_rps (rl_ip cfg) > 0 \<or>
              hl_rps (rl_target_host cfg) > 0 \<or> gl_rps (rl_global cfg) > 0) in
        check_dimension ''rate_limit.global'' (gl_rps (rl_global cfg)) (gl_burst (rl_global cfg))
        (check_dimension ''rate_limit.target_host''
           (hl_rps (rl_target_host cfg)) (hl_burst (rl_target_host cfg))
        (check_dimension ''rate_limit.ip'' (il_rps (rl_ip cfg)) (il_burst (rl_ip cfg))
        (check_dimension ''rate_limit.origin'' (ol_rps (rl_origin cfg)) (ol_burst (rl_origin cfg))
        (push_error (\<not> any_enabled) ''rate_limit''
          ''rate_limit.enabled = true but every GCRA dimension is at 0; either disable rate-limiting or set at least one of origin.rps / ip.rps / target_host.rps / global.rps (inflight is limits.inflight_max)''
        (push_error (rl_max_keys cfg = 0) ''rate_limit.max_keys''
          ''must be > 0 when rate limiting is enabled'' report)))))))"

definition validate_upstream :: "config \<Rightarrow> validation_report \<Rightarrow> validation_report" where
  "validate_upstream cfg report =
     push_error (trim (up_user_agent (cf_upstream cfg)) = [])
       ''upstream.user_agent'' ''must be a non-empty token''
     (push_error (up_pool_max_idle_per_host (cf_upstream cfg) = 0)
       ''upstream.pool_max_idle_per_host''
       ''must be > 0; setting to 0 disables connection reuse and collapses throughput''
     report)"

definition validate_tls :: "(string \<Rightarrow> bool) \<Rightarrow> config \<Rightarrow> validation_report \<Rightarrow> validation_report" where
  "validate_tls is_file cfg report =
     (case sv_tls (cf_server cfg) of
        None \<Rightarrow> report
      | Some tls \<Rightarrow>
          push_error (\<not> is_file (tls_key_path tls)) ''server.tls.key_path''
            (''private key file not found: '' @ tls_key_path tls)
          (push_error (\<not> is_file (tls_cert_path tls)) ''server.tls.cert_path''
            (''certificate file not found: '' @ tls_cert_path tls)
          report))"

definition validate_ssrf :: "config \<Rightarrow> validation_report \<Rightarrow> validation_report" where
  "validate_ssrf cfg report =
     push_warning
       (sf_mode (cf_ssrf cfg) = Permissive True \<and> sf_extra_blocked_cidrs (cf_ssrf cfg) = [])
       ''ssrf.mode''
       ''permissive mode with `allow_private=true` and no extra block list admits every IP, including AWS / GCP metadata. Add explicit `extra_blocked_cidrs` or switch to `strict` for production.''
     report"

definition validate_full :: "(string \<Rightarrow> bool) \<Rightarrow> config \<Rightarrow> validation_report" where
  "validate_full is_file cfg =
     validate_circuit cfg
     (validate_auth cfg
     (validate_target cfg
     (validate_ssrf cfg
     (validate_tls is_file cfg
     (validate_upstream cfg
     (validate_rate_limit (cf_rate_limit cfg)
     (validate_limits cfg
     (validate_cors cfg empty_report))))))))"

definition validate :: "(string \<Rightarrow> bool) \<Rightarrow> config \<Rightarrow> config_error + unit" where
  "validate is_file cfg =
     (case vr_errors (validate_full is_file cfg) of
        err # _ \<Rightarrow> Inl err
      | [] \<Rightarrow> Inr ())"

subsection \<open>What a validated configuration satisfies\<close>

definition cors_safe :: "config \<Rightarrow> bool" where
  "cors_safe cfg \<longleftrightarrow>
     (cc_allow_credentials (cf_cors cfg) \<longrightarrow>
        cc_policy (cf_cors cfg) \<noteq> WildcardKind \<and>
        \<not> (cc_policy (cf_cors cfg) = ReflectKind \<and> cc_allow_any_origin (cf_cors cfg))) \<and>
     (cc_policy (cf_cors cfg) = ExplicitKind \<longrightarrow> cc_origins (cf_cors cfg) \<noteq> [])"

definition dimension_ok :: "u32 \<Rightarrow> u32 \<Rightarrow> bool" where
  "dimension_ok rps burst \<longleftrightarrow> (rps > 0 \<longrightarrow> burst > 0)"

definition rate_limit_ok :: "rate_limit_config \<Rightarrow> bool" where
  "rate_limit_ok cfg \<longleftrightarrow>
     (rl_enabled cfg \<longrightarrow>
        rl_max_keys cfg > 0 \<and>
        (ol_rps (rl_origin cfg) > 0 \<or> il_rps (rl_ip cfg) > 0 \<or>
         hl_rps (rl_target_host cfg) > 0 \<or> gl_rps (rl_global cfg) > 0) \<and>
        dimension_ok (ol_rps (rl_origin cfg)) (ol_burst (rl_origin cfg)) \<and>
        dimension_ok (il_rps (rl_ip cfg)) (il_burst (rl_ip cfg)) \<and>
        dimension_ok (hl_rps (rl_target_host cfg)) (hl_burst (rl_target_host cfg)) \<and>
        dimension_ok (gl_rps (rl_global cfg)) (gl_burst (rl_global cfg)))"

definition auth_ok :: "config \<Rightarrow> bool" where
  "auth_ok cfg \<longleftrightarrow>
     (au_mode (sc_auth (cf_security cfg)) = Bearer \<longrightarrow>
        au_bearer_tokens (sc_auth (cf_security cfg)) \<noteq> []) \<and>
     (sc_require_client_binding (cf_security cfg) \<longrightarrow>
        sc_origin_whitelist (cf_security cfg) \<noteq> [] \<or>
        (au_mode (sc_auth (cf_security cfg)) = Bearer \<and> au_bearer_tokens (sc_auth (cf_security cfg)) \<noteq> []) \<or>
        (\<exists>tls. sv_tls (cf_server cfg) = Some tls \<and> tls_client_ca_path tls \<noteq> None))"

definition server_ok :: "(string \<Rightarrow> bool) \<Rightarrow> config \<Rightarrow> bool" where
  "server_ok is_file cfg \<longleftrightarrow>
     lm_max_request_body_bytes (cf_limits cfg) > 0 \<and>
     up_pool_max_idle_per_host (cf_upstream cfg) > 0 \<and>
     trim (up_user_agent (cf_upstream cfg)) \<noteq> [] \<and>
     (\<forall>tls. sv_tls (cf_server cfg) = Some tls \<longrightarrow>
        is_file (tls_cert_path tls) \<and> is_file (tls_key_path tls)) \<and>
     (cb_enabled (cf_circuit_breaker cfg) \<longrightarrow> cb_failure_threshold (cf_circuit_breaker cfg) > 0)"

definition target_ok :: "config \<Rightarrow> bool" where
  "target_ok cfg \<longleftrightarrow> (tc_mode (cf_target cfg) = Allowlist \<longrightarrow> tc_hosts (cf_target cfg) \<noteq> [])"

text \<open>Each check only appends, and adds an error exactly when its part of the contract fails.\<close>

lemma vr_errors_push [simp]:
  "vr_errors (push_error c p s r) = vr_errors r @ (if c then [config_error_new p s] else [])"
  "vr_errors (push_warning c p s r) = vr_errors r"
  by (simp_all add: push_error_def push_warning_def)

lemma errors_cors:
  "vr_errors (validate_cors cfg r) = [] \<longleftrightarrow> vr_errors r = [] \<and> cors_safe cfg"
  by (auto simp: validate_cors_def cors_safe_def Let_def)

lemma errors_target:
  "vr_errors (validate_target cfg r) = [] \<longleftrightarrow> vr_errors r = [] \<and> target_ok cfg"
  by (auto simp: validate_target_def target_ok_def)

lemma errors_auth:
  "vr_errors (validate_auth cfg r) = [] \<longleftrightarrow> vr_errors r = [] \<and> auth_ok cfg"
  by (auto simp: validate_auth_def auth_ok_def has_client_binding_def Let_def split: option.splits)

lemma errors_dimension:
  "vr_errors (check_dimension p rps burst r) = [] \<longleftrightarrow> vr_errors r = [] \<and> dimension_ok rps burst"
  by (auto simp: check_dimension_def dimension_ok_def word_gt_0)

lemma errors_rate_limit:
  "vr_errors (validate_rate_limit cfg r) = [] \<longleftrightarrow> vr_errors r = [] \<and> rate_limit_ok cfg"
  by (auto simp: validate_rate_limit_def rate_limit_ok_def Let_def errors_dimension word_gt_0)

lemma errors_ssrf: "vr_errors (validate_ssrf cfg r) = vr_errors r"
  by (simp add: validate_ssrf_def)

lemma errors_server:
  "vr_errors (validate_circuit cfg r) = [] \<longleftrightarrow> vr_errors r = [] \<and>
     (cb_enabled (cf_circuit_breaker cfg) \<longrightarrow> cb_failure_threshold (cf_circuit_breaker cfg) > 0)"
  "vr_errors (validate_tls is_file cfg r) = [] \<longleftrightarrow> vr_errors r = [] \<and>
     (\<forall>tls. sv_tls (cf_server cfg) = Some tls \<longrightarrow>
        is_file (tls_cert_path tls) \<and> is_file (tls_key_path tls))"
  "vr_errors (validate_upstream cfg r) = [] \<longleftrightarrow> vr_errors r = [] \<and>
     up_pool_max_idle_per_host (cf_upstream cfg) > 0 \<and> trim (up_user_agent (cf_upstream cfg)) \<noteq> []"
  "vr_errors (validate_limits cfg r) = [] \<longleftrightarrow> vr_errors r = [] \<and>
     lm_max_request_body_bytes (cf_limits cfg) > 0"
  by (auto simp: validate_circuit_def validate_tls_def validate_upstream_def validate_limits_def
      Let_def word_gt_0 split: option.splits)

lemmas validate_errors =
  errors_cors errors_target errors_auth errors_rate_limit errors_ssrf errors_server

lemma validate_full_no_errors_iff:
  "vr_errors (validate_full is_file cfg) = [] \<longleftrightarrow>
     cors_safe cfg \<and> target_ok cfg \<and> auth_ok cfg \<and> rate_limit_ok (cf_rate_limit cfg) \<and>
     server_ok is_file cfg"
  by (auto simp: validate_full_def validate_errors empty_report_def server_ok_def)

lemma validate_Inr_iff: "validate is_file cfg = Inr () \<longleftrightarrow> vr_errors (validate_full is_file cfg) = []"
  by (simp add: validate_def split: list.splits)

lemma default_config_valid: "validate is_file default_config = Inr ()"
  by (simp add: validate_Inr_iff validate_full_no_errors_iff cors_safe_def target_ok_def auth_ok_def
      rate_limit_ok_def server_ok_def dimension_ok_def default_config_eval str_simps)

text \<open>
  The rules of the validator, section by section in the order of the report: the path a rule is
  reported at, and the condition that breaks it.
\<close>

definition cors_rules :: "cors_config \<Rightarrow> (string \<times> bool) list" where
  "cors_rules c =
     [(''cors.allow_credentials'', cc_policy c = WildcardKind \<and> cc_allow_credentials c),
      (''cors.origins'', cc_policy c = ExplicitKind \<and> cc_origins c = []),
      (''cors.allow_any_origin'', cc_policy c = ReflectKind \<and> cc_allow_any_origin c \<and> cc_allow_credentials c)]"

definition rate_limit_rules :: "rate_limit_config \<Rightarrow> (string \<times> bool) list" where
  "rate_limit_rules c =
     [(''rate_limit.max_keys'', rl_enabled c \<and> rl_max_keys c = 0),
      (''rate_limit'', rl_enabled c \<and> ol_rps (rl_origin c) = 0 \<and> il_rps (rl_ip c) = 0 \<and>
         hl_rps (rl_target_host c) = 0 \<and> gl_rps (rl_global c) = 0),
      (''rate_limit.origin.burst'', rl_enabled c \<and> ol_rps (rl_origin c) \<noteq> 0 \<and> ol_burst (rl_origin c) = 0),
      (''rate_limit.ip.burst'', rl_enabled c \<and> il_rps (rl_ip c) \<noteq> 0 \<and> il_burst (rl_ip c) = 0),
      (''rate_limit.target_host.burst'',
         rl_enabled c \<and> hl_rps (rl_target_host c) \<noteq> 0 \<and> hl_burst (rl_target_host c) = 0),
      (''rate_limit.global.burst'', rl_enabled c \<and> gl_rps (rl_global c) \<noteq> 0 \<and> gl_burst (rl_global c) = 0)]"

definition tls_rules :: "(string \<Rightarrow> bool) \<Rightarrow> config \<Rightarrow> (string \<times> bool) list" where
  "tls_rules is_file cfg = (let missing = (\<lambda>path.
         (case sv_tls (cf_server cfg) of None \<Rightarrow> False | Some tls \<Rightarrow> \<not> is_file (path tls)))
     in [(''server.tls.cert_path'', missing tls_cert_path), (''server.tls.key_path'', missing tls_key_path)])"

definition auth_rules :: "config \<Rightarrow> (string \<times> bool) list" where
  "auth_rules cfg = (let s = cf_security cfg;
       tokens = (au_mode (sc_auth s) = Bearer \<and> au_bearer_tokens (sc_auth s) \<noteq> []);
       client_ca = (case sv_tls (cf_server cfg) of None \<Rightarrow> False | Some tls \<Rightarrow> tls_client_ca_path tls \<noteq> None)
     in [(''security.auth.bearer_tokens'', au_mode (sc_auth s) = Bearer \<and> au_bearer_tokens (sc_auth s) = []),
         (''security.require_client_binding'',
            sc_require_client_binding s \<and> \<not> (sc_origin_whitelist s \<noteq> [] \<or> tokens \<or> client_ca))])"

definition broken_rules :: "(string \<Rightarrow> bool) \<Rightarrow> config \<Rightarrow> (string \<times> bool) list" where
  "broken_rules is_file cfg =
     cors_rules (cf_cors cfg) @
     [(''limits.max_request_body_bytes'', lm_max_request_body_bytes (cf_limits cfg) = 0)] @
     rate_limit_rules (cf_rate_limit cfg) @
     [(''upstream.pool_max_idle_per_host'', up_pool_max_idle_per_host (cf_upstream cfg) = 0),
      (''upstream.user_agent'', trim (up_user_agent (cf_upstream cfg)) = [])] @
     tls_rules is_file cfg @
     [(''target.hosts'', tc_mode (cf_target cfg) = Allowlist \<and> tc_hosts (cf_target cfg) = [])] @
     auth_rules cfg @
     [(''circuit_breaker.failure_threshold'',
        cb_enabled (cf_circuit_breaker cfg) \<and> cb_failure_threshold (cf_circuit_breaker cfg) = 0)]"

text \<open>Each check appends the rules of its section that are broken.\<close>

definition reported :: "(string \<times> bool) list \<Rightarrow> string list" where
  "reported rules = map fst (filter snd rules)"

lemma reported_append: "reported (a @ b) = reported a @ reported b"
  by (simp add: reported_def)

lemma reported_Cons: "reported (r # rules) = (if snd r then [fst r] else []) @ reported rules"
  by (simp add: reported_def)

lemma reported_Nil: "reported [] = []"
  by (simp add: reported_def)

abbreviation error_paths :: "validation_report \<Rightarrow> string list" where
  "error_paths r \<equiv> map ce_path (vr_errors r)"

lemma paths_pushed:
  "error_paths (push_error c p s r) = error_paths r @ (if c then [p] else [])"
  "error_paths (push_warning c p s r) = error_paths r"
  "error_paths (check_dimension d rps burst r) = error_paths r @ (if rps \<noteq> 0 \<and> burst = 0 then [d @ ''.burst''] else [])"
  by (simp_all add: check_dimension_def config_error_new_def)

lemmas rule_simps = paths_pushed reported_Cons reported_Nil fst_conv snd_conv append_assoc append_Nil2 Let_def

lemma paths_cors: "error_paths (validate_cors cfg r) = error_paths r @ reported (cors_rules (cf_cors cfg))"
  unfolding validate_cors_def cors_rules_def by (simp only: rule_simps)

lemma paths_rate_limit:
  "error_paths (validate_rate_limit c r) = error_paths r @ reported (rate_limit_rules c)"
  unfolding validate_rate_limit_def rate_limit_rules_def
  by (cases "rl_enabled c")
    (simp_all only: rule_simps if_True if_False not_True_eq_False not_False_eq_True simp_thms append_Cons append_Nil,
     simp add: word_gt_0)

lemma paths_tls: "error_paths (validate_tls is_file cfg r) = error_paths r @ reported (tls_rules is_file cfg)"
  unfolding validate_tls_def tls_rules_def
  by (cases "sv_tls (cf_server cfg)") (simp_all only: rule_simps option.case if_False append_Nil)

lemma paths_auth: "error_paths (validate_auth cfg r) = error_paths r @ reported (auth_rules cfg)"
  unfolding validate_auth_def auth_rules_def has_client_binding_def by (simp only: rule_simps)

lemma paths_single:
  "error_paths (validate_limits cfg r) = error_paths r @
     reported [(''limits.max_request_body_bytes'', lm_max_request_body_bytes (cf_limits cfg) = 0)]"
  "error_paths (validate_upstream cfg r) = error_paths r @
     reported [(''upstream.pool_max_idle_per_host'', up_pool_max_idle_per_host (cf_upstream cfg) = 0),
       (''upstream.user_agent'', trim (up_user_agent (cf_upstream cfg)) = [])]"
  "error_paths (validate_ssrf cfg r) = error_paths r"
  "error_paths (validate_target cfg r) = error_paths r @
     reported [(''target.hosts'', tc_mode (cf_target cfg) = Allowlist \<and> tc_hosts (cf_target cfg) = [])]"
  "error_paths (validate_circuit cfg r) = error_paths r @
     reported [(''circuit_breaker.failure_threshold'',
       cb_enabled (cf_circuit_breaker cfg) \<and> cb_failure_threshold (cf_circuit_breaker cfg) = 0)]"
  unfolding validate_limits_def validate_upstream_def validate_ssrf_def validate_target_def validate_circuit_def
  by (simp_all only: rule_simps) (simp_all add: config_error_new_def)

text \<open>
  C19. The validator accepts a configuration exactly when the whole contract of the start-up checks
  holds: no credentials with a wildcard or any-origin policy, no empty explicit list or allowlist,
  bearer tokens and a client binding where they are required, usable rate-limit dimensions, and
  sane listener, limit, client and breaker settings. Its report names every broken rule, not only the
  first, in the order of the sections, and the error it answers with is the first of them.
\<close>

theorem validate_ok_iff:
  "(validate is_file cfg = Inr () \<longleftrightarrow>
     cors_safe cfg \<and> target_ok cfg \<and> auth_ok cfg \<and> rate_limit_ok (cf_rate_limit cfg) \<and>
     server_ok is_file cfg) \<and>
   map ce_path (vr_errors (validate_full is_file cfg)) = reported (broken_rules is_file cfg) \<and>
   map_sum ce_path id (validate is_file cfg) =
     (case reported (broken_rules is_file cfg) of [] \<Rightarrow> Inr () | path # _ \<Rightarrow> Inl path)"
proof -
  have report: "error_paths (validate_full is_file cfg) = reported (broken_rules is_file cfg)"
    unfolding validate_full_def broken_rules_def reported_append empty_report_def
    by (simp only: paths_cors paths_rate_limit paths_tls paths_auth paths_single append_assoc
        validation_report.simps list.map append_Nil)
  show ?thesis
    unfolding report [symmetric] validate_Inr_iff validate_full_no_errors_iff
    by (simp add: validate_def split: list.splits)
qed

end
