(* ===== verification/Http_Lib.thy ===== *)
theory Http_Lib
  imports Errors
begin

text \<open>
  The interface of the \<open>http\<close> crate as the proxy uses it. The crate is not part of the repository,
  so its header map is a parameter: a record of operations on a type \<open>'h\<close>, whose documented laws
  are the assumptions of the locale \<open>header_map\<close>. Everything the components prove about headers is
  proved from these laws; \<open>list_headers\<close> is an implementation that satisfies them all, on which
  concrete inputs are evaluated.

  Values are what their accessors answer: a header name is its lower-case text, a header value
  its bytes, a method its name, a \<open>Uri\<close> the record of its parts.
\<close>

subsection \<open>Values\<close>

type_synonym header_name = string
type_synonym header_value = string
type_synonym http_method = string

record uri =
  u_scheme :: "string option"
  u_authority :: "string option"
  u_host :: "string option"
  u_path :: string
  u_query :: "string option"

text \<open>A body is the sequence of answers its \<open>poll_frame\<close> gives; its end is \<open>Ready(None)\<close>.\<close>

datatype frame = Data string | Trailers "(header_name \<times> header_value) list"

datatype poll = Pending | ReadyFrame frame | ReadyErr proxy_error

type_synonym body = "poll list"

record 'h request =
  rq_method :: http_method
  rq_uri :: uri
  rq_headers :: 'h
  rq_body :: body

record 'h response =
  rs_status :: status_code
  rs_headers :: 'h
  rs_body :: body

definition is_server_error :: "status_code \<Rightarrow> bool" where
  "is_server_error s \<longleftrightarrow> 500 \<le> s \<and> s < 600"

subsection \<open>The header map\<close>

record 'h header_lib =
  hm_new :: 'h
  hm_get_all :: "'h \<Rightarrow> header_name \<Rightarrow> header_value list"
  hm_get :: "'h \<Rightarrow> header_name \<Rightarrow> header_value option"
  hm_contains :: "'h \<Rightarrow> header_name \<Rightarrow> bool"
  hm_insert :: "'h \<Rightarrow> header_name \<Rightarrow> header_value \<Rightarrow> 'h"
  hm_remove :: "'h \<Rightarrow> header_name \<Rightarrow> 'h"
  hm_extend :: "'h \<Rightarrow> 'h \<Rightarrow> 'h"
  hm_entries :: "'h \<Rightarrow> (header_name \<times> header_value) list"
  hv_to_str :: "header_value \<Rightarrow> string option"
  hv_from_str :: "string \<Rightarrow> header_value option"
  hv_from_bytes :: "string \<Rightarrow> header_value option"
  hn_from_str :: "string \<Rightarrow> header_name option"
  hn_error :: string
  method_from_bytes :: "string \<Rightarrow> http_method option"

definition visible_byte :: "char \<Rightarrow> bool" where
  "visible_byte c = (let n = (of_char c :: nat) in n = 9 \<or> 32 \<le> n \<and> n < 127)"

definition visible :: "string \<Rightarrow> bool" where
  "visible s \<longleftrightarrow> list_all visible_byte s"

definition token_bytes :: string where
  "token_bytes =
     ''!#$%&*+-.^_`|~0123456789abcdefghijklmnopqrstuvwxyzABCDEFGHIJKLMNOPQRSTUVWXYZ'' @ [CHR 0x27]"

definition is_token :: "string \<Rightarrow> bool" where
  "is_token s \<longleftrightarrow> s \<noteq> [] \<and> list_all (\<lambda>c. c \<in> set token_bytes) s"

lemmas [str_simps] = visible_def visible_byte_def is_token_def token_bytes_def

lemma visible_simps [simp]:
  "visible []"
  "visible (c # s) \<longleftrightarrow> visible_byte c \<and> visible s"
  "visible (s @ t) \<longleftrightarrow> visible s \<and> visible t"
  by (simp_all add: visible_def)

locale header_map =
  fixes H :: "'h header_lib"
  assumes get_all_new: "hm_get_all H (hm_new H) n = []"
    and get_all_insert: "hm_get_all H (hm_insert H h n v) m = (if m = n then [v] else hm_get_all H h m)"
    and get_all_remove: "hm_get_all H (hm_remove H h n) m = (if m = n then [] else hm_get_all H h m)"
    and get_all_extend: "hm_get_all H (hm_extend H h h') n =
      (if hm_get_all H h' n = [] then hm_get_all H h n else hm_get_all H h' n)"
    and get_first: "hm_get H h n = (case hm_get_all H h n of [] \<Rightarrow> None | v # _ \<Rightarrow> Some v)"
    and contains_get_all: "hm_contains H h n \<longleftrightarrow> hm_get_all H h n \<noteq> []"
    and entries_get_all: "map snd (filter (\<lambda>e. fst e = n) (hm_entries H h)) = hm_get_all H h n"
    and to_str_visible: "hv_to_str H v = (if visible v then Some v else None)"
    and from_str_bytes: "hv_from_str H s = Some v \<Longrightarrow> v = s"
    and from_str_visible: "visible s \<Longrightarrow> hv_from_str H s = Some s"
    and from_bytes_bytes: "hv_from_bytes H s = Some v \<Longrightarrow> v = s"
    and from_bytes_visible: "visible s \<Longrightarrow> hv_from_bytes H s = Some s"
    and name_from_str_lower: "hn_from_str H s = Some n \<Longrightarrow> n = to_lower s"
    and name_from_str_token: "is_token s \<Longrightarrow> hn_from_str H s = Some (to_lower s)"
    and method_from_bytes_name: "method_from_bytes H s = Some m \<Longrightarrow> m = s"
    and method_from_bytes_token: "is_token s \<Longrightarrow> method_from_bytes H s = Some s"
begin

lemma get_insert: "hm_get H (hm_insert H h n v) m = (if m = n then Some v else hm_get H h m)"
  by (simp add: get_first get_all_insert)

lemma get_remove: "hm_get H (hm_remove H h n) m = (if m = n then None else hm_get H h m)"
  by (simp add: get_first get_all_remove)

lemma get_new: "hm_get H (hm_new H) n = None"
  by (simp add: get_first get_all_new)

lemma contains_insert: "hm_contains H (hm_insert H h n v) m \<longleftrightarrow> m = n \<or> hm_contains H h m"
  by (simp add: contains_get_all get_all_insert)

lemma contains_remove: "hm_contains H (hm_remove H h n) m \<longleftrightarrow> m \<noteq> n \<and> hm_contains H h m"
  by (simp add: contains_get_all get_all_remove)

lemma contains_get: "hm_contains H h n \<longleftrightarrow> (\<exists>v. hm_get H h n = Some v)"
  by (cases "hm_get_all H h n") (auto simp: contains_get_all get_first)

lemma get_None_iff: "hm_get H h n = None \<longleftrightarrow> \<not> hm_contains H h n"
  by (simp add: contains_get)

lemma to_str_SomeD: "hv_to_str H v = Some s \<Longrightarrow> s = v \<and> visible v"
  by (auto simp: to_str_visible split: if_splits)

lemma from_str_to_str: "hv_to_str H v = Some s \<Longrightarrow> hv_from_str H s = Some v"
  by (auto dest!: to_str_SomeD intro: from_str_visible)

lemma entries_mem: "(n, v) \<in> set (hm_entries H h) \<longleftrightarrow> v \<in> set (hm_get_all H h n)"
  by (force simp flip: entries_get_all)

lemmas hm_simps =
  get_all_new get_all_insert get_all_remove get_all_extend
  get_insert get_remove get_new contains_insert contains_remove

text \<open>Removing a list of names one after the other.\<close>

lemma get_all_fold_remove:
  "hm_get_all H (fold (\<lambda>n h. hm_remove H h n) ns h) m =
     (if m \<in> set ns then [] else hm_get_all H h m)"
  by (induction ns arbitrary: h) (auto simp: get_all_remove)

lemma contains_fold_remove:
  "hm_contains H (fold (\<lambda>n h. hm_remove H h n) ns h) m \<longleftrightarrow> m \<notin> set ns \<and> hm_contains H h m"
  by (simp add: contains_get_all get_all_fold_remove)

end

subsection \<open>An implementation by a list of entries\<close>

type_synonym entries = "(header_name \<times> header_value) list"

definition list_headers :: "entries header_lib" where
  "list_headers =
     \<lparr>hm_new = [],
      hm_get_all = (\<lambda>h n. map snd (filter (\<lambda>e. fst e = n) h)),
      hm_get = (\<lambda>h n. map_of h n),
      hm_contains = (\<lambda>h n. list_ex (\<lambda>e. fst e = n) h),
      hm_insert = (\<lambda>h n v. filter (\<lambda>e. fst e \<noteq> n) h @ [(n, v)]),
      hm_remove = (\<lambda>h n. filter (\<lambda>e. fst e \<noteq> n) h),
      hm_extend = (\<lambda>h h'. filter (\<lambda>e. \<not> list_ex (\<lambda>e'. fst e' = fst e) h') h @ h'),
      hm_entries = (\<lambda>h. h),
      hv_to_str = (\<lambda>v. if visible v then Some v else None),
      hv_from_str = (\<lambda>s. if visible s then Some s else None),
      hv_from_bytes = (\<lambda>s. if visible s then Some s else None),
      hn_from_str = (\<lambda>s. if is_token s then Some (to_lower s) else None),
      hn_error = ''invalid HTTP header name'',
      method_from_bytes = (\<lambda>s. if is_token s then Some s else None)\<rparr>"

lemma filter_fst_Nil_iff: "filter (\<lambda>e. fst e = n) h = [] \<longleftrightarrow> \<not> list_ex (\<lambda>e. fst e = n) h"
  by (induction h) auto

lemma map_of_filter_fst:
  "map_of h n = (case map snd (filter (\<lambda>e. fst e = n) h) of [] \<Rightarrow> None | v # _ \<Rightarrow> Some v)"
  by (induction h) auto

lemma filter_absent_name:
  "filter (\<lambda>e. fst e = n) (filter (\<lambda>e. \<not> list_ex (\<lambda>e'. fst e' = fst e) h') h) =
     (if list_ex (\<lambda>e. fst e = n) h' then [] else filter (\<lambda>e. fst e = n) h)"
  by (induction h) auto

interpretation list_hdrs: header_map list_headers
proof unfold_locales
  fix h h' :: entries and n m :: header_name and v :: header_value
  show "hm_get_all list_headers (hm_insert list_headers h n v) m =
      (if m = n then [v] else hm_get_all list_headers h m)"
    by (auto simp: list_headers_def intro: arg_cong [where f = "map snd"] filter_cong)
  show "hm_get_all list_headers (hm_remove list_headers h n) m =
      (if m = n then [] else hm_get_all list_headers h m)"
    by (auto simp: list_headers_def intro: arg_cong [where f = "map snd"] filter_cong)
  show "hm_get_all list_headers (hm_extend list_headers h h') n =
      (if hm_get_all list_headers h' n = [] then hm_get_all list_headers h n
       else hm_get_all list_headers h' n)"
    using filter_fst_Nil_iff [of n h']
    by (auto simp: list_headers_def filter_absent_name simp del: filter_filter)
  show "hm_get list_headers h n =
      (case hm_get_all list_headers h n of [] \<Rightarrow> None | v # _ \<Rightarrow> Some v)"
    by (simp add: list_headers_def map_of_filter_fst)
  show "hm_contains list_headers h n \<longleftrightarrow> hm_get_all list_headers h n \<noteq> []"
    by (simp add: list_headers_def filter_fst_Nil_iff)
qed (auto simp: list_headers_def split: if_splits)

lemma list_headers_sel:
  "hm_new list_headers = []"
  "hm_get_all list_headers h n = map snd (filter (\<lambda>e. fst e = n) h)"
  "hm_get list_headers h n = map_of h n"
  "hm_contains list_headers h n = list_ex (\<lambda>e. fst e = n) h"
  "hm_insert list_headers h n v = filter (\<lambda>e. fst e \<noteq> n) h @ [(n, v)]"
  "hm_remove list_headers h n = filter (\<lambda>e. fst e \<noteq> n) h"
  "hm_extend list_headers h h' = filter (\<lambda>e. \<not> list_ex (\<lambda>e'. fst e' = fst e) h') h @ h'"
  "hm_entries list_headers h = h"
  "hv_to_str list_headers v = (if visible v then Some v else None)"
  "hv_from_str list_headers v = (if visible v then Some v else None)"
  "hv_from_bytes list_headers v = (if visible v then Some v else None)"
  "hn_from_str list_headers v = (if is_token v then Some (to_lower v) else None)"
  "method_from_bytes list_headers v = (if is_token v then Some v else None)"
  by (simp_all add: list_headers_def)

lemmas list_headers_eval = list_headers_sel str_simps

end
