(* ===== verification/Cors.thy ===== *)
theory Cors
  imports Http_Lib Config
begin

text \<open>
  \<open>corx-core/src/proxy/cors.rs\<close>: the CORS policy compiled from the configuration, the headers it
  puts on preflight, upstream and error responses, and the preflight test. The header map is the
  parameter \<open>H\<close>; facts about it come from the locale \<open>header_map\<close>.
\<close>

subsection \<open>Header names\<close>

definition ORIGIN :: header_name where "ORIGIN = ''origin''"
definition VARY :: header_name where "VARY = ''vary''"
definition ACAO :: header_name where "ACAO = ''access-control-allow-origin''"
definition ACAC :: header_name where "ACAC = ''access-control-allow-credentials''"
definition ACAM :: header_name where "ACAM = ''access-control-allow-methods''"
definition ACAH :: header_name where "ACAH = ''access-control-allow-headers''"
definition ACEH :: header_name where "ACEH = ''access-control-expose-headers''"
definition ACMA :: header_name where "ACMA = ''access-control-max-age''"
definition ACRM :: header_name where "ACRM = ''access-control-request-method''"
definition ACRH :: header_name where "ACRH = ''access-control-request-headers''"
definition ACR_PRIVATE_NETWORK :: header_name where
  "ACR_PRIVATE_NETWORK = ''access-control-request-private-network''"
definition ACA_PRIVATE_NETWORK :: header_name where
  "ACA_PRIVATE_NETWORK = ''access-control-allow-private-network''"

lemmas cors_names =
  ORIGIN_def VARY_def ACAO_def ACAC_def ACAM_def ACAH_def ACEH_def ACMA_def ACRM_def ACRH_def
  ACR_PRIVATE_NETWORK_def ACA_PRIVATE_NETWORK_def

subsection \<open>The policy\<close>

type_synonym origin_set = "string set"

datatype policy_mode = Wildcard | Reflect "origin_set option" | Explicit origin_set

record cors_policy =
  cp_mode :: policy_mode
  cp_allowed_methods :: "header_value option"
  cp_allowed_headers :: "header_value option"
  cp_exposed_headers :: "header_value option"
  cp_max_age_value :: "header_value option"
  cp_allow_credentials :: bool
  cp_allow_private_network :: bool

definition to_origin_set :: "string list \<Rightarrow> origin_set" where
  "to_origin_set values = set values"

definition encode_token_list :: "'h header_lib \<Rightarrow> string list \<Rightarrow> header_value option" where
  "encode_token_list H values =
     (if values = [] then None else hv_from_str H (join '', '' values))"

definition encode_max_age :: "'h header_lib \<Rightarrow> duration \<Rightarrow> header_value option" where
  "encode_max_age H d = hv_from_str H (show_nat (as_secs d))"

definition compile_mode :: "cors_config \<Rightarrow> policy_mode" where
  "compile_mode cfg =
     (case cc_policy cfg of
        WildcardKind \<Rightarrow> Wildcard
      | ReflectKind \<Rightarrow>
          (if cc_origins cfg \<noteq> [] then Reflect (Some (to_origin_set (cc_origins cfg)))
           else if cc_allow_any_origin cfg then Reflect None
           else Reflect (Some (to_origin_set [])))
      | ExplicitKind \<Rightarrow> Explicit (to_origin_set (cc_origins cfg)))"

definition cors_from_config :: "'h header_lib \<Rightarrow> cors_config \<Rightarrow> cors_policy" where
  "cors_from_config H cfg =
     \<lparr>cp_mode = compile_mode cfg,
      cp_allowed_methods = encode_token_list H (cc_allowed_methods cfg),
      cp_allowed_headers = encode_token_list H (cc_allowed_headers cfg),
      cp_exposed_headers = encode_token_list H (cc_exposed_headers cfg),
      cp_max_age_value = encode_max_age H (cc_max_age cfg),
      cp_allow_credentials = cc_allow_credentials cfg,
      cp_allow_private_network = cc_allow_private_network cfg\<rparr>"

definition resolve_allow_origin ::
  "'h header_lib \<Rightarrow> cors_policy \<Rightarrow> header_value option \<Rightarrow> header_value option" where
  "resolve_allow_origin H p request_origin =
     (case cp_mode p of
        Wildcard \<Rightarrow>
          (if cp_allow_credentials p then
             do { value \<leftarrow> request_origin; s \<leftarrow> hv_to_str H value; hv_from_str H s }
           else Some ''*'')
      | Reflect allow \<Rightarrow>
          do { value \<leftarrow> request_origin;
               origin \<leftarrow> hv_to_str H value;
               (case allow of
                  Some S \<Rightarrow> if origin \<in> S then hv_from_str H origin else None
                | None \<Rightarrow> hv_from_str H origin) }
      | Explicit S \<Rightarrow>
          do { value \<leftarrow> request_origin;
               origin \<leftarrow> hv_to_str H value;
               if origin \<in> S then hv_from_str H origin else None })"

subsection \<open>Stamping headers\<close>

definition vary_lists :: "string \<Rightarrow> string \<Rightarrow> bool" where
  "vary_lists value existing \<longleftrightarrow>
     list_ex (\<lambda>s. eq_ignore_case (trim s) value) (split_on CHR '','' existing)"

definition append_vary :: "'h header_lib \<Rightarrow> string \<Rightarrow> 'h \<Rightarrow> 'h" where
  "append_vary H value headers =
     (case hm_get H headers VARY of
        Some existing \<Rightarrow>
          (case hv_to_str H existing of
             None \<Rightarrow> headers
           | Some existing \<Rightarrow>
               if vary_lists value existing then headers
               else (case hv_from_str H (existing @ '', '' @ value) of
                       Some hv \<Rightarrow> hm_insert H headers VARY hv
                     | None \<Rightarrow> headers))
      | None \<Rightarrow> hm_insert H headers VARY value)"

definition apply_cors_base :: "'h header_lib \<Rightarrow> cors_policy \<Rightarrow> 'h \<Rightarrow> 'h \<Rightarrow> 'h" where
  "apply_cors_base H p request_headers response_headers =
     (case resolve_allow_origin H p (hm_get H request_headers ORIGIN) of
        None \<Rightarrow> append_vary H ''origin'' response_headers
      | Some allow_origin \<Rightarrow>
          (let h = hm_insert H response_headers ACAO allow_origin;
               h = (if cp_allow_credentials p then hm_insert H h ACAC ''true'' else h)
           in append_vary H ''origin'' h))"

definition insert_option :: "'h header_lib \<Rightarrow> header_name \<Rightarrow> header_value option \<Rightarrow> 'h \<Rightarrow> 'h" where
  "insert_option H n v h = (case v of Some x \<Rightarrow> hm_insert H h n x | None \<Rightarrow> h)"

definition configured_or_echo ::
  "'h header_lib \<Rightarrow> header_value option \<Rightarrow> 'h \<Rightarrow> header_name \<Rightarrow> header_value option" where
  "configured_or_echo H configured request_headers n =
     (case configured of
        Some value \<Rightarrow> Some value
      | None \<Rightarrow> Option.bind (hm_get H request_headers n) (hv_from_bytes H))"

definition build_preflight_response :: "'h header_lib \<Rightarrow> 'h request \<Rightarrow> cors_policy \<Rightarrow> 'h response" where
  "build_preflight_response H req p =
     (let rq = rq_headers req;
          h = apply_cors_base H p rq (hm_new H);
          h = insert_option H ACAM (configured_or_echo H (cp_allowed_methods p) rq ACRM) h;
          h = insert_option H ACAH (configured_or_echo H (cp_allowed_headers p) rq ACRH) h;
          h = insert_option H ACMA (cp_max_age_value p) h;
          h = (if cp_allow_private_network p \<and> hm_get H rq ACR_PRIVATE_NETWORK \<noteq> None
               then hm_insert H h ACA_PRIVATE_NETWORK ''true'' else h);
          h = append_vary H ''access-control-request-method'' h;
          h = append_vary H ''access-control-request-headers'' h
      in \<lparr>rs_status = 204, rs_headers = h, rs_body = []\<rparr>)"

definition apply_to_response ::
  "'h header_lib \<Rightarrow> 'h response \<Rightarrow> 'h \<Rightarrow> cors_policy \<Rightarrow> 'h response" where
  "apply_to_response H response request_headers p =
     response\<lparr>rs_headers :=
       insert_option H ACEH (cp_exposed_headers p)
         (apply_cors_base H p request_headers (rs_headers response))\<rparr>"

definition apply_to_error_response ::
  "'h header_lib \<Rightarrow> 'h response \<Rightarrow> 'h \<Rightarrow> cors_policy \<Rightarrow> 'h response" where
  "apply_to_error_response H response request_headers p =
     apply_to_response H response request_headers p"

definition is_preflight :: "'h header_lib \<Rightarrow> 'h request \<Rightarrow> bool" where
  "is_preflight H req \<longleftrightarrow>
     rq_method req = ''OPTIONS'' \<and> hm_contains H (rq_headers req) ORIGIN \<and>
     hm_contains H (rq_headers req) ACRM"

subsection \<open>Lemmas on the \<open>Vary\<close> list\<close>

definition vary_token :: "string \<Rightarrow> bool" where
  "vary_token v \<longleftrightarrow> CHR '','' \<notin> set v \<and> trim (CHR '' '' # v) = v \<and> trim v = v \<and> visible v"

lemma vary_tokens [simp]:
  "vary_token ''origin''"
  "vary_token ''access-control-request-method''"
  "vary_token ''access-control-request-headers''"
  by (simp_all add: vary_token_def str_simps)

lemma vary_lists_appended:
  "vary_token v \<Longrightarrow> vary_lists w (existing @ '', '' @ v) \<longleftrightarrow> vary_lists w existing \<or> vary_lists w v"
  by (simp add: vary_lists_def vary_token_def split_on_append_sep split_on_single)

lemma vary_lists_self: "vary_token v \<Longrightarrow> vary_lists v v"
  by (simp add: vary_lists_def vary_token_def split_on_single)

lemma preflight_vary_tokens:
  "\<not> vary_lists ''access-control-request-method'' ''origin''"
  "\<not> vary_lists ''access-control-request-headers'' ''origin, access-control-request-method''"
  by code_simp+

lemma visible_comma [simp]: "visible_byte CHR '',''" "visible_byte CHR '' ''"
  by (simp_all add: visible_byte_def)

lemma preflight_names [simp]:
  "ACAM \<noteq> VARY" "ACAH \<noteq> VARY" "ACMA \<noteq> VARY" "ACA_PRIVATE_NETWORK \<noteq> VARY"
  "ACAM \<noteq> ACAO" "ACAH \<noteq> ACAO" "ACMA \<noteq> ACAO" "ACA_PRIVATE_NETWORK \<noteq> ACAO"
  "ACAM \<noteq> ACAC" "ACAH \<noteq> ACAC" "ACMA \<noteq> ACAC" "ACA_PRIVATE_NETWORK \<noteq> ACAC"
  "ACAM \<noteq> ACAH" "ACAM \<noteq> ACMA" "ACAH \<noteq> ACMA" "ACAM \<noteq> ACA_PRIVATE_NETWORK"
  "ACAH \<noteq> ACA_PRIVATE_NETWORK" "ACMA \<noteq> ACA_PRIVATE_NETWORK"
  "ACAO \<noteq> ACAM" "ACAO \<noteq> ACAH" "ACAO \<noteq> ACMA" "ACAO \<noteq> ACA_PRIVATE_NETWORK"
  "ACAC \<noteq> ACAM" "ACAC \<noteq> ACAH" "ACAC \<noteq> ACMA" "ACAC \<noteq> ACA_PRIVATE_NETWORK"
  "ACAH \<noteq> ACAM" "ACMA \<noteq> ACAM" "ACMA \<noteq> ACAH" "ACA_PRIVATE_NETWORK \<noteq> ACAM"
  "ACA_PRIVATE_NETWORK \<noteq> ACAH" "ACA_PRIVATE_NETWORK \<noteq> ACMA"
  by (simp_all add: cors_names)

lemma cors_names_distinct [simp]:
  "ACEH \<noteq> VARY" "ACAO \<noteq> VARY" "ACAC \<noteq> VARY" "ACAO \<noteq> ACAC" "ACAO \<noteq> ACEH" "ACAC \<noteq> ACEH"
  "VARY \<noteq> ACEH" "VARY \<noteq> ACAO" "VARY \<noteq> ACAC" "ACAC \<noteq> ACAO" "ACEH \<noteq> ACAO" "ACEH \<noteq> ACAC"
  by (simp_all add: cors_names)

subsection \<open>What the stamped headers answer\<close>

text \<open>The origins a policy admits: the specification \<open>resolve_allow_origin\<close> is measured against.\<close>

definition admits_origin :: "cors_policy \<Rightarrow> header_value option \<Rightarrow> header_value \<Rightarrow> bool" where
  "admits_origin p request_origin answer \<longleftrightarrow>
     (if cp_mode p = Wildcard \<and> \<not> cp_allow_credentials p then answer = ''*''
      else request_origin = Some answer \<and> visible answer \<and>
        (case cp_mode p of
           Wildcard \<Rightarrow> True
         | Reflect None \<Rightarrow> True
         | Reflect (Some S) \<Rightarrow> answer \<in> S
         | Explicit S \<Rightarrow> answer \<in> S))"

text \<open>
  What a cache reads of the \<open>Vary\<close> lines: the tokens of all of them (\<open>varies_on\<close>). \<open>append_vary\<close>
  reads the first line only, and its insert drops the others: \<open>stamped_vary\<close> is what it leaves.
\<close>

definition varies_on :: "string \<Rightarrow> header_value list \<Rightarrow> bool" where
  "varies_on t lines \<longleftrightarrow> list_ex (\<lambda>l. visible l \<and> vary_lists t l) lines"

definition stamped_vary :: "string \<Rightarrow> header_value list \<Rightarrow> header_value list" where
  "stamped_vary t lines =
     (case lines of
        [] \<Rightarrow> [t]
      | first # further \<Rightarrow>
          if visible first \<and> \<not> vary_lists t first then [first @ '', '' @ t] else first # further)"

lemma varies_on_stamped:
  assumes "vary_token t"
  shows "varies_on w (stamped_vary t lines) \<longleftrightarrow>
    (case lines of
       [] \<Rightarrow> vary_lists w t
     | first # further \<Rightarrow>
         if visible first \<and> \<not> vary_lists t first then vary_lists w first \<or> vary_lists w t
         else varies_on w lines)"
  using assms vary_lists_appended [OF assms, of w]
  by (auto simp: stamped_vary_def varies_on_def vary_token_def split: list.split)

lemma stamped_vary_idem: "vary_token t \<Longrightarrow> stamped_vary t (stamped_vary t lines) = stamped_vary t lines"
  using vary_lists_appended [of t t] vary_lists_self [of t]
  by (auto simp: stamped_vary_def split: list.split)

context header_map begin

lemma echo_origin: "Option.bind (hv_to_str H v) (hv_from_str H) = (if visible v then Some v else None)"
  by (simp add: to_str_visible from_str_visible)

lemma resolve_iff: "resolve_allow_origin H p org = Some a \<longleftrightarrow> admits_origin p org a"
  by (cases org; cases "cp_mode p")
     (auto simp: resolve_allow_origin_def admits_origin_def to_str_visible from_str_visible
       split: if_splits option.splits)

lemma get_all_append_vary:
  assumes "vary_token t"
  shows "hm_get_all H (append_vary H t h) n =
    (if n = VARY then stamped_vary t (hm_get_all H h VARY) else hm_get_all H h n)"
proof (cases "hm_get_all H h VARY")
  case Nil
  then show ?thesis by (simp add: append_vary_def get_first get_all_insert stamped_vary_def)
next
  case (Cons first further)
  have "visible first \<Longrightarrow> hv_from_str H (first @ '', '' @ t) = Some (first @ '', '' @ t)"
    using assms by (intro from_str_visible) (simp add: vary_token_def)
  with Cons show ?thesis
    by (simp add: append_vary_def get_first get_all_insert stamped_vary_def to_str_visible)
qed

lemma get_all_insert_option:
  "hm_get_all H (insert_option H n v h) m =
     (if m = n \<and> v \<noteq> None then [the v] else hm_get_all H h m)"
  by (cases v) (auto simp: insert_option_def get_all_insert)

lemma get_all_cors_base:
  "hm_get_all H (apply_cors_base H p rq h) n =
    (if n = VARY then stamped_vary ''origin'' (hm_get_all H h VARY)
     else case resolve_allow_origin H p (hm_get H rq ORIGIN) of
       None \<Rightarrow> hm_get_all H h n
     | Some a \<Rightarrow>
         if n = ACAO then [a]
         else if n = ACAC \<and> cp_allow_credentials p then [''true'']
         else hm_get_all H h n)"
  by (auto simp: apply_cors_base_def get_all_append_vary get_all_insert Let_def split: option.splits)

lemma get_all_response:
  "hm_get_all H (rs_headers (apply_to_response H r rq p)) n =
    (if n = VARY then stamped_vary ''origin'' (hm_get_all H (rs_headers r) VARY)
     else if n = ACEH then case_option (hm_get_all H (rs_headers r) n) (\<lambda>v. [v]) (cp_exposed_headers p)
     else case resolve_allow_origin H p (hm_get H rq ORIGIN) of
       None \<Rightarrow> hm_get_all H (rs_headers r) n
     | Some a \<Rightarrow>
         if n = ACAO then [a]
         else if n = ACAC \<and> cp_allow_credentials p then [''true'']
         else hm_get_all H (rs_headers r) n)"
  by (auto simp: apply_to_response_def get_all_insert_option get_all_cors_base split: option.splits)

lemma apply_to_response_idem:
  "hm_get_all H (rs_headers (apply_to_response H (apply_to_response H r rq p) rq p)) n =
    hm_get_all H (rs_headers (apply_to_response H r rq p)) n"
  by (auto simp: get_all_response stamped_vary_idem split: option.splits)

end

context header_map begin

text \<open>The header block of a preflight before its two closing \<open>Vary\<close> tokens.\<close>

definition preflight_base :: "cors_policy \<Rightarrow> 'h request \<Rightarrow> 'h" where
  "preflight_base p req =
     (let rq = rq_headers req;
          h = apply_cors_base H p rq (hm_new H);
          h = insert_option H ACAM (configured_or_echo H (cp_allowed_methods p) rq ACRM) h;
          h = insert_option H ACAH (configured_or_echo H (cp_allowed_headers p) rq ACRH) h;
          h = insert_option H ACMA (cp_max_age_value p) h
      in if cp_allow_private_network p \<and> hm_get H rq ACR_PRIVATE_NETWORK \<noteq> None
         then hm_insert H h ACA_PRIVATE_NETWORK ''true'' else h)"

lemma preflight_headers:
  "rs_headers (build_preflight_response H req p) =
     append_vary H ''access-control-request-headers''
       (append_vary H ''access-control-request-method'' (preflight_base p req))"
  by (simp add: build_preflight_response_def preflight_base_def Let_def)

lemma get_all_preflight_base:
  "hm_get_all H (preflight_base p req) n =
    (let rq = rq_headers req; base = hm_get_all H (apply_cors_base H p rq (hm_new H)) n
     in if n = ACAM then case_option [] (\<lambda>v. [v]) (configured_or_echo H (cp_allowed_methods p) rq ACRM)
        else if n = ACAH then case_option [] (\<lambda>v. [v]) (configured_or_echo H (cp_allowed_headers p) rq ACRH)
        else if n = ACMA then case_option [] (\<lambda>v. [v]) (cp_max_age_value p)
        else if n = ACA_PRIVATE_NETWORK then
          (if cp_allow_private_network p \<and> hm_contains H rq ACR_PRIVATE_NETWORK then [''true''] else [])
        else base)"
proof (cases "n \<in> {ACAM, ACAH, ACMA, ACA_PRIVATE_NETWORK}")
  case True
  then have base: "hm_get_all H (apply_cors_base H p (rq_headers req) (hm_new H)) n = []"
    by (auto simp: get_all_cors_base get_all_new split: option.split)
  from True consider "n = ACAM" | "n = ACAH" | "n = ACMA" | "n = ACA_PRIVATE_NETWORK" by blast
  then show ?thesis
    by cases (use base in \<open>simp_all add: preflight_base_def Let_def get_all_insert_option
        get_all_insert contains_get split: option.split\<close>)
next
  case False
  then show ?thesis
    by (simp add: preflight_base_def Let_def get_all_insert_option get_all_insert)
qed

lemma get_all_preflight:
  "hm_get_all H (rs_headers (build_preflight_response H req p)) n =
    (if n = VARY then [''origin, access-control-request-method, access-control-request-headers'']
     else hm_get_all H (preflight_base p req) n)"
proof -
  have "hm_get_all H (preflight_base p req) VARY = [''origin'']"
    by (simp add: get_all_preflight_base get_all_cors_base get_all_new stamped_vary_def Let_def
        preflight_names(1-4) [symmetric])
  then show ?thesis
    by (simp add: preflight_headers get_all_append_vary stamped_vary_def preflight_vary_tokens str_simps)
qed

end

subsection \<open>Properties\<close>

text \<open>
  The origin decision is the documented one: \<open>*\<close> is answered only by a wildcard policy without
  credentials; every other answer is the request's own \<open>Origin\<close>, readable text, and admitted by
  the mode (a reflect list, any origin, or the explicit list); otherwise there is no answer.
\<close>

theorem resolve_allow_origin_iff:
  assumes "header_map H"
  shows "resolve_allow_origin H p request_origin = Some a \<longleftrightarrow> admits_origin p request_origin a"
  by (rule header_map.resolve_iff [OF assms])

lemma resolve_allow_origin_iff_witness:
  "resolve_allow_origin list_headers
     (cors_from_config list_headers (default_cors_config\<lparr>cc_origins := [''https://app'']\<rparr>))
     (Some ''https://app'') = Some ''https://app''"
  by (subst resolve_allow_origin_iff [OF list_hdrs.header_map_axioms])
     (simp add: admits_origin_def cors_from_config_def compile_mode_def to_origin_set_def
       default_cors_config_def str_simps)

text \<open>
  C38. Every header of a stamped response. When the policy admits the request's origin the response
  carries exactly that \<open>Access-Control-Allow-Origin\<close>, and \<open>Access-Control-Allow-Credentials\<close> when the
  policy allows them; without that switch, or when the origin is not admitted, the lines the
  upstream sent stay as they are, \<open>Access-Control-Allow-Credentials\<close> behind the proxy's own origin
  included. A configured expose list replaces the upstream's; \<open>Vary\<close> is the first line with \<open>origin\<close>
  added where it was text without it; every other header, the status and the body are untouched.
\<close>

theorem apply_to_response_headers:
  assumes "header_map H"
  shows
    "let r' = apply_to_response H r rq p;
         before = hm_get_all H (rs_headers r);
         decision = resolve_allow_origin H p (hm_get H rq ORIGIN)
     in rs_status r' = rs_status r \<and> rs_body r' = rs_body r \<and>
        hm_get_all H (rs_headers r') n =
          (if n = ACAO \<and> decision \<noteq> None then [the decision]
           else if n = ACAC \<and> decision \<noteq> None \<and> cp_allow_credentials p then [''true'']
           else if n = ACEH \<and> cp_exposed_headers p \<noteq> None then [the (cp_exposed_headers p)]
           else if n = VARY then
             (case before VARY of
                [] \<Rightarrow> [''origin'']
              | first # further \<Rightarrow>
                  if visible first \<and> \<not> vary_lists ''origin'' first then [first @ '', origin'']
                  else first # further)
           else before n)"
  unfolding Let_def header_map.get_all_response [OF assms]
  by (auto simp: stamped_vary_def apply_to_response_def split: option.split list.split)

lemma apply_to_response_headers_witness:
  "hm_get_all list_headers
     (rs_headers (apply_to_response list_headers
        \<lparr>rs_status = 200, rs_headers = [(ACAO, ''https://up''), (ACAC, ''true'')], rs_body = []\<rparr>
        [(ORIGIN, ''https://app'')]
        (cors_from_config list_headers (default_cors_config\<lparr>cc_origins := [''https://app'']\<rparr>)))) ACAO =
      [''https://app'']"
  using apply_to_response_headers [OF list_hdrs.header_map_axioms, of
      "\<lparr>rs_status = 200, rs_headers = [(ACAO, ''https://up''), (ACAC, ''true'')], rs_body = []\<rparr>"
      "[(ORIGIN, ''https://app'')]"
      "cors_from_config list_headers (default_cors_config\<lparr>cc_origins := [''https://app'']\<rparr>)" ACAO]
  by (simp add: Let_def cors_names list_headers_eval resolve_allow_origin_def cors_from_config_def
      compile_mode_def to_origin_set_def default_cors_config_def)

text \<open>An upstream's grant of credentials survives a policy that allows none, for an admitted origin.\<close>

lemma upstream_credentials_survive:
  assumes "header_map H" "resolve_allow_origin H p (hm_get H rq ORIGIN) = Some a" "\<not> cp_allow_credentials p"
  shows "hm_get_all H (rs_headers (apply_to_response H r rq p)) ACAO = [a] \<and>
    hm_get_all H (rs_headers (apply_to_response H r rq p)) ACAC = hm_get_all H (rs_headers r) ACAC"
  using assms(2,3) by (simp add: header_map.get_all_response [OF assms(1)])

text \<open>
  C39. The \<open>Vary\<close> tokens of a stamped response, over all its lines. When its first line is text, or
  there is none, it varies on the request's origin whatever the decision was. Exactly the tokens of
  the upstream's lines and \<open>origin\<close> are listed, except that the tokens of a second or later line are
  lost when the first is text that does not list \<open>origin\<close>: with a single line nothing is lost.
  Stamping again changes no header, which lets the layer run over responses that are stamped already.
\<close>

theorem apply_to_response_vary:
  assumes "header_map H"
  shows
    "let r' = apply_to_response H r rq p; r'' = apply_to_response H r' rq p;
         lines = hm_get_all H (rs_headers r) VARY; lines' = hm_get_all H (rs_headers r') VARY;
         readable = (lines = [] \<or> visible (hd lines))
     in (readable \<longrightarrow> varies_on ''origin'' lines') \<and>
        (length lines \<le> 1 \<or> varies_on ''origin'' [hd lines] \<or> \<not> readable \<longrightarrow>
           (varies_on t lines' \<longleftrightarrow> varies_on t lines \<or> readable \<and> vary_lists t ''origin'')) \<and>
        (1 < length lines \<and> \<not> varies_on ''origin'' [hd lines] \<and> readable \<longrightarrow>
           (varies_on t lines' \<longleftrightarrow> varies_on t [hd lines] \<or> vary_lists t ''origin'')) \<and>
        hm_get_all H (rs_headers r'') n = hm_get_all H (rs_headers r') n"
proof -
  let ?lines = "hm_get_all H (rs_headers r) VARY"
  have "trim ''origin'' = ''origin''" using vary_tokens(1) by (simp add: vary_token_def)
  then have listed: "vary_lists t ''origin'' \<Longrightarrow> vary_lists ''origin'' l \<Longrightarrow> vary_lists t l" for l
    by (auto simp: vary_lists_def split_on_single eq_ignore_case_def list_ex_iff)
  note now = header_map.get_all_response [OF assms, where n = VARY, simplified]
    header_map.apply_to_response_idem [OF assms]
  show ?thesis
  proof (cases ?lines)
    case Nil
    then show ?thesis
      by (simp add: Let_def now stamped_vary_def varies_on_def vary_lists_self visible_byte_def)
  next
    case (Cons first further)
    then show ?thesis
      using listed [of first] varies_on_stamped [of "''origin''" t ?lines]
        varies_on_stamped [of "''origin''" "''origin''" ?lines] vary_lists_self [of "''origin''"]
      by (cases "visible first"; cases "vary_lists ''origin'' first"; cases further)
         (auto simp: Let_def now varies_on_def)
  qed
qed

lemma apply_to_response_vary_witness:
  "varies_on ''origin'' (hm_get_all list_headers
     (rs_headers (apply_to_response list_headers
        \<lparr>rs_status = 200, rs_headers = [(VARY, ''accept'')], rs_body = []\<rparr> []
        (cors_from_config list_headers default_cors_config))) VARY)"
  using apply_to_response_vary [OF list_hdrs.header_map_axioms, of
      "\<lparr>rs_status = 200, rs_headers = [(VARY, ''accept'')], rs_body = []\<rparr>" "[]"
      "cors_from_config list_headers default_cors_config" "''origin''"]
  by (simp add: Let_def list_headers_eval)

lemma accept_varies: "\<not> vary_lists ''origin'' ''accept''"
  by code_simp

lemma further_vary_lines_lost:
  "hm_get_all list_headers
     (rs_headers (apply_to_response list_headers
        \<lparr>rs_status = 200, rs_headers = [(VARY, ''accept''), (VARY, ''cookie'')], rs_body = []\<rparr> [] p)) VARY =
   [''accept, origin'']"
  unfolding list_hdrs.get_all_response by (simp add: stamped_vary_def list_headers_eval accept_varies)

text \<open>
  A preflight answer is a 204 whose origin header is the policy's decision, whose methods and
  headers are the configured lists or else the request's own values, whose Private Network Access
  grant needs both the configuration and the request to ask for it, and which varies on the
  origin, the requested method and the requested headers, in one line.
\<close>

theorem build_preflight_response_headers:
  assumes "header_map H"
  shows
    "let r = build_preflight_response H req p; rq = rq_headers req;
         now = hm_get_all H (rs_headers r);
         decision = resolve_allow_origin H p (hm_get H rq ORIGIN)
     in rs_status r = 204 \<and> rs_body r = [] \<and>
        now ACAO = case_option [] (\<lambda>a. [a]) decision \<and>
        now ACAC = (if decision \<noteq> None \<and> cp_allow_credentials p then [''true''] else []) \<and>
        now ACAM = case_option [] (\<lambda>v. [v]) (configured_or_echo H (cp_allowed_methods p) rq ACRM) \<and>
        now ACAH = case_option [] (\<lambda>v. [v]) (configured_or_echo H (cp_allowed_headers p) rq ACRH) \<and>
        now ACMA = case_option [] (\<lambda>v. [v]) (cp_max_age_value p) \<and>
        now ACA_PRIVATE_NETWORK =
          (if cp_allow_private_network p \<and> hm_contains H rq ACR_PRIVATE_NETWORK
           then [''true''] else []) \<and>
        now VARY = [''origin, access-control-request-method, access-control-request-headers'']"
proof -
  note hm = header_map.get_all_preflight [OF assms] header_map.get_all_preflight_base [OF assms]
    header_map.get_all_cors_base [OF assms] header_map.get_all_new [OF assms]
  have "rs_status (build_preflight_response H req p) = 204"
    "rs_body (build_preflight_response H req p) = []"
    by (simp_all add: build_preflight_response_def Let_def)
  then show ?thesis
    by (simp add: Let_def hm split: option.split)
qed

lemma build_preflight_response_headers_witness:
  "hm_get_all list_headers
     (rs_headers (build_preflight_response list_headers
        \<lparr>rq_method = ''OPTIONS'',
          rq_uri = \<lparr>u_scheme = None, u_authority = None, u_host = None, u_path = ''/'', u_query = None\<rparr>,
          rq_headers = [(ORIGIN, ''https://app''), (ACRM, ''PUT'')], rq_body = []\<rparr>
        (cors_from_config list_headers (default_cors_config\<lparr>cc_allowed_methods := []\<rparr>)))) ACAM =
      [''PUT'']"
proof -
  let ?req = "\<lparr>rq_method = ''OPTIONS'',
      rq_uri = \<lparr>u_scheme = None, u_authority = None, u_host = None, u_path = ''/'', u_query = None\<rparr>,
      rq_headers = [(ORIGIN, ''https://app''), (ACRM, ''PUT'')], rq_body = []\<rparr>"
  let ?p = "cors_from_config list_headers (default_cors_config\<lparr>cc_allowed_methods := []\<rparr>)"
  have "configured_or_echo list_headers (cp_allowed_methods ?p) (rq_headers ?req) ACRM = Some ''PUT''"
    by (simp add: configured_or_echo_def cors_from_config_def encode_token_list_def cors_names
        list_headers_eval)
  with build_preflight_response_headers [OF list_hdrs.header_map_axioms, of ?req ?p] show ?thesis
    by (simp add: Let_def)
qed

end
