(* ===== verification/Header_Filter.thy ===== *)
theory Header_Filter
  imports Http_Lib
begin

text \<open>
  \<open>corx-core/src/proxy/headers.rs\<close>: the filter that strips hop-by-hop, \<open>Connection\<close>-listed and
  operator-denied headers from requests and responses.
\<close>

subsection \<open>The filter\<close>

definition CONNECTION :: header_name where "CONNECTION = ''connection''"

definition HOP_BY_HOP :: "header_name list" where
  "HOP_BY_HOP =
     [''connection'', ''keep-alive'', ''proxy-authenticate'', ''proxy-authorization'', ''te'',
      ''trailer'', ''transfer-encoding'', ''upgrade'', ''proxy-connection'']"

record header_filter =
  hf_extra_deny :: "header_name list"

fun parse_names :: "'h header_lib \<Rightarrow> string list \<Rightarrow> string + header_name list" where
  "parse_names H [] = Inr []"
| "parse_names H (raw # rest) =
     (case hn_from_str H raw of
        None \<Rightarrow> Inl (''invalid header name `'' @ raw @ ''`: '' @ hn_error H)
      | Some name \<Rightarrow> bind_res (parse_names H rest) (\<lambda>names. Inr (name # names)))"

definition header_filter_try_new :: "'h header_lib \<Rightarrow> string list \<Rightarrow> string + header_filter" where
  "header_filter_try_new H extra_deny =
     bind_res (parse_names H extra_deny) (\<lambda>names. Inr \<lparr>hf_extra_deny = names\<rparr>)"

definition header_filter_new :: "'h header_lib \<Rightarrow> string list \<Rightarrow> header_filter" where
  "header_filter_new H extra_deny =
     (case header_filter_try_new H extra_deny of
        Inl _ \<Rightarrow> \<lparr>hf_extra_deny = []\<rparr>
      | Inr f \<Rightarrow> f)"

definition connection_listed :: "'h header_lib \<Rightarrow> 'h \<Rightarrow> header_name list" where
  "connection_listed H headers =
     (case hm_get H headers CONNECTION of
        None \<Rightarrow> []
      | Some connection \<Rightarrow>
          (case hv_to_str H connection of
             None \<Rightarrow> []
           | Some value \<Rightarrow>
               List.map_filter (hn_from_str H)
                 (filter (\<lambda>token. token \<noteq> []) (map trim (split_on CHR '','' value)))))"

definition strip_connection_listed :: "'h header_lib \<Rightarrow> 'h \<Rightarrow> 'h" where
  "strip_connection_listed H headers =
     fold (\<lambda>n h. hm_remove H h n) (connection_listed H headers) headers"

definition header_filter_apply :: "'h header_lib \<Rightarrow> header_filter \<Rightarrow> 'h \<Rightarrow> 'h" where
  "header_filter_apply H f headers =
     (let h = strip_connection_listed H headers;
          h = fold (\<lambda>n h. hm_remove H h n) HOP_BY_HOP h
      in fold (\<lambda>n h. hm_remove H h n) (hf_extra_deny f) h)"

subsection \<open>What the filter removes\<close>

lemma parse_names_Inr_iff:
  "parse_names H raws = Inr ns \<longleftrightarrow> map (hn_from_str H) raws = map Some ns"
  by (induction raws arbitrary: ns) (auto simp: bind_res_eq_Inr Cons_eq_map_conv split: option.splits)

lemma parse_names_Inl_iff:
  "(\<exists>e. parse_names H raws = Inl e) \<longleftrightarrow> (\<exists>raw \<in> set raws. hn_from_str H raw = None)"
  by (induction raws) (auto simp: bind_res_eq_Inl split: option.splits)

definition filtered_names :: "'h header_lib \<Rightarrow> header_filter \<Rightarrow> 'h \<Rightarrow> header_name set" where
  "filtered_names H f headers =
     set HOP_BY_HOP \<union> set (hf_extra_deny f) \<union> set (connection_listed H headers)"

context header_map begin

lemma get_all_filter_apply:
  "hm_get_all H (header_filter_apply H f h) n =
     (if n \<in> filtered_names H f h then [] else hm_get_all H h n)"
  by (simp add: header_filter_apply_def strip_connection_listed_def get_all_fold_remove
      filtered_names_def)

lemma connection_gone: "hm_get H (header_filter_apply H f h) CONNECTION = None"
  by (simp add: get_first get_all_filter_apply filtered_names_def HOP_BY_HOP_def CONNECTION_def)

lemma filter_apply_idem:
  "hm_get_all H (header_filter_apply H f (header_filter_apply H f h)) n =
     hm_get_all H (header_filter_apply H f h) n"
proof -
  have "connection_listed H (header_filter_apply H f h) = []"
    by (simp add: connection_listed_def connection_gone)
  then show ?thesis
    by (auto simp: get_all_filter_apply [of f "header_filter_apply H f h"]
        get_all_filter_apply [of f h] filtered_names_def)
qed

end

subsection \<open>Properties\<close>

text \<open>
  The filter removes exactly the hop-by-hop names, the operator's names and the names the
  \<open>Connection\<close> header lists (every value of each), leaves every other header with all its values,
  and a second pass removes nothing more.
\<close>

theorem header_filter_apply_removes:
  assumes "header_map H"
  shows
    "hm_get_all H (header_filter_apply H f h) n =
       (if n \<in> set HOP_BY_HOP \<union> set (hf_extra_deny f) \<union> set (connection_listed H h) then []
        else hm_get_all H h n) \<and>
     hm_get_all H (header_filter_apply H f (header_filter_apply H f h)) n =
       hm_get_all H (header_filter_apply H f h) n"
  using header_map.get_all_filter_apply [OF assms] header_map.filter_apply_idem [OF assms]
  by (simp add: filtered_names_def)

lemma header_filter_apply_removes_witness:
  "hm_get_all list_headers
     (header_filter_apply list_headers \<lparr>hf_extra_deny = [''cookie'']\<rparr>
        [(''connection'', ''close, X-Custom''), (''x-custom'', ''1''), (''x-keep'', ''yes'')])
     ''x-custom'' = []"
  by (subst header_filter_apply_removes [OF list_hdrs.header_map_axioms, THEN conjunct1])
     (simp add: connection_listed_def CONNECTION_def list_headers_eval List.map_filter_simps)

text \<open>
  Compiling the deny list is fail-closed: it fails when any configured name is not a header
  name, and a filter it returns removes every configured name from any header map.
\<close>

theorem header_filter_try_new_fail_closed:
  assumes "header_map H"
  shows
    "case header_filter_try_new H raws of
       Inl e \<Rightarrow> list_ex (\<lambda>raw. hn_from_str H raw = None) raws
     | Inr f \<Rightarrow> list_all (\<lambda>raw. hn_from_str H raw = Some (to_lower raw) \<and>
                 hm_get_all H (header_filter_apply H f h) (to_lower raw) = []) raws"
proof (cases "parse_names H raws")
  case (Inl e)
  then show ?thesis
    using parse_names_Inl_iff [of H raws] by (simp add: header_filter_try_new_def list_ex_iff)
next
  case (Inr ns)
  then have names: "map (hn_from_str H) raws = map Some ns"
    by (simp add: parse_names_Inr_iff)
  have "hn_from_str H raw = Some (to_lower raw) \<and> to_lower raw \<in> set ns" if "raw \<in> set raws" for raw
  proof -
    from that names have "hn_from_str H raw \<in> Some ` set ns"
      by (metis image_eqI image_set list.set_map)
    then show ?thesis using header_map.name_from_str_lower [OF assms] by auto
  qed
  then show ?thesis
    by (simp add: Inr header_filter_try_new_def list_all_iff filtered_names_def
        header_map.get_all_filter_apply [OF assms])
qed

lemma header_filter_try_new_fail_closed_witness:
  "\<exists>e. header_filter_try_new list_headers [''cookie'', ''bad name''] = Inl e"
proof -
  have "hn_from_str list_headers ''bad name'' = None"
    by (simp add: list_headers_def is_token_def token_bytes_def)
  with header_filter_try_new_fail_closed
      [OF list_hdrs.header_map_axioms, of "[''cookie'', ''bad name'']" "[]"]
  show ?thesis by (auto split: sum.splits)
qed

end
