(* ===== verification/Url_Parser.thy ===== *)
theory Url_Parser
  imports Http_Lib
begin

text \<open>
  \<open>corx-core/src/proxy/url_parser.rs\<close>: how the target URL is read off the request, validated, and
  turned back into the URI of the outbound request. The crates \<open>url\<close>, \<open>percent-encoding\<close>, \<open>idna\<close>
  and the URI half of \<open>http\<close> are the parameter \<open>U\<close>, a record of their functions on an abstract
  parsed URL \<open>'u\<close>; the locale \<open>url_api\<close> states the documented laws the proofs use.
\<close>

subsection \<open>The URL crates\<close>

record 'u url_lib =
  url_parse :: "string \<Rightarrow> string + 'u"
  url_join :: "'u \<Rightarrow> string \<Rightarrow> string + 'u"
  url_as_str :: "'u \<Rightarrow> string"
  url_scheme :: "'u \<Rightarrow> string"
  url_username :: "'u \<Rightarrow> string"
  url_password :: "'u \<Rightarrow> string option"
  url_fragment :: "'u \<Rightarrow> string option"
  url_host_str :: "'u \<Rightarrow> string option"
  url_set_host :: "'u \<Rightarrow> string \<Rightarrow> string + 'u"
  url_port :: "'u \<Rightarrow> 16 word option"
  url_port_or_known_default :: "'u \<Rightarrow> 16 word option"
  url_path :: "'u \<Rightarrow> string"
  url_query :: "'u \<Rightarrow> string option"
  percent_decode_utf8 :: "string \<Rightarrow> string option"
  domain_to_ascii :: "string \<Rightarrow> string + string"
  pq_try_from :: "string \<Rightarrow> string + string"
  uri_build :: "string \<Rightarrow> string \<Rightarrow> string \<Rightarrow> string + uri"
  uri_parse :: "string \<Rightarrow> string + uri"
  uri_to_string :: "uri \<Rightarrow> string"

text \<open>
  The laws: \<open>set_host\<close> changes the host and nothing else, and refuses an empty host on an HTTP URL;
  an HTTP URL always has a port, its own or the default of its scheme; text that begins with a slash
  is a URI in origin form, without a scheme; a URI built from its three parts has these parts.
\<close>

definition default_port :: "string \<Rightarrow> 16 word option" where
  "default_port s = (if s = ''http'' then Some 80 else if s = ''https'' then Some 443 else None)"

locale url_api =
  fixes U :: "'u url_lib"
  assumes set_host_rest: "url_set_host U u h = Inr u' \<Longrightarrow>
      url_scheme U u' = url_scheme U u \<and> url_username U u' = url_username U u \<and>
      url_password U u' = url_password U u \<and> url_fragment U u' = url_fragment U u \<and>
      url_port U u' = url_port U u"
    and set_host_empty: "default_port (url_scheme U u) \<noteq> None \<Longrightarrow> url_set_host U u [] \<noteq> Inr u'"
    and port_known: "default_port (url_scheme U u) = Some d \<Longrightarrow>
      url_port_or_known_default U u = Some (case url_port U u of Some p \<Rightarrow> p | None \<Rightarrow> d)"
    and uri_origin_form: "starts_with ''/'' s \<Longrightarrow> uri_parse U s = Inr uri \<Longrightarrow> u_scheme uri = None"
    and uri_build_parts: "uri_build U s a pq = Inr uri \<Longrightarrow>
      u_scheme uri = Some s \<and> u_authority uri = Some a"

subsection \<open>The target\<close>

record 'u target_url =
  tu_url :: 'u
  tu_host :: string
  tu_port :: "16 word"

definition host_with_port :: "string \<Rightarrow> 16 word option \<Rightarrow> string" where
  "host_with_port host port =
     (case port of None \<Rightarrow> host | Some p \<Rightarrow> host @ '':'' @ show_nat (unat p))"

definition to_uri :: "'u url_lib \<Rightarrow> 'u target_url \<Rightarrow> uri res" where
  "to_uri U t =
     (let path = url_path U (tu_url t);
          path_and_query =
            (case url_query U (tu_url t) of
               Some q \<Rightarrow> if q \<noteq> [] then path @ ''?'' @ q else path
             | None \<Rightarrow> path)
      in case pq_try_from U path_and_query of
           Inl err \<Rightarrow> Inl (InvalidUrl (''invalid path/query: '' @ err))
         | Inr pq \<Rightarrow>
             (case uri_build U (url_scheme U (tu_url t))
                     (host_with_port (tu_host t) (url_port U (tu_url t))) pq of
                Inl err \<Rightarrow> Inl (InvalidUrl (''uri build failed: '' @ err))
              | Inr uri \<Rightarrow> Inr uri))"

definition find_query_value :: "string \<Rightarrow> string \<Rightarrow> string option" where
  "find_query_value query key =
     find_map (\<lambda>pair. case split_once ''='' pair of
         None \<Rightarrow> None
       | Some (k, v) \<Rightarrow> if k = key then Some v else None) (split_on CHR ''&'' query)"

definition candidate_from_uri :: "uri \<Rightarrow> string res" where
  "candidate_from_uri uri =
     (case Option.bind (u_query uri) (\<lambda>query. find_query_value query ''url'') of
        Some url_value \<Rightarrow> Inr url_value
      | None \<Rightarrow>
          (let trimmed = trim_start_char CHR ''/'' (u_path uri)
           in if trimmed = [] then Inl (InvalidUrl ''no target url supplied'')
              else Inr (case u_query uri of
                          None \<Rightarrow> trimmed
                        | Some q \<Rightarrow> trimmed @ ''?'' @ q)))"

definition http_scheme :: "string \<Rightarrow> bool" where
  "http_scheme s \<longleftrightarrow> s = ''http'' \<or> s = ''https''"

definition normalize_scheme :: "string \<Rightarrow> string res" where
  "normalize_scheme raw =
     (case split_once ''://'' raw of
        Some (scheme_part, _) \<Rightarrow>
          (let scheme = to_lower scheme_part
           in if \<not> http_scheme scheme
              then Inl (InvalidUrl (''unsupported scheme `'' @ scheme @ ''`''))
              else Inr raw)
      | None \<Rightarrow>
          (let host_part = hd (split_on CHR ''/'' raw);
               scheme = (case rsplit_once CHR '':'' host_part of
                           Some (_, port) \<Rightarrow> if port = ''443'' then ''https'' else ''http''
                         | None \<Rightarrow> ''http'')
           in Inr (scheme @ ''://'' @ raw)))"

definition MAX_HOST_LEN :: nat where
  "MAX_HOST_LEN = 253"

definition install_host :: "'u url_lib \<Rightarrow> 'u \<Rightarrow> string \<Rightarrow> string \<Rightarrow> 'u res" where
  "install_host U parsed host ascii_host =
     (if ascii_host \<noteq> host then
        (case url_set_host U parsed ascii_host of
           Inl err \<Rightarrow> Inl (InvalidUrl (''cannot set host: '' @ err))
         | Inr parsed' \<Rightarrow> Inr parsed')
      else Inr parsed)"

definition validate_url :: "'u url_lib \<Rightarrow> 'u \<Rightarrow> 'u target_url res" where
  "validate_url U parsed =
     (if \<not> http_scheme (url_scheme U parsed) then
        Inl (InvalidUrl (''unsupported scheme `'' @ url_scheme U parsed @ ''`''))
      else if url_username U parsed \<noteq> [] \<or> url_password U parsed \<noteq> None then
        Inl (InvalidUrl ''embedded credentials (`user:pass@`) are not permitted'')
      else if url_fragment U parsed \<noteq> None then
        Inl (InvalidUrl ''fragment identifiers are not permitted in proxy targets'')
      else case url_host_str U parsed of
        None \<Rightarrow> Inl (InvalidUrl ''missing hostname'')
      | Some host \<Rightarrow>
          if host = [] then Inl (InvalidUrl ''empty hostname'')
          else case domain_to_ascii U host of
            Inl err \<Rightarrow> Inl (InvalidUrl (''invalid IDN host: '' @ err))
          | Inr ascii_host \<Rightarrow>
              if length ascii_host > MAX_HOST_LEN then
                Inl (InvalidUrl (''hostname exceeds '' @ show_nat MAX_HOST_LEN @
                       '' bytes after punycode encoding''))
              else bind_res (install_host U parsed host ascii_host) (\<lambda>parsed.
                case url_port_or_known_default U parsed of
                  None \<Rightarrow> Inl (InvalidUrl ''unable to determine port for scheme'')
                | Some port \<Rightarrow> Inr \<lparr>tu_url = parsed, tu_host = ascii_host, tu_port = port\<rparr>))"

definition extract_target :: "'u url_lib \<Rightarrow> uri \<Rightarrow> 'u target_url res" where
  "extract_target U uri =
     bind_res (candidate_from_uri uri) (\<lambda>candidate.
       case percent_decode_utf8 U candidate of
         None \<Rightarrow> Inl (InvalidUrl ''target contains invalid utf-8'')
       | Some decoded \<Rightarrow>
           bind_res (normalize_scheme decoded) (\<lambda>normalized.
             case url_parse U normalized of
               Inl err \<Rightarrow> Inl (InvalidUrl (''url parse failed: '' @ err))
             | Inr parsed \<Rightarrow> validate_url U parsed))"

subsection \<open>What a target satisfies\<close>

lemma url_pair:
  "(case split_once ''='' pair of None \<Rightarrow> None | Some (k, v) \<Rightarrow> if k = ''url'' then Some v else None) =
     (if starts_with ''url='' pair then Some (drop 4 pair) else None)"
proof (cases "starts_with ''url='' pair")
  case True
  then obtain r where "pair = ''url='' @ r" by (auto simp: starts_with_iff)
  moreover from this have "split_once ''='' pair = Some (''url'', r)" by (simp add: split_once_char)
  ultimately show ?thesis using True by simp
next
  case False
  have "k \<noteq> ''url''" if "split_once ''='' pair = Some (k, v)" for k v
    using that False by (auto simp: split_once_char starts_with_iff)
  with False show ?thesis by (auto split: option.splits)
qed

lemma find_map_if: "find_map (\<lambda>x. if P x then Some (f x) else None) xs = map_option f (List.find P xs)"
  by (induction xs) auto

definition target_wf :: "'u url_lib \<Rightarrow> 'u target_url \<Rightarrow> bool" where
  "target_wf U t \<longleftrightarrow>
     http_scheme (url_scheme U (tu_url t)) \<and> url_username U (tu_url t) = [] \<and>
     url_password U (tu_url t) = None \<and> url_fragment U (tu_url t) = None \<and>
     tu_host t \<noteq> [] \<and> length (tu_host t) \<le> MAX_HOST_LEN \<and>
     Some (tu_port t) =
       (case url_port U (tu_url t) of
          Some p \<Rightarrow> Some p
        | None \<Rightarrow> default_port (url_scheme U (tu_url t)))"

definition is_invalid_url :: "proxy_error \<Rightarrow> bool" where
  "is_invalid_url e \<longleftrightarrow> error_kind_of e = InvalidUrlKind"

lemma is_invalid_url_simps [simp]: "is_invalid_url (InvalidUrl s)"
  by (simp add: is_invalid_url_def)

lemma default_port_http: "default_port s \<noteq> None \<longleftrightarrow> http_scheme s"
  by (simp add: default_port_def http_scheme_def)

context url_api begin

lemma install_host_wf:
  assumes "install_host U u host ascii = Inr u'" "http_scheme (url_scheme U u)" "host \<noteq> []"
  shows "ascii \<noteq> [] \<and> url_scheme U u' = url_scheme U u \<and> url_username U u' = url_username U u \<and>
    url_password U u' = url_password U u \<and> url_fragment U u' = url_fragment U u \<and>
    url_port U u' = url_port U u"
proof (cases "ascii = host")
  case True
  with assms show ?thesis by (simp add: install_host_def)
next
  case False
  with assms(1) have set: "url_set_host U u ascii = Inr u'"
    by (simp add: install_host_def split: sum.splits)
  moreover have "ascii \<noteq> []"
    using set set_host_empty assms(2) default_port_http by blast
  ultimately show ?thesis using set_host_rest by blast
qed

lemma port_of_http:
  "http_scheme (url_scheme U u) \<Longrightarrow>
     url_port_or_known_default U u =
       (case url_port U u of Some p \<Rightarrow> Some p | None \<Rightarrow> default_port (url_scheme U u))"
  using port_known [of u] default_port_http [of "url_scheme U u"] by (auto split: option.splits)

lemma validate_url_wf:
  assumes "validate_url U u = Inr t"
  shows "target_wf U t"
proof -
  from assms obtain host u' where
    u: "http_scheme (url_scheme U u)" "url_username U u = []" "url_password U u = None"
       "url_fragment U u = None" and host: "host \<noteq> []"
    and inst: "install_host U u host (tu_host t) = Inr u'"
    and len: "length (tu_host t) \<le> MAX_HOST_LEN"
    and t: "tu_url t = u'" "url_port_or_known_default U u' = Some (tu_port t)"
    by (auto simp: validate_url_def bind_res_eq_Inr split: if_splits option.splits sum.splits)
  from install_host_wf [OF inst u(1) host] u len t show ?thesis
    using port_of_http [of u'] by (auto simp: target_wf_def split: option.splits)
qed

end

lemma extract_target_Inr:
  "extract_target U uri = Inr t \<Longrightarrow> \<exists>u. validate_url U u = Inr t"
  by (auto simp: extract_target_def bind_res_def split: option.splits sum.splits)

lemma candidate_error: "candidate_from_uri uri = Inl e \<Longrightarrow> is_invalid_url e"
  by (auto simp: candidate_from_uri_def Let_def split: option.splits if_splits)

lemma normalize_error: "normalize_scheme raw = Inl e \<Longrightarrow> is_invalid_url e"
  by (auto simp: normalize_scheme_def Let_def split: option.splits if_splits)

lemma install_host_error: "install_host U u h a = Inl e \<Longrightarrow> is_invalid_url e"
  by (auto simp: install_host_def split: sum.splits if_splits)

lemma validate_url_error: "validate_url U u = Inl e \<Longrightarrow> is_invalid_url e"
  by (auto simp: validate_url_def bind_res_eq_Inl dest: install_host_error
      split: if_splits option.splits sum.splits)

lemma extract_target_error: "extract_target U uri = Inl e \<Longrightarrow> is_invalid_url e"
  by (auto simp: extract_target_def bind_res_def
      dest: candidate_error normalize_error validate_url_error split: option.splits sum.splits)

lemma normalize_scheme_Inr:
  assumes "normalize_scheme raw = Inr s"
  shows "\<exists>scheme rest. s = scheme @ ''://'' @ rest \<and> http_scheme (to_lower scheme)"
proof (cases "split_once ''://'' raw")
  case None
  define sch where "sch = (case rsplit_once CHR '':'' (hd (split_on CHR ''/'' raw)) of
      Some (_, port) \<Rightarrow> if port = ''443'' then ''https'' else ''http'' | None \<Rightarrow> ''http'')"
  have "http_scheme (to_lower sch)"
    by (auto simp: sch_def http_scheme_def str_simps split: option.splits)
  moreover have "s = sch @ ''://'' @ raw"
    using assms None by (simp add: normalize_scheme_def sch_def Let_def)
  ultimately show ?thesis by blast
next
  case (Some p)
  obtain a b where p: "p = (a, b)" by (cases p)
  with Some have "raw = a @ ''://'' @ b" by (auto dest: split_once_SomeD)
  moreover from assms Some p have "s = raw" "http_scheme (to_lower a)"
    by (auto simp: normalize_scheme_def Let_def split: if_splits)
  ultimately show ?thesis by blast
qed

subsection \<open>An implementation on plain URLs\<close>

text \<open>
  An instance of the parameter that parses \<open>scheme://host[:port][/path][?query]\<close> without user
  information, fragments or percent escapes; concrete inputs are evaluated on it.
\<close>

record plain_url =
  pu_scheme :: string
  pu_host :: string
  pu_port :: "16 word option"
  pu_path :: string
  pu_query :: "string option"

definition plain_query :: "string \<Rightarrow> string \<times> string option" where
  "plain_query s =
     (case split_once ''?'' s of None \<Rightarrow> (s, None) | Some (p, q) \<Rightarrow> (p, Some q))"

definition plain_port :: "string \<Rightarrow> string \<Rightarrow> (string \<times> 16 word option) option" where
  "plain_port scheme authority =
     (case rsplit_once CHR '':'' authority of
        None \<Rightarrow> Some (authority, None)
      | Some (h, p) \<Rightarrow>
          (case read_number 10 65535 5 True p of
             Some (n, []) \<Rightarrow>
               Some (h, if Some (of_nat n) = default_port scheme then None else Some (of_nat n))
           | _ \<Rightarrow> None))"

definition plain_parse :: "string \<Rightarrow> string + plain_url" where
  "plain_parse s =
     (case split_once ''://'' s of
        None \<Rightarrow> Inl ''relative URL without a base''
      | Some (scheme, rest) \<Rightarrow>
          (let (front, q) = plain_query rest;
               authority = hd (split_on CHR ''/'' front);
               path = drop (length authority) front
           in case plain_port (to_lower scheme) authority of
                None \<Rightarrow> Inl ''invalid port number''
              | Some (h, port) \<Rightarrow>
                  if h = [] then Inl ''empty host''
                  else Inr \<lparr>pu_scheme = to_lower scheme, pu_host = to_lower h, pu_port = port,
                         pu_path = (if path = [] then ''/'' else path), pu_query = q\<rparr>))"

definition plain_show :: "plain_url \<Rightarrow> string" where
  "plain_show u =
     pu_scheme u @ ''://'' @ host_with_port (pu_host u) (pu_port u) @ pu_path u @
     (case pu_query u of None \<Rightarrow> [] | Some q \<Rightarrow> ''?'' @ q)"

definition plain_join :: "plain_url \<Rightarrow> string \<Rightarrow> string + plain_url" where
  "plain_join u s =
     (if starts_with ''/'' s then
        (let (p, q) = plain_query s in Inr (u\<lparr>pu_path := p, pu_query := q\<rparr>))
      else plain_parse s)"

definition plain_uri_build :: "string \<Rightarrow> string \<Rightarrow> string \<Rightarrow> string + uri" where
  "plain_uri_build scheme authority pq =
     (let (p, q) = plain_query pq
      in Inr \<lparr>u_scheme = Some scheme, u_authority = Some authority,
              u_host = Some (hd (split_on CHR '':'' authority)), u_path = p, u_query = q\<rparr>)"

definition plain_uri_parse :: "string \<Rightarrow> string + uri" where
  "plain_uri_parse s =
     (case if starts_with ''/'' s then None else split_once ''://'' s of
        None \<Rightarrow> (let (p, q) = plain_query s
            in Inr \<lparr>u_scheme = None, u_authority = None, u_host = None, u_path = p, u_query = q\<rparr>)
      | Some (scheme, rest) \<Rightarrow>
          (let (front, q) = plain_query rest;
               authority = hd (split_on CHR ''/'' front);
               path = drop (length authority) front
           in if authority = [] then Inl ''invalid format''
              else plain_uri_build (to_lower scheme) authority
                     ((if path = [] then ''/'' else path) @
                      (case q of None \<Rightarrow> [] | Some q \<Rightarrow> ''?'' @ q))))"

definition plain_uri_show :: "uri \<Rightarrow> string" where
  "plain_uri_show u =
     (case u_scheme u of None \<Rightarrow> [] | Some s \<Rightarrow> s @ ''://'') @
     (case u_authority u of None \<Rightarrow> [] | Some a \<Rightarrow> a) @ u_path u @
     (case u_query u of None \<Rightarrow> [] | Some q \<Rightarrow> ''?'' @ q)"

definition plain_urls :: "plain_url url_lib" where
  "plain_urls =
     \<lparr>url_parse = plain_parse, url_join = plain_join, url_as_str = plain_show,
      url_scheme = pu_scheme, url_username = (\<lambda>_. []), url_password = (\<lambda>_. None),
      url_fragment = (\<lambda>_. None), url_host_str = (\<lambda>u. Some (pu_host u)),
      url_set_host = (\<lambda>u h. if h = [] then Inl ''empty host'' else Inr (u\<lparr>pu_host := h\<rparr>)),
      url_port = pu_port,
      url_port_or_known_default =
        (\<lambda>u. case pu_port u of Some p \<Rightarrow> Some p | None \<Rightarrow> default_port (pu_scheme u)),
      url_path = pu_path, url_query = pu_query,
      percent_decode_utf8 = Some, domain_to_ascii = (\<lambda>h. Inr (to_lower h)),
      pq_try_from = Inr, uri_build = plain_uri_build, uri_parse = plain_uri_parse,
      uri_to_string = plain_uri_show\<rparr>"

interpretation plain: url_api plain_urls
  by unfold_locales
    (auto simp: plain_urls_def plain_uri_build_def plain_uri_parse_def plain_query_def Let_def
      split: if_splits option.splits)

lemma plain_urls_sel:
  "url_parse plain_urls = plain_parse"
  "url_join plain_urls = plain_join"
  "url_as_str plain_urls = plain_show"
  "url_scheme plain_urls = pu_scheme"
  "url_username plain_urls u = []"
  "url_password plain_urls u = None"
  "url_fragment plain_urls u = None"
  "url_host_str plain_urls u = Some (pu_host u)"
  "url_port plain_urls = pu_port"
  "url_port_or_known_default plain_urls u =
     (case pu_port u of Some p \<Rightarrow> Some p | None \<Rightarrow> default_port (pu_scheme u))"
  "url_path plain_urls = pu_path"
  "url_query plain_urls = pu_query"
  "percent_decode_utf8 plain_urls = Some"
  "domain_to_ascii plain_urls h = Inr (to_lower h)"
  "pq_try_from plain_urls = Inr"
  "uri_build plain_urls = plain_uri_build"
  "uri_parse plain_urls = plain_uri_parse"
  "uri_to_string plain_urls = plain_uri_show"
  by (simp_all add: plain_urls_def)

lemmas plain_urls_eval =
  plain_urls_sel plain_parse_def plain_query_def plain_port_def plain_show_def plain_join_def
  plain_uri_build_def plain_uri_parse_def plain_uri_show_def host_with_port_def default_port_def
  rsplit_once_def starts_with_def parse_ip_eval str_simps

subsection \<open>Properties\<close>

text \<open>
  C40. Extraction either refuses the request with an \<open>invalid_url\<close> error or yields a target that is
  safe to send upstream: an HTTP scheme, no embedded credentials, no fragment, a non-empty host of
  at most 253 bytes, and the port of the URL or of its scheme.
\<close>

theorem extract_target_well_formed:
  assumes "url_api U"
  shows "case extract_target U uri of
      Inl e \<Rightarrow> error_kind_of e = InvalidUrlKind
    | Inr t \<Rightarrow> target_wf U t"
  using extract_target_error [of U uri] extract_target_Inr [of U uri]
    url_api.validate_url_wf [OF assms]
  by (auto simp: is_invalid_url_def split: sum.splits)

lemma extract_target_well_formed_witness:
  "\<exists>t. extract_target plain_urls
     \<lparr>u_scheme = None, u_authority = None, u_host = None, u_path = ''/Api.test:443/v1'',
      u_query = Some ''a=1''\<rparr> = Inr t \<and> tu_host t = ''api.test'' \<and> target_wf plain_urls t"
proof -
  let ?uri = "\<lparr>u_scheme = None, u_authority = None, u_host = None, u_path = ''/Api.test:443/v1'',
      u_query = Some ''a=1''\<rparr>"
  have e: "extract_target plain_urls ?uri =
      Inr \<lparr>tu_url = \<lparr>pu_scheme = ''https'', pu_host = ''api.test'', pu_port = None,
             pu_path = ''/v1'', pu_query = Some ''a=1''\<rparr>,
           tu_host = ''api.test'', tu_port = 443\<rparr>"
    by (simp add: extract_target_def candidate_from_uri_def find_query_value_def trim_start_char_def
        normalize_scheme_def validate_url_def install_host_def http_scheme_def MAX_HOST_LEN_def
        Let_def plain_urls_eval)
  from extract_target_well_formed [OF plain.url_api_axioms, of ?uri] show ?thesis
    by (simp add: e)
qed

text \<open>
  Which text is taken for the target: the first \<open>url\<close> parameter of the query if there is one,
  whatever the path says (so a path-form target that carries a \<open>url\<close> parameter of its own is
  replaced by it); otherwise the path without its leading slashes and the whole query; and a
  request with neither is refused.
\<close>

theorem candidate_precedence:
  "candidate_from_uri uri =
     (case List.find (\<lambda>pair. starts_with ''url='' pair)
             (case u_query uri of None \<Rightarrow> [] | Some q \<Rightarrow> split_on CHR ''&'' q) of
        Some pair \<Rightarrow> Inr (drop 4 pair)
      | None \<Rightarrow>
          (case dropWhile (\<lambda>c. c = CHR ''/'') (u_path uri) of
             [] \<Rightarrow> Inl (InvalidUrl ''no target url supplied'')
           | c # cs \<Rightarrow> Inr ((c # cs) @ (case u_query uri of None \<Rightarrow> [] | Some q \<Rightarrow> ''?'' @ q))))"
proof (cases "u_query uri")
  case None
  then show ?thesis
    by (cases "dropWhile (\<lambda>c. c = CHR ''/'') (u_path uri)")
       (simp_all add: candidate_from_uri_def trim_start_char_def del: dropWhile_eq_Nil_conv)
next
  case (Some q)
  then show ?thesis
    by (cases "List.find (\<lambda>pair. starts_with ''url='' pair) (split_on CHR ''&'' q)";
        cases "dropWhile (\<lambda>c. c = CHR ''/'') (u_path uri)")
       (simp_all add: candidate_from_uri_def find_query_value_def url_pair find_map_if
         trim_start_char_def del: dropWhile_eq_Nil_conv)
qed

end
