(* ===== verification/Target.thy ===== *)
theory Target
  imports Url_Parser Config
begin

text \<open>
  \<open>corx-core/src/policy/target.rs\<close>: the host and scheme admission policy applied to the first
  target and to every redirect hop.
\<close>

subsection \<open>The policy\<close>

record target_policy =
  tp_mode :: target_mode
  tp_hosts :: "string list"
  tp_schemes :: "string list"
  tp_https_only :: bool

definition target_from_config :: "target_config \<Rightarrow> target_policy" where
  "target_from_config cfg =
     \<lparr>tp_mode = tc_mode cfg,
      tp_hosts = filter (\<lambda>h. h \<noteq> []) (map (\<lambda>h. to_lower (trim h)) (tc_hosts cfg)),
      tp_schemes =
        (if tc_schemes cfg = [] then [''https'', ''http'']
         else map (\<lambda>s. to_lower (trim s)) (tc_schemes cfg)),
      tp_https_only = tc_https_only cfg\<rparr>"

definition host_matches :: "string \<Rightarrow> string \<Rightarrow> bool" where
  "host_matches pattern host \<longleftrightarrow>
     (case strip_prefix ''.'' pattern of
        None \<Rightarrow> host = pattern
      | Some rest \<Rightarrow> host = rest \<or> ends_with pattern host)"

definition check_authority :: "target_policy \<Rightarrow> string \<Rightarrow> string \<Rightarrow> unit res" where
  "check_authority p scheme host =
     (let scheme = to_lower scheme
      in if tp_https_only p \<and> scheme \<noteq> ''https'' then
           Inl (TargetNotAllowed (''scheme `'' @ scheme @ ''` rejected (https_only)''))
         else if \<not> list_ex (\<lambda>s. s = scheme) (tp_schemes p) then
           Inl (TargetNotAllowed (''scheme `'' @ scheme @ ''` is not allowed''))
         else
           (let host = to_lower host;
                matched = list_ex (\<lambda>pattern. host_matches pattern host) (tp_hosts p)
            in case tp_mode p of
                 AnyPublic \<Rightarrow> Inr ()
               | Allowlist \<Rightarrow>
                   if tp_hosts p = [] then Inl (TargetNotAllowed ''allowlist is empty'')
                   else if matched then Inr ()
                   else Inl (TargetNotAllowed (''host `'' @ host @ ''` is not on the allowlist''))
               | Denylist \<Rightarrow>
                   if matched then Inl (TargetNotAllowed (''host `'' @ host @ ''` is denylisted''))
                   else Inr ()))"

definition check_target :: "'u url_lib \<Rightarrow> target_policy \<Rightarrow> 'u target_url \<Rightarrow> unit res" where
  "check_target U p t = check_authority p (url_scheme U (tu_url t)) (tu_host t)"

definition check_uri :: "target_policy \<Rightarrow> uri \<Rightarrow> unit res" where
  "check_uri p uri =
     (case u_scheme uri of
        None \<Rightarrow> Inl (InvalidUrl ''hop URI lacks a scheme'')
      | Some scheme \<Rightarrow>
          (case u_host uri of
             None \<Rightarrow> Inl (InvalidUrl ''hop URI lacks a host'')
           | Some host \<Rightarrow> check_authority p scheme host))"

subsection \<open>What is admitted\<close>

text \<open>
  The abstract specification: a pattern that starts with a dot stands for a domain and everything
  below it, any other pattern for one host; letter case does not matter.
\<close>

definition covers :: "string \<Rightarrow> string \<Rightarrow> bool" where
  "covers pattern host \<longleftrightarrow>
     host = pattern \<and> \<not> starts_with ''.'' pattern \<or>
     starts_with ''.'' pattern \<and> (host = tl pattern \<or> (\<exists>sub. host = sub @ pattern))"

definition admits_target :: "target_policy \<Rightarrow> string \<Rightarrow> string \<Rightarrow> bool" where
  "admits_target p scheme host \<longleftrightarrow>
     to_lower scheme \<in> set (tp_schemes p) \<and>
     (tp_https_only p \<longrightarrow> to_lower scheme = ''https'') \<and>
     (case tp_mode p of
        AnyPublic \<Rightarrow> True
      | Allowlist \<Rightarrow> \<exists>pattern \<in> set (tp_hosts p). covers pattern (to_lower host)
      | Denylist \<Rightarrow> \<forall>pattern \<in> set (tp_hosts p). \<not> covers pattern (to_lower host))"

lemma host_matches_covers: "host_matches pattern host \<longleftrightarrow> covers pattern host"
  by (cases pattern)
     (auto simp: host_matches_def covers_def starts_with_iff ends_with_iff split: if_splits)

lemma check_authority_iff: "check_authority p scheme host = Inr () \<longleftrightarrow> admits_target p scheme host"
  by (cases "tp_mode p")
     (auto simp: check_authority_def admits_target_def Let_def host_matches_covers
       list_ex_iff list_all_iff)

lemma check_authority_error:
  "check_authority p scheme host = Inl e \<Longrightarrow> error_kind_of e = TargetNotAllowedKind"
  by (auto simp: check_authority_def Let_def split: if_splits target_mode.splits)

lemma check_authority_case:
  "eq_ignore_case scheme scheme' \<Longrightarrow> eq_ignore_case host host' \<Longrightarrow>
     check_authority p scheme host = check_authority p scheme' host'"
  by (simp add: check_authority_def eq_ignore_case_def Let_def)

lemma covers_label_boundary:
  "covers (CHR ''.'' # d) (x @ d) \<longleftrightarrow> x = [] \<or> (\<exists>y. x = y @ ''.'')"
proof -
  have "(\<exists>sub. x @ d = sub @ CHR ''.'' # d) \<longleftrightarrow> (\<exists>y. x = y @ ''.'')"
  proof
    assume "\<exists>sub. x @ d = sub @ CHR ''.'' # d"
    then obtain sub where "x @ d = (sub @ ''.'') @ d" by auto
    then have "x = sub @ ''.''" by (rule append_same_eq [THEN iffD1])
    then show "\<exists>y. x = y @ ''.''" by blast
  qed auto
  then show ?thesis by (auto simp: covers_def starts_with_iff)
qed

subsection \<open>Properties\<close>

text \<open>
  C37. Admission refines its specification: an authority passes exactly when its scheme is listed
  (and is https where only https is allowed) and its host is covered by the allowlist, or not
  covered by the denylist; every refusal is a \<open>target_not_allowed\<close> error; and neither letter case
  of scheme nor of host changes the answer.
\<close>

theorem check_authority_refines:
  "(check_authority p scheme host = Inr () \<longleftrightarrow> admits_target p scheme host) \<and>
   case_sum (\<lambda>e. error_kind_of e = TargetNotAllowedKind) (\<lambda>_. True) (check_authority p scheme host) \<and>
   check_authority p (to_lower scheme) (to_lower host) = check_authority p scheme host"
  using check_authority_error [of p scheme host]
    check_authority_case [of "to_lower scheme" scheme "to_lower host" host p]
  by (auto simp: check_authority_iff split: sum.split)

text \<open>
  The trailing dot of a fully qualified name is not taken off: a denylist entry does not cover the
  same name written with it, with or without the leading dot of a pattern.
\<close>

lemma denylist_ignores_trailing_dot:
  "check_authority \<lparr>tp_mode = Denylist, tp_hosts = [''denied.test'', ''.denied.test''],
     tp_schemes = [''https''], tp_https_only = False\<rparr> ''https'' ''denied.test.'' = Inr ()"
  "check_authority \<lparr>tp_mode = Denylist, tp_hosts = [''denied.test'', ''.denied.test''],
     tp_schemes = [''https''], tp_https_only = False\<rparr> ''https'' ''denied.test'' \<noteq> Inr ()"
  by code_simp+

text \<open>
  A dotted pattern matches at label boundaries only: \<open>.example.com\<close> covers \<open>example.com\<close> and
  the hosts below it, and never a host whose last label merely ends in the same letters, such as
  \<open>evilexample.com\<close>.
\<close>

theorem host_matches_label_boundary:
  "host_matches (CHR ''.'' # domain) (x @ domain) \<longleftrightarrow> x = [] \<or> last x = CHR ''.''"
proof -
  have "x = [] \<or> (\<exists>y. x = y @ ''.'') \<longleftrightarrow> x = [] \<or> last x = CHR ''.''"
    by (cases x rule: rev_cases) auto
  then show ?thesis by (simp add: host_matches_covers covers_label_boundary)
qed

end
