(* ===== verification/Telemetry.thy ===== *)
theory Telemetry
  imports Http_Lib
begin

text \<open>
  The metric names of \<open>corx-core/src/observability/mod.rs\<close> and the events the components record
  under them. A component that records metrics answers the list of events beside its result.
\<close>

definition REQUESTS_TOTAL :: string where "REQUESTS_TOTAL = ''corx_requests_total''"
definition REQUEST_DURATION :: string where "REQUEST_DURATION = ''corx_request_duration_seconds''"
definition UPSTREAM_DURATION :: string where "UPSTREAM_DURATION = ''corx_upstream_duration_seconds''"
definition UPSTREAM_ERRORS :: string where "UPSTREAM_ERRORS = ''corx_upstream_errors_total''"
definition INFLIGHT_REQUESTS :: string where "INFLIGHT_REQUESTS = ''corx_inflight_requests''"
definition BYTES_TRANSFERRED :: string where "BYTES_TRANSFERRED = ''corx_bytes_transferred_total''"
definition RATE_LIMITED :: string where "RATE_LIMITED = ''corx_rate_limited_total''"
definition SSRF_BLOCKS :: string where "SSRF_BLOCKS = ''corx_ssrf_blocks_total''"
definition DNS_LOOKUPS :: string where "DNS_LOOKUPS = ''corx_dns_lookups_total''"
definition REDIRECT_HOPS :: string where "REDIRECT_HOPS = ''corx_redirect_hops''"
definition CONFIG_RELOAD :: string where "CONFIG_RELOAD = ''corx_config_reload_total''"
definition CIRCUIT_OPENS :: string where "CIRCUIT_OPENS = ''corx_circuit_opens_total''"
definition CIRCUIT_REJECTS :: string where "CIRCUIT_REJECTS = ''corx_circuit_rejects_total''"
definition BUILD_INFO :: string where "BUILD_INFO = ''corx_build_info''"

text \<open>
  An event: the metric, its labels and the amount added to a counter, the value recorded in a
  histogram (a duration in nanoseconds), or the change of a gauge.
\<close>

datatype metric =
    Count string "(string \<times> string) list" nat
  | Observe string "(string \<times> string) list" nat
  | Gauge string int

type_synonym 'a logged = "metric list \<times> 'a"

end
