(* ===== verification/Ssrf.thy ===== *)
theory Ssrf
  imports Config Telemetry
begin

text \<open>
  \<open>corx-core/src/proxy/ssrf.rs\<close>: the guard that resolves a host name and lets through only the
  addresses the policy admits. The crate \<open>ipnet\<close> is the parameter \<open>N\<close> (parsing, membership and
  printing of a CIDR block, with its documented laws in the locale \<open>ip_nets\<close>); the DNS resolver is
  the function \<open>dns\<close>, which answers addresses or the text of an error.
\<close>

subsection \<open>CIDR blocks\<close>

record net_lib =
  net_parse :: "string \<Rightarrow> ip_net option"
  net_contains :: "ip_net \<Rightarrow> ip_addr \<Rightarrow> bool"
  net_show :: "ip_net \<Rightarrow> string"

definition addr_width :: "ip_addr \<Rightarrow> nat" where
  "addr_width ip = (case ip of V4 _ \<Rightarrow> 32 | V6 _ \<Rightarrow> 128)"

definition cidr_of :: "string \<Rightarrow> ip_net option" where
  "cidr_of s =
     do { (a, l) \<leftarrow> rsplit_once CHR ''/'' s;
          ip \<leftarrow> parse_ip a;
          (n, rest) \<leftarrow> read_number 10 (addr_width ip) 3 False l;
          if rest = [] then Some (ip, n) else None }"

fun same_top_bits :: "nat \<Rightarrow> ip_addr \<Rightarrow> ip_addr \<Rightarrow> bool" where
  "same_top_bits l (V4 a) (V4 b) \<longleftrightarrow> drop_bit (32 - l) a = drop_bit (32 - l) b"
| "same_top_bits l (V6 a) (V6 b) \<longleftrightarrow> drop_bit (128 - l) a = drop_bit (128 - l) b"
| "same_top_bits l _ _ \<longleftrightarrow> False"

locale ip_nets =
  fixes N :: net_lib
  assumes parse_cidr: "cidr_of s = Some n \<Longrightarrow> net_parse N s = Some n"
    and contains_cidr: "l \<le> addr_width a \<Longrightarrow> net_contains N (a, l) ip \<longleftrightarrow> same_top_bits l a ip"

definition plain_nets :: net_lib where
  "plain_nets =
     \<lparr>net_parse = cidr_of, net_contains = (\<lambda>(a, l) ip. same_top_bits l a ip),
      net_show = (\<lambda>(a, l). show_ip a @ ''/'' @ show_nat l)\<rparr>"

interpretation plain: ip_nets plain_nets
  by unfold_locales (simp_all add: plain_nets_def)

lemmas cidr_eval =
  cidr_of_def rsplit_once_def addr_width_def parse_ip_eval

subsection \<open>The guard\<close>

definition DEFAULT_BLOCKED_CIDRS :: "string list" where
  "DEFAULT_BLOCKED_CIDRS =
     [''0.0.0.0/8'', ''10.0.0.0/8'', ''100.64.0.0/10'', ''127.0.0.0/8'', ''169.254.0.0/16'',
      ''172.16.0.0/12'', ''192.0.0.0/24'', ''192.0.2.0/24'', ''192.168.0.0/16'',
      ''198.18.0.0/15'', ''198.51.100.0/24'', ''203.0.113.0/24'', ''224.0.0.0/4'',
      ''240.0.0.0/4'', ''255.255.255.255/32'',
      ''::/128'', ''::1/128'', ''::ffff:0:0/96'', ''64:ff9b::/96'', ''64:ff9b:1::/48'',
      ''100::/64'', ''2001:db8::/32'', ''2002::/16'', ''fc00::/7'', ''fe80::/10'', ''ff00::/8'']"

definition PRIVATE_RANGES :: "string list" where
  "PRIVATE_RANGES =
     [''10.0.0.0/8'', ''172.16.0.0/12'', ''192.168.0.0/16'', ''127.0.0.0/8'', ''169.254.0.0/16'',
      ''::1/128'', ''fc00::/7'', ''fe80::/10'']"

record ssrf_guard =
  sg_mode :: ssrf_mode
  sg_allow_ipv6 :: bool
  sg_blocked :: "ip_net list"
  sg_allowed :: "ip_net list"
  sg_private :: "ip_net list"

definition compile_cidr_list :: "net_lib \<Rightarrow> string list \<Rightarrow> ip_net list \<Rightarrow> ip_net list" where
  "compile_cidr_list N builtin extras = List.map_filter (net_parse N) builtin @ extras"

definition ssrf_new :: "net_lib \<Rightarrow> ssrf_config \<Rightarrow> ssrf_guard" where
  "ssrf_new N cfg =
     \<lparr>sg_mode = sf_mode cfg, sg_allow_ipv6 = sf_allow_ipv6 cfg,
      sg_blocked = compile_cidr_list N DEFAULT_BLOCKED_CIDRS (sf_extra_blocked_cidrs cfg),
      sg_allowed = compile_cidr_list N [] (sf_extra_allowed_cidrs cfg),
      sg_private = compile_cidr_list N PRIVATE_RANGES []\<rparr>"

definition canonicalise :: "ip_addr \<Rightarrow> ip_addr" where
  "canonicalise addr = (case addr of V6 v6 \<Rightarrow> to_canonical v6 | V4 _ \<Rightarrow> addr)"

definition record_block :: "net_lib \<Rightarrow> ip_net \<Rightarrow> metric" where
  "record_block N net = Count SSRF_BLOCKS [(''cidr'', net_show N net)] 1"

definition evaluate :: "net_lib \<Rightarrow> ssrf_guard \<Rightarrow> ip_addr \<Rightarrow> unit res logged" where
  "evaluate N g ip =
     (if list_ex (\<lambda>net. net_contains N net ip) (sg_allowed g) then ([], Inr ())
      else case sg_mode g of
        Strict \<Rightarrow>
          (case List.find (\<lambda>net. net_contains N net ip) (sg_blocked g) of
             Some net \<Rightarrow> ([record_block N net], Inl (SsrfBlocked ip))
           | None \<Rightarrow> ([], Inr ()))
      | Permissive private_ok \<Rightarrow>
          (if private_ok then ([], Inr ())
           else case List.find (\<lambda>net. net_contains N net ip) (sg_private g) of
             Some net \<Rightarrow> ([record_block N net], Inl (SsrfBlocked ip))
           | None \<Rightarrow> ([], Inr ())))"

definition check_ip :: "net_lib \<Rightarrow> ssrf_guard \<Rightarrow> ip_addr \<Rightarrow> ip_addr res logged" where
  "check_ip N g raw =
     (let canonical = canonicalise raw
      in if \<not> sg_allow_ipv6 g \<and> is_ipv6 canonical then ([], Inl (SsrfBlocked canonical))
         else (let (ms, r) = evaluate N g canonical in (ms, bind_res r (\<lambda>_. Inr canonical))))"

text \<open>The loop over the addresses of a lookup, with the two variables it updates.\<close>

fun resolve_loop ::
  "net_lib \<Rightarrow> ssrf_guard \<Rightarrow> 16 word \<Rightarrow> ip_addr list \<Rightarrow> socket_addr list \<Rightarrow> proxy_error option \<Rightarrow>
     (socket_addr list \<times> proxy_error option) logged" where
  "resolve_loop N g port [] admissible last_violation = ([], (admissible, last_violation))"
| "resolve_loop N g port (raw # rest) admissible last_violation =
     (let canonical = canonicalise raw
      in if \<not> sg_allow_ipv6 g \<and> is_ipv6 canonical
         then resolve_loop N g port rest admissible last_violation
         else case evaluate N g canonical of
           (ms, Inr _) \<Rightarrow>
             (let (ms', out) = resolve_loop N g port rest (admissible @ [(canonical, port)]) last_violation
              in (ms @ ms', out))
         | (ms, Inl err) \<Rightarrow>
             (let (ms', out) = resolve_loop N g port rest admissible (Some err)
              in (ms @ ms', out)))"

definition dns_lookup :: "string \<Rightarrow> metric" where
  "dns_lookup result = Count DNS_LOOKUPS [(''result'', result)] 1"

definition resolve ::
  "net_lib \<Rightarrow> ssrf_guard \<Rightarrow> (string \<Rightarrow> string + ip_addr list) \<Rightarrow> string \<Rightarrow> 16 word \<Rightarrow>
     socket_addr list res logged" where
  "resolve N g dns host port =
     (case parse_ip host of
        Some ip \<Rightarrow>
          (let (ms, r) = check_ip N g ip
           in (dns_lookup ''literal'' # ms, bind_res r (\<lambda>canonical. Inr [(canonical, port)])))
      | None \<Rightarrow>
          (case dns host of
             Inl err \<Rightarrow> ([dns_lookup ''error''], Inl (Dns host err))
           | Inr lookup \<Rightarrow>
               (let (ms, admissible, last_violation) = resolve_loop N g port lookup [] None
                in (dns_lookup ''ok'' # ms,
                    if admissible \<noteq> [] then Inr admissible
                    else Inl (case last_violation of
                        Some err \<Rightarrow> err
                      | None \<Rightarrow> Dns host ''no usable address returned by resolver'')))))"

text \<open>
  The resolver of the proxy: the configuration of the system if it can be read, Google's public DNS
  otherwise. Reading it, the constructor and the two values of the fallback belong to the resolver
  crate.
\<close>

definition build_resolver ::
  "string + 'c \<times> 'o \<Rightarrow> ('c \<Rightarrow> 'o \<Rightarrow> 'd) \<Rightarrow> 'c \<Rightarrow> 'o \<Rightarrow> 'd" where
  "build_resolver system_conf tokio google default_opts =
     (case system_conf of
        Inr (config, opts) \<Rightarrow> tokio config opts
      | Inl _ \<Rightarrow> tokio google default_opts)"

subsection \<open>What the guard admits\<close>

text \<open>The abstract policy on one canonical address.\<close>

definition in_nets :: "net_lib \<Rightarrow> ip_net list \<Rightarrow> ip_addr \<Rightarrow> bool" where
  "in_nets N nets ip \<longleftrightarrow> list_ex (\<lambda>net. net_contains N net ip) nets"

definition ip_admitted :: "net_lib \<Rightarrow> ssrf_guard \<Rightarrow> ip_addr \<Rightarrow> bool" where
  "ip_admitted N g ip \<longleftrightarrow>
     in_nets N (sg_allowed g) ip \<or>
     (case sg_mode g of
        Strict \<Rightarrow> \<not> in_nets N (sg_blocked g) ip
      | Permissive private_ok \<Rightarrow> private_ok \<or> \<not> in_nets N (sg_private g) ip)"

definition address_admitted :: "net_lib \<Rightarrow> ssrf_guard \<Rightarrow> ip_addr \<Rightarrow> bool" where
  "address_admitted N g ip \<longleftrightarrow> (sg_allow_ipv6 g \<or> \<not> is_ipv6 ip) \<and> ip_admitted N g ip"

lemma find_in_nets: "List.find (\<lambda>net. net_contains N net ip) nets = None \<longleftrightarrow> \<not> in_nets N nets ip"
  by (simp add: find_None_iff_all in_nets_def list_ex_iff)

lemma find_in_netsD:
  "List.find (\<lambda>net. net_contains N net ip) nets = Some net \<Longrightarrow> in_nets N nets ip"
  "List.find (\<lambda>net. net_contains N net ip) nets = None \<Longrightarrow> \<not> in_nets N nets ip"
  by (auto simp: find_in_nets in_nets_def list_ex_iff dest: find_SomeD)

lemma evaluate_cases:
  "snd (evaluate N g ip) = (if ip_admitted N g ip then Inr () else Inl (SsrfBlocked ip))"
  by (auto simp: evaluate_def ip_admitted_def in_nets_def [of N "sg_allowed g"]
      dest: find_in_netsD split: ssrf_mode.split option.split)

lemma evaluate_metric:
  "fst (evaluate N g ip) = [] \<longleftrightarrow> ip_admitted N g ip"
  by (auto simp: evaluate_def ip_admitted_def in_nets_def [of N "sg_allowed g"]
      dest: find_in_netsD split: ssrf_mode.split option.split)

lemma check_ip_cases:
  "snd (check_ip N g raw) =
     (if address_admitted N g (canonicalise raw) then Inr (canonicalise raw)
      else Inl (SsrfBlocked (canonicalise raw)))"
  using evaluate_cases [of N g "canonicalise raw"]
  by (auto simp: check_ip_def address_admitted_def Let_def split: prod.split)

text \<open>The loop keeps the admitted addresses in order and the last refusal.\<close>

definition refused :: "net_lib \<Rightarrow> ssrf_guard \<Rightarrow> ip_addr \<Rightarrow> bool" where
  "refused N g ip \<longleftrightarrow> (sg_allow_ipv6 g \<or> \<not> is_ipv6 ip) \<and> \<not> ip_admitted N g ip"

lemma resolve_loop_spec:
  "snd (resolve_loop N g port ips adm v) =
     (adm @ map (\<lambda>ip. (ip, port)) (filter (address_admitted N g) (map canonicalise ips)),
      (case rev (filter (refused N g) (map canonicalise ips)) of
         [] \<Rightarrow> v
       | ip # _ \<Rightarrow> Some (SsrfBlocked ip)))"
proof (induction ips arbitrary: adm v)
  case Nil
  then show ?case by simp
next
  case (Cons raw ips)
  let ?ip = "canonicalise raw"
  obtain ms r where e: "evaluate N g ?ip = (ms, r)" by (cases "evaluate N g ?ip")
  with evaluate_cases [of N g ?ip]
  have r: "r = (if ip_admitted N g ?ip then Inr () else Inl (SsrfBlocked ?ip))" by simp
  consider "\<not> sg_allow_ipv6 g \<and> is_ipv6 ?ip"
    | "sg_allow_ipv6 g \<or> \<not> is_ipv6 ?ip" "ip_admitted N g ?ip"
    | "sg_allow_ipv6 g \<or> \<not> is_ipv6 ?ip" "\<not> ip_admitted N g ?ip" by blast
  then show ?case
  proof cases
    case 1
    then show ?thesis by (simp add: Cons.IH address_admitted_def refused_def Let_def)
  next
    case 2
    then show ?thesis
      by (simp add: Cons.IH e r address_admitted_def refused_def Let_def case_prod_beta)
  next
    case 3
    then have "refused N g ?ip" "\<not> address_admitted N g ?ip"
      by (simp_all add: refused_def address_admitted_def)
    with 3 show ?thesis
      by (cases "rev (filter (refused N g) (map canonicalise ips))")
         (auto simp: Cons.IH e r Let_def case_prod_beta)
  qed
qed

lemma canonical_not_mapped: "canonicalise raw \<noteq> V6 (to_ipv6_mapped a)"
proof
  assume h: "canonicalise raw = V6 (to_ipv6_mapped a)"
  show False
  proof (cases raw)
    case (V4 x)
    with h show ?thesis by (simp add: canonicalise_def)
  next
    case (V6 v)
    with h have "to_canonical v = V6 (to_ipv6_mapped a)" by (simp add: canonicalise_def)
    then have "v = to_ipv6_mapped a" "to_ipv4_mapped v = None"
      by (auto simp: to_canonical_def split: option.splits)
    then show ?thesis by (simp add: to_ipv4_mapped_to_ipv6_mapped)
  qed
qed

lemma resolve_cases:
  "snd (resolve N g dns host port) =
     (case parse_ip host of
        Some ip \<Rightarrow>
          (if address_admitted N g (canonicalise ip) then Inr [(canonicalise ip, port)]
           else Inl (SsrfBlocked (canonicalise ip)))
      | None \<Rightarrow>
          (case dns host of
             Inl err \<Rightarrow> Inl (Dns host err)
           | Inr ips \<Rightarrow>
               (case (filter (address_admitted N g) (map canonicalise ips),
                      rev (filter (refused N g) (map canonicalise ips))) of
                  (a # as, _) \<Rightarrow> Inr (map (\<lambda>ip. (ip, port)) (a # as))
                | ([], b # _) \<Rightarrow> Inl (SsrfBlocked b)
                | ([], []) \<Rightarrow> Inl (Dns host ''no usable address returned by resolver''))))"
proof (cases "parse_ip host")
  case (Some ip)
  then show ?thesis
    using check_ip_cases [of N g ip] by (auto simp: resolve_def Let_def case_prod_beta)
next
  case None
  show ?thesis
  proof (cases "dns host")
    case (Inl err)
    with None show ?thesis by (simp add: resolve_def)
  next
    case (Inr ips)
    obtain ms adm v where l: "resolve_loop N g port ips [] None = (ms, adm, v)"
      by (cases "resolve_loop N g port ips [] None")
    with resolve_loop_spec [of N g port ips "[]" None]
    have "adm = map (\<lambda>ip. (ip, port)) (filter (address_admitted N g) (map canonicalise ips))"
      "v = (case rev (filter (refused N g) (map canonicalise ips)) of
          [] \<Rightarrow> None | ip # _ \<Rightarrow> Some (SsrfBlocked ip))"
      by simp_all
    with None Inr l show ?thesis
      by (cases "filter (address_admitted N g) (map canonicalise ips)";
          cases "rev (filter (refused N g) (map canonicalise ips))")
         (simp_all add: resolve_def)
  qed
qed

lemma resolve_admits:
  assumes "snd (resolve N g dns host port) = Inr addrs"
  shows "addrs \<noteq> [] \<and>
    (\<forall>(ip, p) \<in> set addrs. p = port \<and> address_admitted N g ip \<and> (\<exists>raw. ip = canonicalise raw))"
proof (cases "parse_ip host")
  case (Some ip)
  with assms show ?thesis by (auto simp: resolve_cases split: if_splits)
next
  case None
  with assms obtain ips where "dns host = Inr ips" by (auto simp: resolve_cases split: sum.splits)
  with None assms have ne: "filter (address_admitted N g) (map canonicalise ips) \<noteq> []"
    and addrs: "addrs = map (\<lambda>ip. (ip, port)) (filter (address_admitted N g) (map canonicalise ips))"
    by (auto simp: resolve_cases split: list.splits)
  then show ?thesis by auto
qed

subsection \<open>The built-in ranges\<close>

definition default_blocked :: "ip_net list" where
  "default_blocked =
     [(V4 0x00000000, 8), (V4 0x0A000000, 8), (V4 0x64400000, 10), (V4 0x7F000000, 8),
      (V4 0xA9FE0000, 16), (V4 0xAC100000, 12), (V4 0xC0000000, 24), (V4 0xC0000200, 24),
      (V4 0xC0A80000, 16), (V4 0xC6120000, 15), (V4 0xC6336400, 24), (V4 0xCB007100, 24),
      (V4 0xE0000000, 4), (V4 0xF0000000, 4), (V4 0xFFFFFFFF, 32),
      (V6 0, 128), (V6 1, 128), (V6 0xFFFF00000000, 96),
      (V6 0x0064FF9B000000000000000000000000, 96), (V6 0x0064FF9B000100000000000000000000, 48),
      (V6 0x01000000000000000000000000000000, 64), (V6 0x20010DB8000000000000000000000000, 32),
      (V6 0x20020000000000000000000000000000, 16), (V6 0xFC000000000000000000000000000000, 7),
      (V6 0xFE800000000000000000000000000000, 10), (V6 0xFF000000000000000000000000000000, 8)]"

definition default_private :: "ip_net list" where
  "default_private =
     [(V4 0x0A000000, 8), (V4 0xAC100000, 12), (V4 0xC0A80000, 16), (V4 0x7F000000, 8),
      (V4 0xA9FE0000, 16), (V6 1, 128), (V6 0xFC000000000000000000000000000000, 7),
      (V6 0xFE800000000000000000000000000000, 10)]"

lemma cidrs_v4:
  "map cidr_of (take 15 DEFAULT_BLOCKED_CIDRS) = map Some (take 15 default_blocked)"
  by (simp add: DEFAULT_BLOCKED_CIDRS_def default_blocked_def cidr_eval)

lemma cidrs_v6:
  "map cidr_of (drop 15 DEFAULT_BLOCKED_CIDRS) = map Some (drop 15 default_blocked)"
  by (simp add: DEFAULT_BLOCKED_CIDRS_def default_blocked_def cidr_eval)

lemma cidrs_private: "map cidr_of PRIVATE_RANGES = map Some default_private"
  by (simp add: PRIVATE_RANGES_def default_private_def cidr_eval)

lemma cidrs_blocked: "map cidr_of DEFAULT_BLOCKED_CIDRS = map Some default_blocked"
  using cidrs_v4 cidrs_v6
  by (metis append_take_drop_id map_append)

lemma default_nets_wf:
  "list_all (\<lambda>(a, l). l \<le> addr_width a) default_blocked"
  "list_all (\<lambda>(a, l). l \<le> addr_width a) default_private"
  by (simp_all add: default_blocked_def default_private_def addr_width_def)

context ip_nets begin

lemma compile_builtin:
  "map cidr_of raws = map Some nets \<Longrightarrow> compile_cidr_list N raws extras = nets @ extras"
proof (induction raws arbitrary: nets)
  case Nil
  then show ?case by (simp add: compile_cidr_list_def List.map_filter_simps)
next
  case (Cons r raws)
  then obtain n ns where "nets = n # ns" "cidr_of r = Some n" "map cidr_of raws = map Some ns"
    by (cases nets) auto
  with Cons.IH [of ns] parse_cidr [of r n] show ?case
    by (simp add: compile_cidr_list_def List.map_filter_simps)
qed

lemma new_nets:
  "sg_blocked (ssrf_new N cfg) = default_blocked @ sf_extra_blocked_cidrs cfg"
  "sg_allowed (ssrf_new N cfg) = sf_extra_allowed_cidrs cfg"
  "sg_private (ssrf_new N cfg) = default_private"
  "sg_mode (ssrf_new N cfg) = sf_mode cfg"
  "sg_allow_ipv6 (ssrf_new N cfg) = sf_allow_ipv6 cfg"
  using compile_builtin [OF cidrs_blocked] compile_builtin [OF cidrs_private, of "[]"]
    compile_builtin [of "[]" "[]"]
  by (simp_all add: ssrf_new_def)

lemma in_nets_default:
  "list_all (\<lambda>(a, l). l \<le> addr_width a) nets \<Longrightarrow>
     in_nets N nets ip \<longleftrightarrow> list_ex (\<lambda>(a, l). same_top_bits l a ip) nets"
  by (induction nets) (auto simp: in_nets_def contains_cidr)

lemma in_nets_append: "in_nets N (xs @ ys) ip \<longleftrightarrow> in_nets N xs ip \<or> in_nets N ys ip"
  by (simp add: in_nets_def)

end

text \<open>The guard's decision depends on the lists only through what \<open>evaluate\<close> answers.\<close>

lemma resolve_loop_cong:
  assumes "evaluate N g = evaluate N g'" "sg_allow_ipv6 g = sg_allow_ipv6 g'"
  shows "resolve_loop N g port ips adm v = resolve_loop N g' port ips adm v"
  by (induction ips arbitrary: adm v)
     (simp_all add: assms Let_def split: prod.split sum.split)

lemma resolve_cong:
  assumes "evaluate N g = evaluate N g'" "sg_allow_ipv6 g = sg_allow_ipv6 g'"
  shows "resolve N g dns host port = resolve N g' dns host port"
proof -
  have "check_ip N g = check_ip N g'"
    by (intro ext) (simp only: check_ip_def assms)
  moreover have "resolve_loop N g port ips [] None = resolve_loop N g' port ips [] None" for ips
    by (rule resolve_loop_cong [OF assms])
  ultimately show ?thesis by (simp only: resolve_def)
qed

subsection \<open>Properties\<close>

text \<open>
  The compiled guard holds every built-in range: all 26 blocked and all 8 private CIDR literals
  of the source parse (the branch that would silently drop one is never taken), followed by the
  operator's extra ranges.
\<close>

theorem ssrf_builtin_ranges:
  assumes "ip_nets N"
  shows "sg_blocked (ssrf_new N cfg) = default_blocked @ sf_extra_blocked_cidrs cfg \<and>
    sg_private (ssrf_new N cfg) = default_private \<and>
    sg_allowed (ssrf_new N cfg) = sf_extra_allowed_cidrs cfg"
  by (simp add: ip_nets.new_nets [OF assms])

lemma ssrf_builtin_ranges_witness:
  "length (sg_blocked (ssrf_new plain_nets default_ssrf_config)) = 26"
  using ssrf_builtin_ranges [OF plain.ip_nets_axioms, of default_ssrf_config]
  by (simp add: default_ssrf_config_def default_blocked_def)

text \<open>What a strict guard admits, in terms of its configuration.\<close>

lemma strict_admitted:
  assumes "ip_nets N" "sf_mode cfg = Strict"
  shows "address_admitted N (ssrf_new N cfg) ip \<longleftrightarrow>
    (sf_allow_ipv6 cfg \<or> \<not> is_ipv6 ip) \<and>
    (in_nets N (sf_extra_allowed_cidrs cfg) ip \<or>
     \<not> list_ex (\<lambda>(a, l). same_top_bits l a ip) default_blocked \<and>
     \<not> in_nets N (sf_extra_blocked_cidrs cfg) ip)"
  using assms(2) ip_nets.in_nets_default [OF assms(1) default_nets_wf(1), of ip]
  by (simp add: address_admitted_def ip_admitted_def ip_nets.new_nets [OF assms(1)]
      ip_nets.in_nets_append [OF assms(1)])

text \<open>
  C1. Resolution under the strict policy never hands out an internal address: every address it
  answers is canonical (no IPv4-mapped form), of an enabled family, and outside every built-in and
  extra blocked range unless an allowed range covers it; the answer is never empty, and a failure
  is a DNS or an SSRF error.
\<close>

theorem resolve_strict_safe:
  assumes "ip_nets N" "sf_mode cfg = Strict"
  shows "case snd (resolve N (ssrf_new N cfg) dns host port) of
      Inl e \<Rightarrow> error_kind_of e \<in> {DnsFailureKind, SsrfBlockedKind}
    | Inr addrs \<Rightarrow>
        addrs \<noteq> [] \<and>
        (\<forall>(ip, p) \<in> set addrs. p = port \<and> (\<forall>a. ip \<noteq> V6 (to_ipv6_mapped a)) \<and>
           (sf_allow_ipv6 cfg \<or> \<not> is_ipv6 ip) \<and>
           (in_nets N (sf_extra_allowed_cidrs cfg) ip \<or>
            \<not> list_ex (\<lambda>(a, l). same_top_bits l a ip) default_blocked \<and>
            \<not> in_nets N (sf_extra_blocked_cidrs cfg) ip))"
proof (cases "snd (resolve N (ssrf_new N cfg) dns host port)")
  case (Inl e)
  then show ?thesis
    by (auto simp: resolve_cases split: if_splits option.splits sum.splits list.splits)
next
  case (Inr addrs)
  from resolve_admits [OF Inr] show ?thesis
    unfolding Inr sum.case strict_admitted [OF assms]
    by (intro conjI ballI) (auto simp: canonical_not_mapped [symmetric] dest!: bspec)
qed

lemma resolve_strict_safe_witness:
  "snd (resolve plain_nets (ssrf_new plain_nets default_ssrf_config)
      (\<lambda>_. Inr [V4 0x7F000001, V4 0x08080808]) ''dns.test'' 0) = Inr [(V4 0x08080808, 0)] \<and>
   \<not> list_ex (\<lambda>(a, l). same_top_bits l a (V4 0x08080808)) default_blocked"
proof -
  let ?g = "ssrf_new plain_nets default_ssrf_config"
  have adm: "address_admitted plain_nets ?g ip \<longleftrightarrow>
      \<not> list_ex (\<lambda>(a, l). same_top_bits l a ip) default_blocked" for ip
    using plain.in_nets_default [OF default_nets_wf(1), of ip]
    by (simp add: address_admitted_def ip_admitted_def plain.new_nets default_ssrf_config_def
        in_nets_def)
  have "parse_ip ''dns.test'' = None" by (simp add: parse_ip_eval)
  then have r: "snd (resolve plain_nets ?g (\<lambda>_. Inr [V4 0x7F000001, V4 0x08080808]) ''dns.test'' 0) =
      Inr [(V4 0x08080808, 0)]"
    by (simp add: resolve_cases adm canonicalise_def default_blocked_def)
  have "sf_mode default_ssrf_config = Strict" "sf_extra_allowed_cidrs default_ssrf_config = []"
    by (simp_all add: default_ssrf_config_def)
  with r resolve_strict_safe [OF plain.ip_nets_axioms, where cfg = default_ssrf_config
      and dns = "\<lambda>_. Inr [V4 0x7F000001, V4 0x08080808]" and host = "''dns.test''" and port = 0]
  show ?thesis by (simp add: in_nets_def)
qed

text \<open>
  An address literal cannot be disguised: the IPv4-mapped IPv6 form of an IPv4 address gets the
  very answer, and the very metrics, of the IPv4 address, whatever the policy.
\<close>

theorem check_ip_mapped:
  "check_ip N g (V6 (to_ipv6_mapped a)) = check_ip N g (V4 a) \<and>
   snd (check_ip N g (V4 a)) =
     (if ip_admitted N g (V4 a) then Inr (V4 a) else Inl (SsrfBlocked (V4 a)))"
proof -
  have "canonicalise (V6 (to_ipv6_mapped a)) = canonicalise (V4 a)"
    by (simp add: canonicalise_def)
  then show ?thesis
    using check_ip_cases [of N g "V4 a"]
    by (simp add: check_ip_def [of N g "V6 (to_ipv6_mapped a)"] check_ip_def [of N g "V4 a"]
        address_admitted_def canonicalise_def is_ipv6_def)
qed

text \<open>
  In permissive mode the operator's extra blocked ranges have no effect: whatever they are, the
  guard resolves every host as if there were none (the validator's warning suggests adding them).
\<close>

theorem permissive_ignores_extra_blocked:
  assumes "sf_mode cfg = Permissive private_ok"
  shows "resolve N (ssrf_new N (cfg\<lparr>sf_extra_blocked_cidrs := nets\<rparr>)) dns host port =
    resolve N (ssrf_new N cfg) dns host port"
proof (rule resolve_cong)
  show "evaluate N (ssrf_new N (cfg\<lparr>sf_extra_blocked_cidrs := nets\<rparr>)) = evaluate N (ssrf_new N cfg)"
    using assms by (intro ext) (simp add: evaluate_def ssrf_new_def)
  show "sg_allow_ipv6 (ssrf_new N (cfg\<lparr>sf_extra_blocked_cidrs := nets\<rparr>)) =
      sg_allow_ipv6 (ssrf_new N cfg)"
    by (simp add: ssrf_new_def)
qed

lemma permissive_ignores_extra_blocked_witness:
  "snd (resolve plain_nets
      (ssrf_new plain_nets (default_ssrf_config\<lparr>sf_mode := Permissive True,
         sf_extra_blocked_cidrs := [(V4 0x0A000000, 8)]\<rparr>))
      (\<lambda>_. Inl ''unused'') ''10.0.0.1'' 80) = Inr [(V4 0x0A000001, 80)]"
proof -
  let ?cfg = "default_ssrf_config\<lparr>sf_mode := Permissive True\<rparr>"
  have "parse_ip ''10.0.0.1'' = Some (V4 0x0A000001)" by (simp add: parse_ip_eval)
  then have "snd (resolve plain_nets (ssrf_new plain_nets ?cfg) (\<lambda>_. Inl ''unused'') ''10.0.0.1'' 80) =
      Inr [(V4 0x0A000001, 80)]"
    by (simp add: resolve_cases address_admitted_def ip_admitted_def canonicalise_def is_ipv6_def
        plain.new_nets)
  with permissive_ignores_extra_blocked [of ?cfg True plain_nets "[(V4 0x0A000000, 8)]"]
  show ?thesis by simp
qed

end
