(* ===== verification/Dash_Map.thy ===== *)
theory Dash_Map
  imports Prelude
begin

text \<open>
  The concurrent map of the crate \<open>dashmap\<close>, a parameter of the components that keep one: a record
  of its operations, with the documented laws in the locale \<open>dash_map\<close>. \<open>dm_keys\<close> is the order in
  which it iterates, about which nothing is assumed but that every key appears once. \<open>retain\<close> calls
  the closure of the code on every entry; a closure that counts is one with a state.
\<close>

record ('m, 'k, 'v) dash_lib =
  dm_empty :: 'm
  dm_get :: "'m \<Rightarrow> 'k \<Rightarrow> 'v option"
  dm_insert :: "'m \<Rightarrow> 'k \<Rightarrow> 'v \<Rightarrow> 'm"
  dm_remove :: "'m \<Rightarrow> 'k \<Rightarrow> 'm"
  dm_keys :: "'m \<Rightarrow> 'k list"

definition dm_len :: "('m, 'k, 'v) dash_lib \<Rightarrow> 'm \<Rightarrow> nat" where
  "dm_len D m = length (dm_keys D m)"

definition dm_contains :: "('m, 'k, 'v) dash_lib \<Rightarrow> 'm \<Rightarrow> 'k \<Rightarrow> bool" where
  "dm_contains D m k \<longleftrightarrow> dm_get D m k \<noteq> None"

fun dm_retain_from ::
  "('m, 'k, 'v) dash_lib \<Rightarrow> ('s \<Rightarrow> 'v \<Rightarrow> bool \<times> 's) \<Rightarrow> 'k list \<Rightarrow> 's \<Rightarrow> 'm \<Rightarrow> 'm" where
  "dm_retain_from D f [] s m = m"
| "dm_retain_from D f (k # ks) s m =
     (case dm_get D m k of
        None \<Rightarrow> dm_retain_from D f ks s m
      | Some v \<Rightarrow>
          (case f s v of
             (keep, s') \<Rightarrow> dm_retain_from D f ks s' (if keep then m else dm_remove D m k)))"

definition dm_retain ::
  "('m, 'k, 'v) dash_lib \<Rightarrow> ('s \<Rightarrow> 'v \<Rightarrow> bool \<times> 's) \<Rightarrow> 's \<Rightarrow> 'm \<Rightarrow> 'm" where
  "dm_retain D f s m = dm_retain_from D f (dm_keys D m) s m"

locale dash_map =
  fixes D :: "('m, 'k, 'v) dash_lib"
  assumes get_empty: "dm_get D (dm_empty D) k = None"
    and get_insert: "dm_get D (dm_insert D m k v) k' = (if k' = k then Some v else dm_get D m k')"
    and get_remove: "dm_get D (dm_remove D m k) k' = (if k' = k then None else dm_get D m k')"
    and keys_distinct: "distinct (dm_keys D m)"
    and keys_dom: "set (dm_keys D m) = dom (dm_get D m)"
begin

lemma len_dom: "dm_len D m = card (dom (dm_get D m))"
  using keys_distinct [of m] keys_dom [of m] by (simp add: dm_len_def flip: distinct_card)

lemma finite_dom: "finite (dom (dm_get D m))"
  using keys_dom [of m] by (metis List.finite_set)

lemma dom_insert: "dom (dm_get D (dm_insert D m k v)) = insert k (dom (dm_get D m))"
  by (auto simp: dom_def get_insert)

lemma dom_remove: "dom (dm_get D (dm_remove D m k)) = dom (dm_get D m) - {k}"
  by (auto simp: dom_def get_remove)

lemma len_insert:
  "dm_len D (dm_insert D m k v) = (if dm_contains D m k then dm_len D m else dm_len D m + 1)"
  using finite_dom [of m] by (auto simp: len_dom dom_insert dm_contains_def card_insert_if domIff)

lemma len_remove:
  "dm_len D (dm_remove D m k) = (if dm_contains D m k then dm_len D m - 1 else dm_len D m)"
  using finite_dom [of m] by (auto simp: len_dom dom_remove dm_contains_def domIff card_Diff_singleton_if)

lemma len_empty: "dm_len D (dm_empty D) = 0"
  by (simp add: len_dom dom_def get_empty)

lemma contains_insert: "dm_contains D (dm_insert D m k v) k' \<longleftrightarrow> k' = k \<or> dm_contains D m k'"
  by (simp add: dm_contains_def get_insert)

lemma contains_remove: "dm_contains D (dm_remove D m k) k' \<longleftrightarrow> k' \<noteq> k \<and> dm_contains D m k'"
  by (simp add: dm_contains_def get_remove)

lemma len_positive: "dm_contains D m k \<Longrightarrow> 0 < dm_len D m"
  using finite_dom [of m] by (auto simp: len_dom dm_contains_def card_gt_0_iff)

end

subsection \<open>An implementation by an association list\<close>

typedef ('k, 'v) alist_map = "{xs :: ('k \<times> 'v) list. distinct (map fst xs)}"
  by (rule exI [of _ "[]"]) simp

setup_lifting type_definition_alist_map

lift_definition am_empty :: "('k, 'v) alist_map" is "[]" by simp

lift_definition am_get :: "('k, 'v) alist_map \<Rightarrow> 'k \<Rightarrow> 'v option" is map_of .

lift_definition am_insert :: "('k, 'v) alist_map \<Rightarrow> 'k \<Rightarrow> 'v \<Rightarrow> ('k, 'v) alist_map" is
  "\<lambda>xs k v. filter (\<lambda>e. fst e \<noteq> k) xs @ [(k, v)]"
  by (auto simp: distinct_map inj_on_def)

lift_definition am_remove :: "('k, 'v) alist_map \<Rightarrow> 'k \<Rightarrow> ('k, 'v) alist_map" is
  "\<lambda>xs k. filter (\<lambda>e. fst e \<noteq> k) xs"
  by (auto simp: distinct_map inj_on_def)

lift_definition am_keys :: "('k, 'v) alist_map \<Rightarrow> 'k list" is "map fst" .

definition alist_dash :: "(('k, 'v) alist_map, 'k, 'v) dash_lib" where
  "alist_dash =
     \<lparr>dm_empty = am_empty, dm_get = am_get, dm_insert = am_insert, dm_remove = am_remove,
      dm_keys = am_keys\<rparr>"

lemma map_of_filter_neq:
  "map_of (filter (\<lambda>e. fst e \<noteq> k) xs) k' = (if k' = k then None else map_of xs k')"
  by (induction xs) auto

lemma map_of_snoc:
  "map_of (filter (\<lambda>e. fst e \<noteq> k) xs @ [(k, v)]) k' = (if k' = k then Some v else map_of xs k')"
  by (simp add: map_add_def map_of_filter_neq split: option.splits)

lemma am_get_empty: "am_get am_empty k = None"
  by transfer simp

lemma am_get_insert: "am_get (am_insert m k v) k' = (if k' = k then Some v else am_get m k')"
  by transfer (rule map_of_snoc)

lemma am_get_remove: "am_get (am_remove m k) k' = (if k' = k then None else am_get m k')"
  by transfer (rule map_of_filter_neq)

lemma am_keys_distinct: "distinct (am_keys m)"
  by transfer simp

lemma am_keys_dom: "set (am_keys m) = dom (am_get m)"
  by transfer (simp add: dom_map_of_conv_image_fst)

interpretation alist: dash_map alist_dash
  by unfold_locales
     (simp_all add: alist_dash_def am_get_empty am_get_insert am_get_remove am_keys_distinct
       am_keys_dom)

lemma am_keys_empty: "am_keys am_empty = []"
  by transfer simp

lemma am_keys_insert:
  "am_keys (am_insert m k v) = filter (\<lambda>x. x \<noteq> k) (am_keys m) @ [k]"
  by transfer (simp add: filter_map comp_def)

lemma am_keys_remove: "am_keys (am_remove m k) = filter (\<lambda>x. x \<noteq> k) (am_keys m)"
  by transfer (simp add: filter_map comp_def)

lemmas alist_dash_eval =
  alist_dash_def am_get_empty am_get_insert am_get_remove am_keys_empty am_keys_insert am_keys_remove

end
