(* ===== verification/Circuit.thy ===== *)
theory Circuit
  imports Config Telemetry Dash_Map
begin

text \<open>
  \<open>corx-core/src/policy/circuit.rs\<close>: the per-host circuit breaker. The host table is the \<open>dashmap\<close>
  parameter \<open>D\<close>; \<open>now\<close> is what \<open>Instant::now()\<close> answers. Operations return the metrics they record,
  their result and the new table. Each operation holds the shard lock of one host entry while it
  changes it, so concurrent calls interleave at the granularity of \<open>cb_step\<close> below.
\<close>

subsection \<open>One host\<close>

datatype circuit_state =
    Closed
  | Open_Until (open_until: instant)
  | Half_Open (probes: u32) (since: instant)

record host_circuit =
  hc_state :: circuit_state
  hc_failures :: "instant list"

definition host_circuit_new :: host_circuit where
  "host_circuit_new = \<lparr>hc_state = Closed, hc_failures = []\<rparr>"

definition is_closed :: "host_circuit \<Rightarrow> bool" where
  "is_closed c \<longleftrightarrow> hc_state c = Closed"

definition is_idle_closed :: "host_circuit \<Rightarrow> bool" where
  "is_idle_closed c \<longleftrightarrow> hc_state c = Closed \<and> hc_failures c = []"

definition is_expired_open :: "instant \<Rightarrow> host_circuit \<Rightarrow> bool" where
  "is_expired_open now c \<longleftrightarrow>
     (case hc_state c of Open_Until until \<Rightarrow> until \<le> now | _ \<Rightarrow> False)"

definition transition_on_check ::
  "host_circuit \<Rightarrow> instant \<Rightarrow> u32 \<Rightarrow> duration \<Rightarrow> bool \<times> host_circuit" where
  "transition_on_check entry now half_open_max open_duration =
     (case hc_state entry of
        Closed \<Rightarrow> (True, entry)
      | Open_Until until \<Rightarrow>
          (if until \<le> now then (True, entry\<lparr>hc_state := Half_Open 1 now\<rparr>) else (False, entry))
      | Half_Open n t \<Rightarrow>
          (if n < half_open_max then (True, entry\<lparr>hc_state := Half_Open (sat_add n 1) t\<rparr>)
           else if open_duration \<le> now - t then (True, entry\<lparr>hc_state := Half_Open 1 now\<rparr>)
           else (False, entry)))"

definition u32_try_from :: "nat \<Rightarrow> u32 option" where
  "u32_try_from n = (if n < 2 ^ 32 then Some (of_nat n) else None)"

definition record_failure_on ::
  "host_circuit \<Rightarrow> instant \<Rightarrow> duration \<Rightarrow> u32 \<Rightarrow> duration \<Rightarrow> bool \<times> host_circuit" where
  "record_failure_on entry now window threshold open_duration =
     (let failures = filter (\<lambda>t. now - t \<le> window) (hc_failures entry) @ [now];
          failure_count = (case u32_try_from (length failures) of Some n \<Rightarrow> n | None \<Rightarrow> - 1);
          half_open = (case hc_state entry of Half_Open _ _ \<Rightarrow> True | _ \<Rightarrow> False)
      in if half_open \<or> threshold \<le> failure_count
         then (True, \<lparr>hc_state = Open_Until (now + open_duration), hc_failures = []\<rparr>)
         else (False, entry\<lparr>hc_failures := failures\<rparr>))"

subsection \<open>The breaker\<close>

record 'm circuit_breaker =
  br_enabled :: bool
  br_failure_threshold :: u32
  br_window :: duration
  br_open_duration :: duration
  br_half_open_max :: u32
  br_count_5xx :: bool
  br_max_hosts :: usize
  br_hosts :: 'm

type_synonym 'm hosts_lib = "('m, string, host_circuit) dash_lib"

definition circuit_from_config :: "'m hosts_lib \<Rightarrow> circuit_breaker_config \<Rightarrow> 'm circuit_breaker" where
  "circuit_from_config D cfg =
     \<lparr>br_enabled = cb_enabled cfg,
      br_failure_threshold = max (cb_failure_threshold cfg) 1,
      br_window = cb_window cfg, br_open_duration = cb_open_duration cfg,
      br_half_open_max = max (cb_half_open_max cfg) 1,
      br_count_5xx = cb_count_5xx cfg,
      br_max_hosts = max (cb_max_hosts cfg) 1,
      br_hosts = dm_empty D\<rparr>"

definition tracked_hosts :: "'m hosts_lib \<Rightarrow> 'm circuit_breaker \<Rightarrow> nat" where
  "tracked_hosts D cb = dm_len D (br_hosts cb)"

definition evict_matching :: "'m hosts_lib \<Rightarrow> nat \<Rightarrow> (host_circuit \<Rightarrow> bool) \<Rightarrow> 'm \<Rightarrow> 'm" where
  "evict_matching D limit pred hosts =
     (let excess = dm_len D hosts - limit
      in if excess = 0 then hosts
         else dm_retain D (\<lambda>removed circuit.
                if excess \<le> removed \<or> \<not> pred circuit then (True, removed)
                else (False, removed + 1)) 0 hosts)"

definition evict_if_needed :: "'m hosts_lib \<Rightarrow> instant \<Rightarrow> 'm circuit_breaker \<Rightarrow> 'm circuit_breaker" where
  "evict_if_needed D now cb =
     (let limit = unat (br_max_hosts cb); m = br_hosts cb
      in if dm_len D m \<le> limit then cb
         else
           (let m = evict_matching D limit is_idle_closed m;
                m = (if limit < dm_len D m then evict_matching D limit (is_expired_open now) m else m);
                m = (if limit < dm_len D m then evict_matching D limit is_closed m else m)
            in cb\<lparr>br_hosts := m\<rparr>))"

definition entry_or_new :: "'m hosts_lib \<Rightarrow> 'm \<Rightarrow> string \<Rightarrow> host_circuit" where
  "entry_or_new D m host = (case dm_get D m host of Some c \<Rightarrow> c | None \<Rightarrow> host_circuit_new)"

definition check_circuit ::
  "'m hosts_lib \<Rightarrow> instant \<Rightarrow> string \<Rightarrow> 'm circuit_breaker \<Rightarrow>
     metric list \<times> unit res \<times> 'm circuit_breaker" where
  "check_circuit D now host cb =
     (if \<not> br_enabled cb then ([], Inr (), cb)
      else
        (let (allowed, entry) =
           transition_on_check (entry_or_new D (br_hosts cb) host) now
             (br_half_open_max cb) (br_open_duration cb);
             cb = cb\<lparr>br_hosts := dm_insert D (br_hosts cb) host entry\<rparr>
         in if allowed then ([], Inr (), evict_if_needed D now cb)
            else ([Count CIRCUIT_REJECTS [] 1], Inl (CircuitOpen host), cb)))"

definition record_success :: "'m hosts_lib \<Rightarrow> string \<Rightarrow> 'm circuit_breaker \<Rightarrow> 'm circuit_breaker" where
  "record_success D host cb =
     (if \<not> br_enabled cb then cb
      else case dm_get D (br_hosts cb) host of
        None \<Rightarrow> cb
      | Some entry \<Rightarrow>
          cb\<lparr>br_hosts := dm_insert D (br_hosts cb) host
               (entry\<lparr>hc_failures := [], hc_state := Closed\<rparr>)\<rparr>)"

definition record_failure ::
  "'m hosts_lib \<Rightarrow> instant \<Rightarrow> string \<Rightarrow> 'm circuit_breaker \<Rightarrow> metric list \<times> 'm circuit_breaker" where
  "record_failure D now host cb =
     (if \<not> br_enabled cb then ([], cb)
      else
        (let (opened, entry) =
           record_failure_on (entry_or_new D (br_hosts cb) host) now (br_window cb)
             (br_failure_threshold cb) (br_open_duration cb);
             cb = cb\<lparr>br_hosts := dm_insert D (br_hosts cb) host entry\<rparr>
         in (if opened then [Count CIRCUIT_OPENS [] 1] else [], evict_if_needed D now cb)))"

subsection \<open>The hop guard\<close>

text \<open>
  \<open>CircuitHop\<close>: \<open>hop_success\<close> and \<open>hop_failure\<close> settle and consume it; \<open>hop_drop\<close> is its \<open>Drop\<close>,
  which also runs, as a no-op, after a settlement.
\<close>

record circuit_hop =
  hop_host :: string
  hop_settled :: bool

definition hop_admit ::
  "'m hosts_lib \<Rightarrow> instant \<Rightarrow> string \<Rightarrow> 'm circuit_breaker \<Rightarrow>
     metric list \<times> circuit_hop res \<times> 'm circuit_breaker" where
  "hop_admit D now host cb =
     (case check_circuit D now host cb of
        (ms, r, cb') \<Rightarrow> (ms, bind_res r (\<lambda>_. Inr \<lparr>hop_host = host, hop_settled = False\<rparr>), cb'))"

definition hop_drop ::
  "'m hosts_lib \<Rightarrow> instant \<Rightarrow> circuit_hop \<Rightarrow> 'm circuit_breaker \<Rightarrow> metric list \<times> 'm circuit_breaker" where
  "hop_drop D now hop cb =
     (if \<not> hop_settled hop then record_failure D now (hop_host hop) cb else ([], cb))"

definition hop_success ::
  "'m hosts_lib \<Rightarrow> instant \<Rightarrow> circuit_hop \<Rightarrow> 'm circuit_breaker \<Rightarrow> metric list \<times> 'm circuit_breaker" where
  "hop_success D now hop cb =
     hop_drop D now (hop\<lparr>hop_settled := True\<rparr>) (record_success D (hop_host hop) cb)"

definition hop_failure ::
  "'m hosts_lib \<Rightarrow> instant \<Rightarrow> circuit_hop \<Rightarrow> 'm circuit_breaker \<Rightarrow> metric list \<times> 'm circuit_breaker" where
  "hop_failure D now hop cb =
     (let (ms, cb) = record_failure D now (hop_host hop) cb;
          (ms', cb) = hop_drop D now (hop\<lparr>hop_settled := True\<rparr>) cb
      in (ms @ ms', cb))"

subsection \<open>The breaker as a state machine\<close>

text \<open>
  The abstract state is the table of hosts. \<open>cb_step cb now\<close> is one atomic change under an entry
  lock at the instant \<open>now\<close>; \<open>cb_reach\<close> are the tables any interleaving of such changes reaches
  while time moves on. The breaker \<open>cb\<close> gives the parameters.
\<close>

type_synonym host_table = "string \<Rightarrow> host_circuit option"

definition entry_of :: "host_table \<Rightarrow> string \<Rightarrow> host_circuit" where
  "entry_of M h = (case M h of Some c \<Rightarrow> c | None \<Rightarrow> host_circuit_new)"

inductive cb_step :: "'m circuit_breaker \<Rightarrow> instant \<Rightarrow> host_table \<Rightarrow> host_table \<Rightarrow> bool"
  for cb :: "'m circuit_breaker" and now :: instant where
  step_check: "cb_step cb now M
      (M(h \<mapsto> snd (transition_on_check (entry_of M h) now (br_half_open_max cb) (br_open_duration cb))))"
| step_success: "M h = Some c \<Longrightarrow> cb_step cb now M (M(h \<mapsto> c\<lparr>hc_failures := [], hc_state := Closed\<rparr>))"
| step_failure: "cb_step cb now M
      (M(h \<mapsto> snd (record_failure_on (entry_of M h) now (br_window cb) (br_failure_threshold cb)
             (br_open_duration cb))))"
| step_evict: "M h = Some c \<Longrightarrow> is_closed c \<or> is_expired_open now c \<Longrightarrow> cb_step cb now M (M(h := None))"

inductive cb_reach :: "'m circuit_breaker \<Rightarrow> instant \<Rightarrow> host_table \<Rightarrow> bool"
  for cb :: "'m circuit_breaker" where
  reach_start: "cb_reach cb 0 Map.empty"
| reach_step: "cb_reach cb t M \<Longrightarrow> t \<le> now \<Longrightarrow> cb_step cb now M M' \<Longrightarrow> cb_reach cb now M'"

definition host_inv :: "'m circuit_breaker \<Rightarrow> instant \<Rightarrow> host_circuit \<Rightarrow> bool" where
  "host_inv cb t c \<longleftrightarrow>
     (case hc_state c of
        Closed \<Rightarrow> True
      | Open_Until until \<Rightarrow> until \<le> t + br_open_duration cb
      | Half_Open n s \<Rightarrow> s \<le> t \<and> 1 \<le> n \<and> n \<le> br_half_open_max cb) \<and>
     length (hc_failures c) < unat (br_failure_threshold cb) \<and>
     (\<forall>f \<in> set (hc_failures c). f \<le> t)"

definition params_ok :: "'m circuit_breaker \<Rightarrow> bool" where
  "params_ok cb \<longleftrightarrow> 1 \<le> br_failure_threshold cb \<and> 1 \<le> br_half_open_max cb"

lemma from_config_params: "params_ok (circuit_from_config D cfg)"
  by (simp add: params_ok_def circuit_from_config_def)

lemma host_inv_new: "params_ok cb \<Longrightarrow> host_inv cb t host_circuit_new"
  by (simp add: host_inv_def host_circuit_new_def params_ok_def word_le_nat_alt)

lemma host_inv_closed: "params_ok cb \<Longrightarrow> host_inv cb t (c\<lparr>hc_failures := [], hc_state := Closed\<rparr>)"
  by (simp add: host_inv_def params_ok_def word_le_nat_alt)

lemma host_inv_later: "host_inv cb t c \<Longrightarrow> t \<le> t' \<Longrightarrow> host_inv cb t' c"
  by (auto simp: host_inv_def split: circuit_state.splits)

lemma sat_add_one_le:
  assumes "n < (k :: u32)"
  shows "sat_add n 1 \<le> k \<and> 1 \<le> sat_add n 1"
  using assms unsigned_less [of k]
  by (simp add: word_le_nat_alt word_less_nat_alt unat_sat_add)

lemma host_inv_check:
  assumes "params_ok cb" "host_inv cb t c" "t \<le> now"
  shows "host_inv cb now (snd (transition_on_check c now (br_half_open_max cb) (br_open_duration cb)))"
  using assms sat_add_one_le [of _ "br_half_open_max cb"]
  by (auto simp: transition_on_check_def host_inv_def params_ok_def split: circuit_state.splits)

lemma u32_count_less:
  assumes "\<not> threshold \<le> (case u32_try_from n of Some k \<Rightarrow> k | None \<Rightarrow> - 1)"
  shows "n < unat threshold"
proof (cases "n < 2 ^ 32")
  case True
  then have "(of_nat n :: u32) < threshold" using assms by (simp add: u32_try_from_def)
  with True show ?thesis
    by (simp add: word_less_nat_alt unsigned_of_nat take_bit_nat_eq_self)
next
  case False
  then have "\<not> threshold \<le> - 1" using assms by (simp add: u32_try_from_def)
  then show ?thesis by simp
qed

lemma host_inv_failure:
  assumes "params_ok cb" "host_inv cb t c" "t \<le> now"
  shows "host_inv cb now (snd (record_failure_on c now (br_window cb) (br_failure_threshold cb)
           (br_open_duration cb)))"
proof (cases "fst (record_failure_on c now (br_window cb) (br_failure_threshold cb) (br_open_duration cb))")
  case True
  with assms(1) show ?thesis
    by (auto simp: record_failure_on_def Let_def host_inv_def params_ok_def word_le_nat_alt
        split: if_splits)
next
  case False
  then have "length (filter (\<lambda>t. now - t \<le> br_window cb) (hc_failures c) @ [now])
      < unat (br_failure_threshold cb)"
    by (intro u32_count_less) (auto simp: record_failure_on_def Let_def split: if_splits)
  with False assms(2,3) show ?thesis
    by (auto simp: record_failure_on_def Let_def host_inv_def split: if_splits circuit_state.splits)
qed

lemma step_inv:
  assumes "cb_step cb now M M'" "params_ok cb" "t \<le> now" "\<And>h c. M h = Some c \<Longrightarrow> host_inv cb t c"
    "M' h = Some c"
  shows "host_inv cb now c"
proof -
  have entry: "host_inv cb t (entry_of M k)" for k
    using assms(2,4) host_inv_new by (auto simp: entry_of_def split: option.split)
  have old: "host_inv cb now d" if "M k = Some d" for k d
    using assms(3,4) that host_inv_later by blast
  from assms(1) show ?thesis
  proof (cases rule: cb_step.cases)
    case (step_check k)
    with assms(5) old host_inv_check [OF assms(2) entry assms(3)] show ?thesis
      by (auto split: if_splits)
  next
    case (step_success k d)
    with assms(5) old host_inv_closed [OF assms(2)] show ?thesis
      by (auto split: if_splits)
  next
    case (step_failure k)
    with assms(5) old host_inv_failure [OF assms(2) entry assms(3)] show ?thesis
      by (auto split: if_splits)
  next
    case (step_evict k d)
    with assms(5) old show ?thesis by (auto split: if_splits)
  qed
qed

lemma reach_inv:
  assumes "cb_reach cb t M" "params_ok cb" "M h = Some c"
  shows "host_inv cb t c"
  using assms(1,3)
proof (induction arbitrary: h c)
  case reach_start
  then show ?case by simp
next
  case (reach_step t M now M')
  from step_inv [OF reach_step.hyps(3) assms(2) reach_step.hyps(2) reach_step.IH reach_step.prems]
  show ?case .
qed

lemma open_for_at_most:
  assumes "params_ok cb" "host_inv cb t c" "t + br_open_duration cb \<le> now"
  shows "fst (transition_on_check c now (br_half_open_max cb) (br_open_duration cb))"
  using assms by (auto simp: transition_on_check_def host_inv_def split: circuit_state.splits)

subsection \<open>The operations refine the machine\<close>

lemma evictable: "is_idle_closed c \<Longrightarrow> is_closed c"
  by (simp add: is_idle_closed_def is_closed_def)

context dash_map begin

lemma dm_get_insert_upd: "dm_get D (dm_insert D m k v) = (dm_get D m)(k \<mapsto> v)"
  by (rule ext) (simp add: get_insert)

lemma dm_get_remove_upd: "dm_get D (dm_remove D m k) = (dm_get D m)(k := None)"
  by (rule ext) (simp add: get_remove)

end

locale host_map = dash_map D for D :: "'m hosts_lib"
begin

lemma entry_of_get: "entry_or_new D m h = entry_of (dm_get D m) h"
  by (simp add: entry_or_new_def entry_of_def)

lemma retain_steps:
  assumes "\<And>r c. fst (f r c) \<or> is_closed c \<or> is_expired_open now c"
  shows "(cb_step cb now)\<^sup>*\<^sup>* (dm_get D m) (dm_get D (dm_retain_from D f ks s m))"
proof (induction ks arbitrary: s m)
  case Nil
  then show ?case by simp
next
  case (Cons k ks)
  show ?case
  proof (cases "dm_get D m k")
    case None
    with Cons.IH show ?thesis by simp
  next
    case (Some c)
    obtain keep s' where f: "f s c = (keep, s')" by (cases "f s c")
    show ?thesis
    proof (cases keep)
      case True
      with Some f Cons.IH show ?thesis by simp
    next
      case False
      with assms [of s c] f have "is_closed c \<or> is_expired_open now c" by simp
      with Some have "cb_step cb now (dm_get D m) (dm_get D (dm_remove D m k))"
        by (simp add: dm_get_remove_upd cb_step.step_evict)
      with Some f False Cons.IH show ?thesis
        by (auto intro: converse_rtranclp_into_rtranclp)
    qed
  qed
qed

lemma evict_matching_steps:
  assumes "\<And>c. pred c \<Longrightarrow> is_closed c \<or> is_expired_open now c"
  shows "(cb_step cb now)\<^sup>*\<^sup>* (dm_get D m) (dm_get D (evict_matching D limit pred m))"
proof -
  have "fst (if e \<le> r \<or> \<not> pred c then (True, r) else (False, r + 1)) \<or> is_closed c \<or> is_expired_open now c"
    for e r :: nat and c
    using assms [of c] by auto
  then show ?thesis
    by (simp add: evict_matching_def Let_def dm_retain_def retain_steps)
qed

lemma evict_if_needed_steps:
  "(cb_step cb now)\<^sup>*\<^sup>* (dm_get D (br_hosts b)) (dm_get D (br_hosts (evict_if_needed D now b)))"
proof -
  let ?limit = "unat (br_max_hosts b)"
  let ?m1 = "evict_matching D ?limit is_idle_closed (br_hosts b)"
  let ?m2 = "if ?limit < dm_len D ?m1 then evict_matching D ?limit (is_expired_open now) ?m1 else ?m1"
  let ?m3 = "if ?limit < dm_len D ?m2 then evict_matching D ?limit is_closed ?m2 else ?m2"
  have "(cb_step cb now)\<^sup>*\<^sup>* (dm_get D (br_hosts b)) (dm_get D ?m1)"
    by (intro evict_matching_steps) (simp add: evictable)
  moreover have "(cb_step cb now)\<^sup>*\<^sup>* (dm_get D ?m1) (dm_get D ?m2)"
    using evict_matching_steps [of "is_expired_open now" now cb ?m1 ?limit] by simp
  moreover have "(cb_step cb now)\<^sup>*\<^sup>* (dm_get D ?m2) (dm_get D ?m3)"
    using evict_matching_steps [of is_closed now cb ?m2 ?limit] by simp
  ultimately have "(cb_step cb now)\<^sup>*\<^sup>* (dm_get D (br_hosts b)) (dm_get D ?m3)"
    by (meson rtranclp_trans)
  then show ?thesis by (simp add: evict_if_needed_def Let_def)
qed

text \<open>Each operation is the change of one entry followed by evictions.\<close>

lemma check_steps:
  assumes "check_circuit D now h cb = (ms, r, cb')"
  shows "(cb_step cb now)\<^sup>*\<^sup>* (dm_get D (br_hosts cb)) (dm_get D (br_hosts cb'))"
proof (cases "br_enabled cb")
  case False
  with assms show ?thesis by (simp add: check_circuit_def)
next
  case True
  let ?t = "transition_on_check (entry_or_new D (br_hosts cb) h) now (br_half_open_max cb) (br_open_duration cb)"
  let ?m = "dm_insert D (br_hosts cb) h (snd ?t)"
  have "cb_step cb now (dm_get D (br_hosts cb)) (dm_get D ?m)"
    by (simp add: dm_get_insert_upd entry_of_get cb_step.step_check)
  moreover have "(cb_step cb now)\<^sup>*\<^sup>* (dm_get D ?m) (dm_get D (br_hosts cb'))"
    using assms True evict_if_needed_steps [of cb now "cb\<lparr>br_hosts := ?m\<rparr>"]
    by (auto simp: check_circuit_def Let_def case_prod_beta split: if_splits)
  ultimately show ?thesis by (rule converse_rtranclp_into_rtranclp)
qed

lemma success_steps:
  "(cb_step cb now)\<^sup>*\<^sup>* (dm_get D (br_hosts cb)) (dm_get D (br_hosts (record_success D h cb)))"
  by (auto simp: record_success_def dm_get_insert_upd cb_step.step_success split: option.split)

lemma failure_steps:
  "(cb_step cb now)\<^sup>*\<^sup>* (dm_get D (br_hosts cb)) (dm_get D (br_hosts (snd (record_failure D now h cb))))"
proof (cases "br_enabled cb")
  case False
  then show ?thesis by (simp add: record_failure_def)
next
  case True
  let ?t = "record_failure_on (entry_or_new D (br_hosts cb) h) now (br_window cb)
      (br_failure_threshold cb) (br_open_duration cb)"
  let ?m = "dm_insert D (br_hosts cb) h (snd ?t)"
  have "cb_step cb now (dm_get D (br_hosts cb)) (dm_get D ?m)"
    by (simp add: dm_get_insert_upd entry_of_get cb_step.step_failure)
  moreover have "(cb_step cb now)\<^sup>*\<^sup>* (dm_get D ?m) (dm_get D (br_hosts (snd (record_failure D now h cb))))"
    using True evict_if_needed_steps [of cb now "cb\<lparr>br_hosts := ?m\<rparr>"]
    by (simp add: record_failure_def Let_def case_prod_beta)
  ultimately show ?thesis by (rule converse_rtranclp_into_rtranclp)
qed

text \<open>What an eviction pass achieves: it removes its excess, or every entry it may remove.\<close>

lemma retain_from_keeps:
  "k \<notin> set ks \<Longrightarrow> dm_get D (dm_retain_from D f ks s m) k = dm_get D m k"
  by (induction ks arbitrary: s m) (auto simp: get_remove split: option.splits prod.splits)

lemma retain_from_sub:
  "dm_get D (dm_retain_from D f ks s m) k = Some c \<Longrightarrow> dm_get D m k = Some c"
proof (induction ks arbitrary: s m)
  case Nil
  then show ?case by simp
next
  case (Cons k' ks)
  have "\<exists>s' m'. dm_retain_from D f (k' # ks) s m = dm_retain_from D f ks s' m' \<and>
      (m' = m \<or> m' = dm_remove D m k')"
  proof (cases "dm_get D m k'")
    case None
    then show ?thesis by auto
  next
    case (Some v)
    then show ?thesis by (cases "f s v"; cases "fst (f s v)") auto
  qed
  then obtain s' m' where eq: "dm_retain_from D f (k' # ks) s m = dm_retain_from D f ks s' m'"
    and m': "m' = m \<or> m' = dm_remove D m k'"
    by blast
  from Cons.prems have "dm_get D m' k = Some c"
    unfolding eq by (rule Cons.IH)
  with m' show ?case by (auto simp: get_remove split: if_splits)
qed

lemma retain_from_len: "dm_len D (dm_retain_from D f ks s m) \<le> dm_len D m"
proof -
  have "dom (dm_get D (dm_retain_from D f ks s m)) \<subseteq> dom (dm_get D m)"
    using retain_from_sub by fast
  then show ?thesis by (simp add: len_dom card_mono finite_dom)
qed

definition evictor :: "nat \<Rightarrow> (host_circuit \<Rightarrow> bool) \<Rightarrow> nat \<Rightarrow> host_circuit \<Rightarrow> bool \<times> nat" where
  "evictor excess pred removed circuit =
     (if excess \<le> removed \<or> \<not> pred circuit then (True, removed) else (False, removed + 1))"

lemma evictor_retain:
  assumes "distinct ks" "r \<le> excess"
  shows "dm_len D (dm_retain_from D (evictor excess pred) ks r m) + (excess - r) \<le> dm_len D m \<or>
    (\<forall>k \<in> set ks. \<forall>c. dm_get D (dm_retain_from D (evictor excess pred) ks r m) k = Some c \<longrightarrow> \<not> pred c)"
  using assms
proof (induction ks arbitrary: r m)
  case Nil
  then show ?case by simp
next
  case (Cons k ks)
  show ?case
  proof (cases "dm_get D m k")
    case None
    then show ?thesis
      using Cons.IH [of r m] Cons.prems retain_from_sub [of "evictor excess pred" "k # ks" r m k] by auto
  next
    case (Some c)
    consider "excess = r" | "r < excess" "\<not> pred c" | "r < excess" "pred c"
      using Cons.prems(2) by fastforce
    then show ?thesis
    proof cases
      case 1
      then show ?thesis using retain_from_len [of "evictor excess pred" "k # ks" r m] by simp
    next
      case 2
      then have "evictor excess pred r c = (True, r)" by (simp add: evictor_def)
      then show ?thesis
        using Cons.IH [of r m] Cons.prems Some retain_from_keeps [of k ks "evictor excess pred" r m] 2
        by auto
    next
      case 3
      let ?m = "dm_remove D m k"
      have "dm_len D ?m + 1 = dm_len D m"
        using Some len_remove [of m k] len_positive [of m k] by (simp add: dm_contains_def)
      moreover have "dm_get D (dm_retain_from D (evictor excess pred) ks (r + 1) ?m) k = None"
        using Cons.prems(1) by (simp add: retain_from_keeps get_remove)
      moreover have "evictor excess pred r c = (False, r + 1)" using 3 by (simp add: evictor_def)
      ultimately show ?thesis
        using Cons.IH [of "r + 1" ?m] Cons.prems 3 Some by auto
    qed
  qed
qed

lemma evict_matching_eq:
  "evict_matching D limit pred m =
     (if dm_len D m - limit = 0 then m
      else dm_retain_from D (evictor (dm_len D m - limit) pred) (dm_keys D m) 0 m)"
  by (simp add: evict_matching_def Let_def dm_retain_def evictor_def [abs_def])

lemma evict_matching_sub:
  "dm_get D (evict_matching D limit pred m) k = Some c \<Longrightarrow> dm_get D m k = Some c"
  by (auto simp: evict_matching_eq split: if_splits dest: retain_from_sub)

lemma evict_matching_bound:
  "dm_len D (evict_matching D limit pred m) \<le> limit \<or>
   (\<forall>k c. dm_get D (evict_matching D limit pred m) k = Some c \<longrightarrow> \<not> pred c)"
proof (cases "dm_len D m - limit = 0")
  case True
  then show ?thesis by (simp add: evict_matching_eq)
next
  case False
  let ?m = "dm_retain_from D (evictor (dm_len D m - limit) pred) (dm_keys D m) 0 m"
  have "dm_len D ?m + (dm_len D m - limit) \<le> dm_len D m \<or>
      (\<forall>k \<in> set (dm_keys D m). \<forall>c. dm_get D ?m k = Some c \<longrightarrow> \<not> pred c)"
    using evictor_retain [OF keys_distinct, of 0 "dm_len D m - limit" pred m] by simp
  moreover have "k \<in> set (dm_keys D m)" if "dm_get D ?m k = Some c" for k c
    using retain_from_sub [OF that] keys_dom [of m] by auto
  ultimately show ?thesis using False by (auto simp: evict_matching_eq)
qed

lemma evict_if_needed_bound:
  "dm_len D (br_hosts (evict_if_needed D now cb)) \<le> unat (br_max_hosts cb) \<or>
   (\<forall>h c. dm_get D (br_hosts (evict_if_needed D now cb)) h = Some c \<longrightarrow>
      \<not> is_closed c \<and> \<not> is_expired_open now c)"
proof -
  define limit where "limit = unat (br_max_hosts cb)"
  define m1 where "m1 = evict_matching D limit is_idle_closed (br_hosts cb)"
  define m2 where "m2 = (if limit < dm_len D m1 then evict_matching D limit (is_expired_open now) m1 else m1)"
  define m3 where "m3 = (if limit < dm_len D m2 then evict_matching D limit is_closed m2 else m2)"
  have e: "br_hosts (evict_if_needed D now cb) = (if dm_len D (br_hosts cb) \<le> limit then br_hosts cb else m3)"
    by (simp add: evict_if_needed_def Let_def limit_def m1_def m2_def m3_def)
  have 2: "dm_len D m2 \<le> limit \<or> (\<forall>h c. dm_get D m2 h = Some c \<longrightarrow> \<not> is_expired_open now c)"
    unfolding m2_def using evict_matching_bound [of limit "is_expired_open now" m1] by auto
  have 3: "dm_len D m3 \<le> limit \<or> (\<forall>h c. dm_get D m3 h = Some c \<longrightarrow> \<not> is_closed c)"
    unfolding m3_def using evict_matching_bound [of limit is_closed m2] by auto
  have sub: "dm_get D m2 h = Some c" if "dm_get D m3 h = Some c" for h c
    using that evict_matching_sub [of limit is_closed m2] by (auto simp: m3_def split: if_splits)
  have "dm_len D m3 \<le> limit" if "dm_len D m2 \<le> limit"
    using that by (simp add: m3_def)
  with 2 3 sub have "dm_len D m3 \<le> limit \<or>
      (\<forall>h c. dm_get D m3 h = Some c \<longrightarrow> \<not> is_closed c \<and> \<not> is_expired_open now c)"
    by blast
  then show ?thesis unfolding e limit_def [symmetric] by simp
qed

end

interpretation alist_hosts: host_map alist_dash
  by unfold_locales

subsection \<open>Runs of one host\<close>

definition run_failures :: "duration \<Rightarrow> u32 \<Rightarrow> duration \<Rightarrow> instant list \<Rightarrow> host_circuit \<Rightarrow> host_circuit" where
  "run_failures window threshold open_duration ts c =
     fold (\<lambda>t c. snd (record_failure_on c t window threshold open_duration)) ts c"

fun run_checks :: "u32 \<Rightarrow> duration \<Rightarrow> instant list \<Rightarrow> host_circuit \<Rightarrow> bool list" where
  "run_checks half_open_max open_duration [] c = []"
| "run_checks half_open_max open_duration (t # ts) c =
     (let (allowed, c') = transition_on_check c t half_open_max open_duration
      in allowed # run_checks half_open_max open_duration ts c')"

text \<open>Failures inside one window accumulate while the host stays closed, then open it.\<close>

lemma u32_count_le:
  "threshold \<le> (case u32_try_from n of Some k \<Rightarrow> k | None \<Rightarrow> - 1) \<longleftrightarrow> unat threshold \<le> n"
proof (cases "n < 2 ^ 32")
  case True
  then have "unat (of_nat n :: u32) = n"
    by (simp add: unsigned_of_nat take_bit_nat_eq_self)
  with True show ?thesis by (simp add: u32_try_from_def word_le_nat_alt)
next
  case False
  moreover have "unat threshold < 2 ^ 32" using unsigned_less [of threshold] by simp
  ultimately show ?thesis by (simp add: u32_try_from_def)
qed

lemma record_failure_closed:
  assumes "hc_state c = Closed" "\<forall>f \<in> set (hc_failures c). t - f \<le> window"
  shows "record_failure_on c t window threshold open_duration =
    (if unat threshold \<le> length (hc_failures c) + 1
     then (True, \<lparr>hc_state = Open_Until (t + open_duration), hc_failures = []\<rparr>)
     else (False, c\<lparr>hc_failures := hc_failures c @ [t]\<rparr>))"
  using assms by (simp add: record_failure_on_def Let_def u32_count_le filter_id_conv)

lemma run_failures_below:
  assumes "hc_state c = Closed" "length (hc_failures c) + length ts < unat threshold"
    "\<forall>f \<in> set (hc_failures c @ ts). \<forall>t \<in> set ts. t - f \<le> window"
  shows "run_failures window threshold open_duration ts c = c\<lparr>hc_failures := hc_failures c @ ts\<rparr>"
  using assms
proof (induction ts arbitrary: c)
  case Nil
  then show ?case by (simp add: run_failures_def)
next
  case (Cons t ts)
  have "record_failure_on c t window threshold open_duration =
      (False, c\<lparr>hc_failures := hc_failures c @ [t]\<rparr>)"
    using Cons.prems by (subst record_failure_closed) auto
  moreover have "run_failures window threshold open_duration ts (c\<lparr>hc_failures := hc_failures c @ [t]\<rparr>) =
      c\<lparr>hc_failures := hc_failures c @ t # ts\<rparr>"
    using Cons.prems by (subst Cons.IH) auto
  ultimately show ?case by (simp add: run_failures_def)
qed

lemma run_failures_trip:
  assumes "hc_state c = Closed" "hc_failures c = []" "length ts + 1 = unat threshold"
    "\<forall>f \<in> set (ts @ [t]). \<forall>u \<in> set (ts @ [t]). u - f \<le> window"
  shows "run_failures window threshold open_duration (ts @ [t]) c =
    \<lparr>hc_state = Open_Until (t + open_duration), hc_failures = []\<rparr>"
proof -
  have "run_failures window threshold open_duration ts c = c\<lparr>hc_failures := ts\<rparr>"
    using assms by (subst run_failures_below) auto
  then show ?thesis
    using assms by (simp add: run_failures_def record_failure_closed)
qed

lemma run_checks_half_open:
  assumes "hc_state c = Half_Open n s" "n \<le> hmax" "\<forall>t \<in> set ts. s \<le> t \<and> t < s + d"
  shows "run_checks hmax d ts c =
    replicate (min (length ts) (unat hmax - unat n)) True @
    replicate (length ts - (unat hmax - unat n)) False"
  using assms
proof (induction ts arbitrary: c n)
  case Nil
  then show ?case by simp
next
  case (Cons t ts)
  show ?case
  proof (cases "n < hmax")
    case True
    have "unat hmax < 4294967296" using unsigned_less [of hmax] by simp
    with True have u: "unat (sat_add n 1) = unat n + 1" and "sat_add n 1 \<le> hmax"
      using sat_add_one_le [OF True] by (simp_all add: unat_sat_add word_less_nat_alt)
    have "unat n < unat hmax" using True by (simp add: word_less_nat_alt)
    then obtain k where k: "unat hmax = Suc (unat n + k)" using less_imp_Suc_add by blast
    then show ?thesis
      using Cons.IH [of "c\<lparr>hc_state := Half_Open (sat_add n 1) s\<rparr>" "sat_add n 1"] Cons.prems True u
        \<open>sat_add n 1 \<le> hmax\<close>
      by (simp add: transition_on_check_def)
  next
    case False
    with Cons.prems(2) have "n = hmax" by simp
    with Cons show ?thesis by (auto simp: transition_on_check_def)
  qed
qed

subsection \<open>What an eviction keeps\<close>

text \<open>A circuit that is open, or half open, is never evicted; what stays after an eviction is unchanged.\<close>

context host_map begin

lemma retain_from_kept:
  assumes "\<And>s. fst (f s c) \<and> snd (f s c) = s" "dm_get D m k = Some c"
  shows "dm_get D (dm_retain_from D f ks s m) k = Some c"
  using assms(2)
proof (induction ks arbitrary: s m)
  case Nil
  then show ?case by simp
next
  case (Cons j ks)
  show ?case
  proof (cases "j = k")
    case True
    obtain b s' where "f s c = (b, s')" by fastforce
    with assms(1) [of s] Cons True show ?thesis by simp
  next
    case False
    with Cons show ?thesis by (auto simp: get_remove split: option.split prod.split)
  qed
qed

lemma evict_matching_kept:
  "\<not> pred c \<Longrightarrow> dm_get D m k = Some c \<Longrightarrow> dm_get D (evict_matching D limit pred m) k = Some c"
  by (auto simp: evict_matching_eq evictor_def intro: retain_from_kept)

lemma evict_if_needed_kept:
  assumes "\<not> is_closed c" "\<not> is_expired_open now c" "dm_get D (br_hosts cb) k = Some c"
  shows "dm_get D (br_hosts (evict_if_needed D now cb)) k = Some c"
proof -
  have "\<not> is_idle_closed c" using assms(1) by (simp add: is_idle_closed_def is_closed_def)
  with assms show ?thesis by (auto simp: evict_if_needed_def Let_def intro!: evict_matching_kept)
qed

lemma evict_if_needed_sub:
  "dm_get D (br_hosts (evict_if_needed D now cb)) k = Some c \<Longrightarrow> dm_get D (br_hosts cb) k = Some c"
  by (auto simp: evict_if_needed_def Let_def split: if_splits dest!: evict_matching_sub)

end

lemma evict_params [simp]:
  "br_enabled (evict_if_needed D now cb) = br_enabled cb"
  "br_half_open_max (evict_if_needed D now cb) = br_half_open_max cb"
  "br_open_duration (evict_if_needed D now cb) = br_open_duration cb"
  by (simp_all add: evict_if_needed_def Let_def)

subsection \<open>Properties\<close>

text \<open>
  C34. The breaker keeps its invariants under every interleaving of operations: the probe count of a
  half-open host is between one and the budget, an open host opens again at most \<open>open_duration\<close>
  from now, fewer failures than the threshold are remembered, and no time stamp is in the future.
\<close>

theorem circuit_invariant:
  assumes "cb_reach (circuit_from_config D cfg) t M" "M h = Some c"
  shows "host_inv (circuit_from_config D cfg) t c"
  by (rule reach_inv [OF assms(1) from_config_params assms(2)])

lemma circuit_invariant_witness:
  "host_inv (circuit_from_config alist_dash default_circuit_breaker_config) 7
     \<lparr>hc_state = Closed, hc_failures = [7]\<rparr>"
proof -
  let ?cb = "circuit_from_config alist_dash default_circuit_breaker_config"
  let ?c = "snd (record_failure_on host_circuit_new 7 (br_window ?cb) (br_failure_threshold ?cb)
      (br_open_duration ?cb))"
  have c: "?c = \<lparr>hc_state = Closed, hc_failures = [7]\<rparr>"
    by (simp add: record_failure_on_def host_circuit_new_def circuit_from_config_def
        default_circuit_breaker_config_def default_failure_threshold_def u32_try_from_def word_le_nat_alt
        Let_def)
  have "cb_step ?cb 7 Map.empty (Map.empty(''h'' \<mapsto> ?c))"
    using cb_step.step_failure [of ?cb 7 Map.empty "''h''"] by (simp add: entry_of_def)
  from reach_step [OF reach_start _ this] have "cb_reach ?cb 7 (Map.empty(''h'' \<mapsto> ?c))"
    by simp
  from circuit_invariant [OF this, of "''h''" ?c] c show ?thesis by simp
qed

text \<open>
  C35. The operations refine the machine: a call of \<open>check\<close>, \<open>record_success\<close> or \<open>record_failure\<close>
  changes the table by a sequence of its atomic steps and by nothing else, so what holds of the
  machine holds of the breaker.
\<close>

theorem circuit_refines_machine:
  assumes "host_map D"
  shows
    "(cb_step cb now)\<^sup>*\<^sup>* (dm_get D (br_hosts cb)) (dm_get D (br_hosts (snd (snd (check_circuit D now h cb))))) \<and>
     (cb_step cb now)\<^sup>*\<^sup>* (dm_get D (br_hosts cb)) (dm_get D (br_hosts (record_success D h cb))) \<and>
     (cb_step cb now)\<^sup>*\<^sup>* (dm_get D (br_hosts cb)) (dm_get D (br_hosts (snd (record_failure D now h cb))))"
  using host_map.check_steps [OF assms, of now h cb] host_map.success_steps [OF assms, of cb now h]
    host_map.failure_steps [OF assms, of cb now h]
  by (metis prod.collapse)

lemma circuit_refines_machine_witness:
  "let cb = circuit_from_config alist_dash default_circuit_breaker_config
   in (cb_step cb 3)\<^sup>*\<^sup>* (dm_get alist_dash (br_hosts cb))
        (dm_get alist_dash (br_hosts (snd (record_failure alist_dash 3 ''h'' cb))))"
  using circuit_refines_machine [OF alist_hosts.host_map_axioms] by (simp add: Let_def)

text \<open>
  C36. No host is locked out for good: whatever happened before \<open>t\<close> (including probes that were
  cancelled and never settled), a check \<open>open_duration\<close> later is admitted.
\<close>

theorem circuit_no_lockout:
  assumes "cb_reach (circuit_from_config D cfg) t (dm_get D (br_hosts cb))" "host_map D"
    "cb = circuit_from_config D cfg\<lparr>br_hosts := m\<rparr>" "t + cb_open_duration cfg \<le> now"
  shows "fst (snd (check_circuit D now h cb)) = Inr ()"
proof -
  let ?cfg = "circuit_from_config D cfg"
  have "host_inv ?cfg t (entry_of (dm_get D (br_hosts cb)) h)"
    using reach_inv [OF assms(1) from_config_params] host_inv_new [OF from_config_params, of D cfg t]
    by (auto simp: entry_of_def split: option.split)
  from open_for_at_most [OF from_config_params this, of now] assms(3,4)
  have "fst (transition_on_check (entry_of (dm_get D m) h) now (br_half_open_max ?cfg)
      (br_open_duration ?cfg))"
    by (simp add: circuit_from_config_def)
  with assms(3) host_map.entry_of_get [OF assms(2)] show ?thesis
    by (simp add: check_circuit_def Let_def case_prod_beta)
qed

lemma circuit_no_lockout_witness:
  "fst (snd (check_circuit alist_dash (from_secs 60) ''h''
      (circuit_from_config alist_dash default_circuit_breaker_config))) = Inr ()"
proof -
  let ?cb = "circuit_from_config alist_dash default_circuit_breaker_config"
  have "dm_get alist_dash (br_hosts ?cb) = Map.empty"
    by (rule ext) (simp add: circuit_from_config_def alist.get_empty)
  then have "cb_reach ?cb 0 (dm_get alist_dash (br_hosts ?cb))"
    by (simp add: reach_start)
  moreover have "?cb = ?cb\<lparr>br_hosts := br_hosts ?cb\<rparr>" by simp
  ultimately show ?thesis
    by (rule circuit_no_lockout [OF _ alist_hosts.host_map_axioms])
       (simp add: default_circuit_breaker_config_def default_open_duration_def from_secs_def)
qed

text \<open>
  The breaker trips when it should: on a closed host with a clean record, fewer failures than
  the threshold keep it closed, and the failure that completes the threshold inside one window
  opens it for \<open>open_duration\<close>, until which every check is refused.
\<close>

theorem circuit_trips:
  assumes "length ts + 1 = unat threshold"
    "\<forall>f \<in> set (ts @ [t]). \<forall>u \<in> set (ts @ [t]). u - f \<le> window" "now < t + open_duration"
  shows
    "hc_state (run_failures window threshold open_duration ts host_circuit_new) = Closed \<and>
     hc_state (run_failures window threshold open_duration (ts @ [t]) host_circuit_new) =
       Open_Until (t + open_duration) \<and>
     \<not> fst (transition_on_check (run_failures window threshold open_duration (ts @ [t]) host_circuit_new)
            now half_open_max open_duration)"
proof -
  have "run_failures window threshold open_duration ts host_circuit_new = host_circuit_new\<lparr>hc_failures := ts\<rparr>"
    using assms by (subst run_failures_below) (auto simp: host_circuit_new_def)
  moreover have "run_failures window threshold open_duration (ts @ [t]) host_circuit_new =
      \<lparr>hc_state = Open_Until (t + open_duration), hc_failures = []\<rparr>"
    using assms(1,2) by (intro run_failures_trip) (auto simp: host_circuit_new_def)
  ultimately show ?thesis
    using assms(3) by (simp add: host_circuit_new_def transition_on_check_def)
qed

lemma circuit_trips_witness:
  "hc_state (run_failures 100 3 50 [10, 20, 30] host_circuit_new) = Open_Until 80"
  using circuit_trips [of "[10, 20]" 3 30 100 40 50 1] by simp

text \<open>
  The half-open budget is exact: of the checks that reach an expired open host within one
  \<open>open_duration\<close> of the first, the first \<open>half_open_max\<close> are admitted and the rest refused.
\<close>

theorem circuit_half_open_budget:
  assumes "hc_state c = Open_Until until" "until \<le> t" "1 \<le> half_open_max"
    "\<forall>u \<in> set ts. t \<le> u \<and> u < t + open_duration"
  shows "run_checks half_open_max open_duration (t # ts) c =
    replicate (min (length ts + 1) (unat half_open_max)) True @
    replicate (length ts + 1 - unat half_open_max) False"
proof -
  let ?c = "c\<lparr>hc_state := Half_Open 1 t\<rparr>"
  have "run_checks half_open_max open_duration ts ?c =
      replicate (min (length ts) (unat half_open_max - 1)) True @
      replicate (length ts - (unat half_open_max - 1)) False"
    using run_checks_half_open [of ?c 1 t half_open_max ts open_duration] assms(3,4) by simp
  moreover obtain k where "unat half_open_max = Suc k"
    using assms(3) by (cases "unat half_open_max") (auto simp: word_le_nat_alt)
  ultimately show ?thesis
    using assms(1,2) by (simp add: transition_on_check_def)
qed

lemma circuit_half_open_budget_witness:
  "run_checks 2 50 [100, 110, 120] \<lparr>hc_state = Open_Until 90, hc_failures = []\<rparr> = [True, True, False]"
  using circuit_half_open_budget
    [of "\<lparr>hc_state = Open_Until 90, hc_failures = []\<rparr>" 90 100 2 "[110, 120]" 50]
  by (simp add: replicate_numeral_eval)

text \<open>
  The table is bounded: after an admitted check or a recorded failure it has at most \<open>max_hosts\<close>
  entries, unless every entry left is protecting a host (open and not expired, or half-open).
\<close>

theorem circuit_table_bounded:
  assumes "host_map D" "br_enabled cb"
    "cb' = snd (record_failure D now h cb) \<or> check_circuit D now h cb = (ms, Inr (), cb')"
  shows "tracked_hosts D cb' \<le> unat (br_max_hosts cb) \<or>
    (\<forall>k c. dm_get D (br_hosts cb') k = Some c \<longrightarrow> \<not> is_closed c \<and> \<not> is_expired_open now c)"
proof -
  obtain m where "cb' = evict_if_needed D now (cb\<lparr>br_hosts := m\<rparr>)"
    using assms(2,3)
    by (auto simp: record_failure_def check_circuit_def Let_def case_prod_beta split: if_splits)
  then show ?thesis
    using host_map.evict_if_needed_bound [OF assms(1), of now "cb\<lparr>br_hosts := m\<rparr>"]
    by (simp add: tracked_hosts_def)
qed

lemma circuit_table_bounded_witness:
  "let cb = circuit_from_config alist_dash (default_circuit_breaker_config\<lparr>cb_max_hosts := 1\<rparr>);
       cb' = snd (record_failure alist_dash 5 ''a'' cb)
   in tracked_hosts alist_dash cb' \<le> 1 \<or>
      (\<forall>k c. dm_get alist_dash (br_hosts cb') k = Some c \<longrightarrow> \<not> is_closed c \<and> \<not> is_expired_open 5 c)"
  unfolding Let_def
  using circuit_table_bounded [OF alist_hosts.host_map_axioms,
      of "circuit_from_config alist_dash (default_circuit_breaker_config\<lparr>cb_max_hosts := 1\<rparr>)"
         "snd (record_failure alist_dash 5 ''a''
            (circuit_from_config alist_dash (default_circuit_breaker_config\<lparr>cb_max_hosts := 1\<rparr>)))"
         5 "''a''" "[]"]
  by (simp add: circuit_from_config_def default_circuit_breaker_config_def)

text \<open>
  Every admitted hop is settled exactly once: success and failure record their outcome and
  disarm the guard (the drop that follows records nothing), and a hop dropped unsettled counts as
  one failure of the host it was admitted for.
\<close>

theorem circuit_hop_settles_once:
  assumes "hop_admit D now h cb = (ms, Inr hop, cb')"
  shows "hop_success D t hop b = ([], record_success D h b) \<and>
    hop_failure D t hop b = record_failure D t h b \<and>
    hop_drop D t hop b = record_failure D t h b"
  using assms
  by (auto simp: hop_admit_def hop_success_def hop_failure_def hop_drop_def bind_res_eq_Inr
      split: prod.splits)

lemma circuit_hop_settles_once_witness:
  "let cb = circuit_from_config alist_dash default_circuit_breaker_config
   in hop_drop alist_dash 9 \<lparr>hop_host = ''h'', hop_settled = False\<rparr> cb = record_failure alist_dash 9 ''h'' cb"
proof -
  let ?cb = "circuit_from_config alist_dash default_circuit_breaker_config"
  have "hop_admit alist_dash 5 ''h'' ?cb =
      (fst (hop_admit alist_dash 5 ''h'' ?cb), Inr \<lparr>hop_host = ''h'', hop_settled = False\<rparr>,
       snd (snd (hop_admit alist_dash 5 ''h'' ?cb)))"
    by (simp add: hop_admit_def check_circuit_def circuit_from_config_def entry_or_new_def
        alist.get_empty host_circuit_new_def transition_on_check_def
        default_circuit_breaker_config_def Let_def case_prod_beta)
  from circuit_hop_settles_once [OF this] show ?thesis by (simp add: Let_def)
qed



end
