(* ===== verification/Redirect.thy ===== *)
theory Redirect
  imports Url_Parser
begin

text \<open>
  \<open>corx-core/src/proxy/redirect.rs\<close>: what the next request of a redirect chain is. \<open>prepare_next\<close>
  returns its result and the updated \<open>RedirectState\<close>; building the request cannot fail because its
  method and URI are already typed.
\<close>

subsection \<open>State and results\<close>

definition LOCATION :: header_name where "LOCATION = ''location''"
definition HOST :: header_name where "HOST = ''host''"

definition SENSITIVE_HEADERS :: "header_name list" where
  "SENSITIVE_HEADERS =
     [''authorization'', ''cookie'', ''proxy-authorization'', ''authentication-info'',
      ''www-authenticate'']"

record 'h redirect_state =
  rd_method :: http_method
  rd_headers :: 'h
  rd_uri :: uri

definition from_initial :: "http_method \<Rightarrow> uri \<Rightarrow> 'h \<Rightarrow> 'h redirect_state" where
  "from_initial m uri headers = \<lparr>rd_method = m, rd_headers = headers, rd_uri = uri\<rparr>"

datatype 'h next_hop = Continue "'h request" | Stop string

definition empty_upstream_body :: body where
  "empty_upstream_body = []"

definition is_redirect :: "status_code \<Rightarrow> bool" where
  "is_redirect s \<longleftrightarrow> s \<in> {301, 302, 303, 307, 308}"

subsection \<open>The next hop\<close>

definition require_safe_scheme :: "uri \<Rightarrow> unit res" where
  "require_safe_scheme uri =
     (case u_scheme uri of
        Some s \<Rightarrow>
          if s = ''http'' \<or> s = ''https'' then Inr ()
          else Inl (InvalidUrl (''redirect to unsupported scheme `'' @ s @ ''`''))
      | None \<Rightarrow> Inl (InvalidUrl ''redirect Location lacks a scheme''))"

definition is_https_to_http_downgrade :: "uri \<Rightarrow> uri \<Rightarrow> bool" where
  "is_https_to_http_downgrade src dst \<longleftrightarrow>
     u_scheme src = Some ''https'' \<and> u_scheme dst = Some ''http''"

definition resolve_location :: "'u url_lib \<Rightarrow> uri \<Rightarrow> string \<Rightarrow> uri res" where
  "resolve_location U base location =
     (if contains_str ''://'' location then
        (case uri_parse U location of
           Inl err \<Rightarrow> Inl (InvalidUrl (''invalid redirect target: '' @ err))
         | Inr uri \<Rightarrow> Inr uri)
      else
        (case url_parse U (uri_to_string U base) of
           Inl err \<Rightarrow> Inl (InvalidUrl (''uri-to-url failed: '' @ err))
         | Inr base_url \<Rightarrow>
             (case url_join U base_url location of
                Inl err \<Rightarrow> Inl (InvalidUrl (''cannot resolve redirect: '' @ err))
              | Inr resolved \<Rightarrow>
                  (case uri_parse U (url_as_str U resolved) of
                     Inl err \<Rightarrow> Inl (InvalidUrl (''invalid resolved redirect: '' @ err))
                   | Inr uri \<Rightarrow> Inr uri))))"

definition body_bearing :: "http_method \<Rightarrow> bool" where
  "body_bearing m \<longleftrightarrow> m = ''POST'' \<or> m = ''PUT'' \<or> m = ''PATCH''"

definition classify_transition :: "http_method \<Rightarrow> status_code \<Rightarrow> http_method \<times> bool" where
  "classify_transition m s =
     (if s = 301 \<or> s = 302 \<or> s = 303 then
        (if body_bearing m then (''GET'', True) else (m, False))
      else (m, False))"

definition authority_differs :: "uri \<Rightarrow> uri \<Rightarrow> bool" where
  "authority_differs a b \<longleftrightarrow>
     (case (u_authority a, u_authority b) of
        (Some x, Some y) \<Rightarrow> \<not> eq_ignore_case x y
      | _ \<Rightarrow> True)"

definition downgrade_rejected :: string where
  "downgrade_rejected =
     ''https '' @ [CHR 0xE2, CHR 0x86, CHR 0x92] @ '' http redirect downgrade rejected''"

definition prepare_next ::
  "'h header_lib \<Rightarrow> 'u url_lib \<Rightarrow> 'h redirect_state \<Rightarrow> 'h response \<Rightarrow> bool \<Rightarrow>
     'h next_hop res \<times> 'h redirect_state" where
  "prepare_next H U st response allow_downgrade =
     (case hm_get H (rs_headers response) LOCATION of
        None \<Rightarrow> (Inr (Stop ''no Location header''), st)
      | Some location \<Rightarrow>
     (case hv_to_str H location of
        None \<Rightarrow> (Inr (Stop ''non-utf8 Location header''), st)
      | Some location_str \<Rightarrow>
     (case resolve_location U (rd_uri st) location_str of
        Inl e \<Rightarrow> (Inl e, st)
      | Inr next_uri \<Rightarrow>
     (case require_safe_scheme next_uri of
        Inl e \<Rightarrow> (Inl e, st)
      | Inr _ \<Rightarrow>
     (if \<not> allow_downgrade \<and> is_https_to_http_downgrade (rd_uri st) next_uri then
        (Inl (InvalidUrl downgrade_rejected), st)
      else
        (let cross_host = authority_differs (rd_uri st) next_uri;
             (next_method, drop_body) = classify_transition (rd_method st) (rs_status response)
         in if \<not> drop_body \<and> body_bearing next_method then
              (Inr (Stop ''307/308 with body-bearing method cannot be safely replayed''), st)
            else
              (let headers =
                     (if cross_host then
                        hm_remove H (fold (\<lambda>n h. hm_remove H h n) SENSITIVE_HEADERS (rd_headers st)) HOST
                      else rd_headers st);
                   st' = \<lparr>rd_method = next_method, rd_headers = headers, rd_uri = next_uri\<rparr>;
                   req = \<lparr>rq_method = next_method, rq_uri = next_uri,
                          rq_headers = hm_extend H (hm_new H) headers,
                          rq_body = empty_upstream_body\<rparr>
               in (Inr (Continue req), st'))))))))"

subsection \<open>What a hop satisfies\<close>

definition hop_safe :: "'h header_lib \<Rightarrow> bool \<Rightarrow> 'h redirect_state \<Rightarrow> 'h request \<Rightarrow> bool" where
  "hop_safe H allow_downgrade st req \<longleftrightarrow>
     u_scheme (rq_uri req) \<in> {Some ''http'', Some ''https''} \<and>
     (allow_downgrade \<or> \<not> is_https_to_http_downgrade (rd_uri st) (rq_uri req)) \<and>
     \<not> body_bearing (rq_method req) \<and> rq_body req = [] \<and>
     (authority_differs (rd_uri st) (rq_uri req) \<longrightarrow>
        list_all (\<lambda>n. hm_get_all H (rq_headers req) n = []) (HOST # SENSITIVE_HEADERS))"

definition in_step :: "'h header_lib \<Rightarrow> 'h redirect_state \<Rightarrow> 'h request \<Rightarrow> bool" where
  "in_step H st req \<longleftrightarrow>
     rq_method req = rd_method st \<and> rq_uri req = rd_uri st \<and>
     hm_get_all H (rq_headers req) = hm_get_all H (rd_headers st)"

lemma resolve_location_error: "resolve_location U b l = Inl e \<Longrightarrow> is_invalid_url e"
  by (auto simp: resolve_location_def split: if_splits sum.splits)

lemma require_safe_scheme_Inr:
  "require_safe_scheme uri = Inr u \<longleftrightarrow> u_scheme uri \<in> {Some ''http'', Some ''https''}"
  by (auto simp: require_safe_scheme_def split: option.split)

lemma require_safe_scheme_error: "require_safe_scheme uri = Inl e \<Longrightarrow> is_invalid_url e"
  by (auto simp: require_safe_scheme_def split: option.splits if_splits)

lemma prepare_next_error: "prepare_next H U st r a = (Inl e, st') \<Longrightarrow> is_invalid_url e \<and> st' = st"
  by (auto simp: prepare_next_def Let_def dest: resolve_location_error require_safe_scheme_error
      split: option.splits sum.splits if_splits prod.splits)

lemma prepare_next_stop: "prepare_next H U st r a = (Inr (Stop reason), st') \<Longrightarrow> st' = st"
  by (auto simp: prepare_next_def Let_def split: option.splits sum.splits if_splits prod.splits)

lemma prepare_next_Continue:
  assumes "prepare_next H U st r a = (Inr (Continue req), st')"
  obtains next_uri where
    "u_scheme next_uri \<in> {Some ''http'', Some ''https''}"
    "a \<or> \<not> is_https_to_http_downgrade (rd_uri st) next_uri"
    "\<not> (body_bearing (rq_method req))"
    "rq_method req = fst (classify_transition (rd_method st) (rs_status r))"
    "st' = \<lparr>rd_method = rq_method req,
       rd_headers = (if authority_differs (rd_uri st) next_uri
         then hm_remove H (fold (\<lambda>n h. hm_remove H h n) SENSITIVE_HEADERS (rd_headers st)) HOST
         else rd_headers st),
       rd_uri = next_uri\<rparr>"
    "req = \<lparr>rq_method = rq_method req, rq_uri = next_uri,
       rq_headers = hm_extend H (hm_new H) (rd_headers st'), rq_body = []\<rparr>"
proof -
  have drop: "\<not> body_bearing m'" if "classify_transition m s = (m', d)" "d \<or> \<not> body_bearing m'" for m s m' d
    using that by (auto simp: classify_transition_def body_bearing_def split: if_splits)
  from assms show thesis
    by (auto simp: prepare_next_def Let_def empty_upstream_body_def require_safe_scheme_Inr
        intro!: that dest: drop split: option.splits sum.splits if_splits prod.splits)
qed

context header_map begin

lemma get_all_extend_new: "hm_get_all H (hm_extend H (hm_new H) h) n = hm_get_all H h n"
  by (simp add: get_all_extend get_all_new)

lemma prepare_next_safe:
  assumes "prepare_next H U st r a = (Inr (Continue req), st')"
  shows "hop_safe H a st req \<and> in_step H st' req"
  using assms
proof (rule prepare_next_Continue)
  fix next_uri
  assume "u_scheme next_uri \<in> {Some ''http'', Some ''https''}"
    "a \<or> \<not> is_https_to_http_downgrade (rd_uri st) next_uri" "\<not> body_bearing (rq_method req)"
    "st' = \<lparr>rd_method = rq_method req,
       rd_headers = (if authority_differs (rd_uri st) next_uri
         then hm_remove H (fold (\<lambda>n h. hm_remove H h n) SENSITIVE_HEADERS (rd_headers st)) HOST
         else rd_headers st),
       rd_uri = next_uri\<rparr>"
    "req = \<lparr>rq_method = rq_method req, rq_uri = next_uri,
       rq_headers = hm_extend H (hm_new H) (rd_headers st'), rq_body = []\<rparr>"
  moreover from this have "rq_uri req = next_uri" "rq_body req = []"
    "rq_headers req = hm_extend H (hm_new H) (rd_headers st')"
    by (metis request.select_convs)+
  ultimately show ?thesis
    by (auto simp: hop_safe_def in_step_def get_all_extend_new get_all_remove
        get_all_fold_remove list_all_iff fun_eq_iff simp del: One_nat_def)
qed

lemma prepare_next_headers_kept:
  assumes "prepare_next H U st r a = (Inr (Continue req), st')"
  shows "hm_get_all H (rd_headers st') n \<in> {[], hm_get_all H (rd_headers st) n}"
  using assms
  by (rule prepare_next_Continue) (auto simp: get_all_remove get_all_fold_remove)

end

subsection \<open>Properties\<close>

definition example_state :: "string \<Rightarrow> entries \<Rightarrow> entries redirect_state" where
  "example_state m hs =
     \<lparr>rd_method = m, rd_headers = hs,
      rd_uri = \<lparr>u_scheme = Some ''https'', u_authority = Some ''a.test'', u_host = Some ''a.test'',
                u_path = ''/x'', u_query = None\<rparr>\<rparr>"

definition example_redirect :: "status_code \<Rightarrow> string \<Rightarrow> entries response" where
  "example_redirect s l = \<lparr>rs_status = s, rs_headers = [(LOCATION, l)], rs_body = []\<rparr>"

lemmas redirect_eval =
  prepare_next_def resolve_location_def require_safe_scheme_def is_https_to_http_downgrade_def
  authority_differs_def classify_transition_def body_bearing_def SENSITIVE_HEADERS_def
  LOCATION_def HOST_def example_state_def example_redirect_def empty_upstream_body_def
  contains_str_def Let_def list_headers_eval plain_urls_eval

text \<open>
  C3. A followed redirect is safe: the next request goes to an HTTP(S) URI and never from https down
  to http unless configured, carries no body and no body-bearing method, and when the authority
  changes (letter case aside) it carries no \<open>Host\<close> and none of the credential headers; otherwise
  it carries exactly the headers of the chain. The recorded state is the request that was built.
\<close>

theorem prepare_next_hop_safe:
  assumes "header_map H" "prepare_next H U st r allow_downgrade = (Inr (Continue req), st')"
  shows "hop_safe H allow_downgrade st req \<and> in_step H st' req \<and>
    rq_method req = fst (classify_transition (rd_method st) (rs_status r)) \<and>
    (authority_differs (rd_uri st) (rq_uri req) \<or>
     hm_get_all H (rq_headers req) n = hm_get_all H (rd_headers st) n)"
proof -
  have "hop_safe H allow_downgrade st req \<and> in_step H st' req"
    by (rule header_map.prepare_next_safe [OF assms])
  moreover have "rq_method req = fst (classify_transition (rd_method st) (rs_status r)) \<and>
      (authority_differs (rd_uri st) (rd_uri st') \<or> rd_headers st' = rd_headers st)"
    using assms(2) by (rule prepare_next_Continue) auto
  ultimately show ?thesis by (auto simp: in_step_def)
qed

lemma prepare_next_hop_safe_witness:
  "\<exists>req st'. prepare_next list_headers plain_urls
       (example_state ''POST'' [(''cookie'', ''s=1''), (''accept'', ''text'')])
       (example_redirect 303 ''https://b.test/y'') False = (Inr (Continue req), st') \<and>
     rq_method req = ''GET'' \<and> hm_get_all list_headers (rq_headers req) ''cookie'' = []"
proof -
  let ?st = "example_state ''POST'' [(''cookie'', ''s=1''), (''accept'', ''text'')]"
  let ?r = "example_redirect 303 ''https://b.test/y''"
  let ?uri = "\<lparr>u_scheme = Some ''https'', u_authority = Some ''b.test'', u_host = Some ''b.test'',
      u_path = ''/y'', u_query = None\<rparr>"
  let ?req = "\<lparr>rq_method = ''GET'', rq_uri = ?uri, rq_headers = [(''accept'', ''text'')], rq_body = []\<rparr>"
  let ?st' = "\<lparr>rd_method = ''GET'', rd_headers = [(''accept'', ''text'')], rd_uri = ?uri\<rparr>"
  have e: "prepare_next list_headers plain_urls ?st ?r False = (Inr (Continue ?req), ?st')"
    by (simp add: redirect_eval)
  have "hop_safe list_headers False ?st ?req"
    by (rule prepare_next_hop_safe [OF list_hdrs.header_map_axioms e, THEN conjunct1])
  moreover have "authority_differs (rd_uri ?st) (rq_uri ?req)"
    by (simp add: redirect_eval)
  ultimately have "hm_get_all list_headers (rq_headers ?req) ''cookie'' = []"
    unfolding hop_safe_def SENSITIVE_HEADERS_def by simp
  with e show ?thesis by (intro exI [of _ ?req] exI [of _ ?st']) simp
qed

text \<open>
  A relative \<open>Location\<close> is not resolved against the base when it mentions \<open>://\<close> anywhere: a
  path such as \<open>/login?next=https://a.test/\<close> is parsed on its own, has no scheme, and the proxied
  request fails with an \<open>invalid_url\<close> error although the redirect is well-formed.
\<close>

theorem relative_location_with_scheme_marker_fails:
  assumes "url_api U" "header_map H"
    "hm_get H (rs_headers r) LOCATION = Some loc" "visible loc"
    "starts_with ''/'' loc" "contains_str ''://'' loc"
  shows "\<exists>reason. prepare_next H U st r allow_downgrade = (Inl (InvalidUrl reason), st)"
proof -
  have "hv_to_str H loc = Some loc"
    using header_map.to_str_visible [OF assms(2)] assms(4) by simp
  moreover have "u_scheme uri = None" if "uri_parse U loc = Inr uri" for uri
    using url_api.uri_origin_form [OF assms(1,5) that] .
  ultimately show ?thesis
    using assms(3,6)
    by (cases "uri_parse U loc") (auto simp: prepare_next_def resolve_location_def require_safe_scheme_def)
qed

lemma relative_location_with_scheme_marker_fails_witness:
  "\<exists>reason. prepare_next list_headers plain_urls (example_state ''GET'' [])
     (example_redirect 302 ''/login?next=https://a.test/'') False =
       (Inl (InvalidUrl reason), example_state ''GET'' [])"
  by (rule relative_location_with_scheme_marker_fails [OF plain.url_api_axioms list_hdrs.header_map_axioms,
        of _ "''/login?next=https://a.test/''"])
     (simp_all add: redirect_eval)

text \<open>
  A 301, 302 or 303 answer to a POST, PUT or PATCH on the same authority is followed by a GET
  with an empty body that still carries every header of the original request, its \<open>Content-Type\<close>,
  \<open>Content-Length\<close> and \<open>Content-Encoding\<close> included.
\<close>

theorem downgraded_request_keeps_body_headers:
  assumes "header_map H" "prepare_next H U st r allow_downgrade = (Inr (Continue req), st')"
    "rs_status r \<in> {301, 302, 303}" "body_bearing (rd_method st)"
    "\<not> authority_differs (rd_uri st) (rd_uri st')"
  shows "rq_method req = ''GET'' \<and> rq_body req = [] \<and>
    hm_get_all H (rq_headers req) ''content-length'' = hm_get_all H (rd_headers st) ''content-length'' \<and>
    hm_get_all H (rq_headers req) ''content-type'' = hm_get_all H (rd_headers st) ''content-type''"
proof -
  have safe: "hop_safe H allow_downgrade st req" "in_step H st' req"
    using header_map.prepare_next_safe [OF assms(1,2)] by simp_all
  have "rq_method req = fst (classify_transition (rd_method st) (rs_status r)) \<and>
      rd_headers st' = rd_headers st"
    using assms(2,5) by (auto elim!: prepare_next_Continue)
  with safe assms(3,4) show ?thesis
    by (auto simp: hop_safe_def in_step_def classify_transition_def)
qed

lemma downgraded_request_keeps_body_headers_witness:
  "\<exists>req st'. prepare_next list_headers plain_urls
       (example_state ''POST'' [(''content-length'', ''12'')])
       (example_redirect 303 ''/done'') False = (Inr (Continue req), st') \<and>
     rq_body req = [] \<and> hm_get_all list_headers (rq_headers req) ''content-length'' = [''12'']"
proof -
  let ?st = "example_state ''POST'' [(''content-length'', ''12'')]"
  let ?r = "example_redirect 303 ''/done''"
  let ?uri = "\<lparr>u_scheme = Some ''https'', u_authority = Some ''a.test'', u_host = Some ''a.test'',
      u_path = ''/done'', u_query = None\<rparr>"
  let ?req = "\<lparr>rq_method = ''GET'', rq_uri = ?uri, rq_headers = [(''content-length'', ''12'')], rq_body = []\<rparr>"
  let ?st' = "\<lparr>rd_method = ''GET'', rd_headers = [(''content-length'', ''12'')], rd_uri = ?uri\<rparr>"
  have e: "prepare_next list_headers plain_urls ?st ?r False = (Inr (Continue ?req), ?st')"
    by (simp add: redirect_eval)
  have "rq_body ?req = [] \<and> hm_get_all list_headers (rq_headers ?req) ''content-length'' =
      hm_get_all list_headers (rd_headers ?st) ''content-length''"
    using downgraded_request_keeps_body_headers [OF list_hdrs.header_map_axioms e]
    by (simp add: redirect_eval)
  with e show ?thesis
    by (intro exI [of _ ?req] exI [of _ ?st']) (simp add: redirect_eval)
qed

end
