(* ===== verification/Upstream.thy ===== *)
theory Upstream
  imports Redirect Target Ssrf Circuit
begin

text \<open>
  \<open>corx-core/src/proxy/upstream.rs\<close>: the redirect-following client. The hyper client, the clock and
  whatever other tasks do to the shared breaker while a request is in flight are the parameter
  \<open>E\<close>; a future that is dropped at its only await point ends with \<open>Dropped\<close>, which runs the drop of
  the hop guard.

  \<open>execute\<close> returns, beside the metrics and the outcome, the trace of what it did to the outside
  (hops admitted, requests sent, hops settled), which the properties speak of.
\<close>

subsection \<open>The client and its environment\<close>

datatype 'a awaited = Ready 'a | Dropped

record ('w, 'h, 'm) client_env =
  ce_now :: "'w \<Rightarrow> instant"
  ce_request :: "'h request \<Rightarrow> 'w \<Rightarrow> 'm circuit_breaker \<Rightarrow>
      (string + 'h response) awaited \<times> 'w \<times> 'm circuit_breaker"

record client_config =
  cl_pool_max_idle_per_host :: usize
  cl_pool_idle_timeout :: duration
  cl_connect_timeout :: duration
  cl_max_redirects :: u8
  cl_allow_https_to_http_downgrade :: bool
  cl_redirect_policy :: redirect_policy
  cl_user_agent :: string

record upstream =
  ups_guard :: ssrf_guard
  ups_config :: client_config
  ups_target_policy :: target_policy

text \<open>\<open>tls_roots\<close> is the answer of the platform verifier: an error text when it cannot be loaded.\<close>

definition upstream_new ::
  "string + unit \<Rightarrow> client_config \<Rightarrow> ssrf_guard \<Rightarrow> target_policy \<Rightarrow> upstream res" where
  "upstream_new tls_roots cfg guard policy =
     (case tls_roots of
        Inl err \<Rightarrow> Inl (Tls err)
      | Inr _ \<Rightarrow> Inr \<lparr>ups_guard = guard, ups_config = cfg, ups_target_policy = policy\<rparr>)"

definition user_agent :: "upstream \<Rightarrow> string" where
  "user_agent u = cl_user_agent (ups_config u)"

text \<open>The resolver handed to the connector: every name goes through the guard.\<close>

definition guarded_resolver ::
  "net_lib \<Rightarrow> upstream \<Rightarrow> (string \<Rightarrow> string + ip_addr list) \<Rightarrow> string \<Rightarrow> socket_addr list res logged" where
  "guarded_resolver N u dns name = resolve N (ups_guard u) dns name 0"

fun guarded_addrs_next :: "socket_addr list \<Rightarrow> socket_addr option \<times> socket_addr list" where
  "guarded_addrs_next [] = (None, [])"
| "guarded_addrs_next (a # as) = (Some a, as)"

subsection \<open>One hop\<close>

definition host_of :: "uri \<Rightarrow> string" where
  "host_of uri = (case u_host uri of Some h \<Rightarrow> h | None \<Rightarrow> ''unknown'')"

definition record_redirect_hops :: "string \<Rightarrow> u8 \<Rightarrow> metric" where
  "record_redirect_hops metric_host hops =
     Observe REDIRECT_HOPS [(''target_host'', metric_host)] (unat hops)"

datatype 'h hop_event =
    Admitted string
  | Requested "'h request"
  | Succeeded string
  | Failed string

definition split_initial :: "'h request \<Rightarrow> 'h redirect_state \<times> 'h request" where
  "split_initial request =
     (from_initial (rq_method request) (rq_uri request) (rq_headers request), request)"

text \<open>
  What the loop body answers: the end of \<open>execute\<close>, or the state and request of the next turn.
\<close>

datatype 'h turn =
    Return "'h response res awaited"
  | Next "'h redirect_state" "'h request"

definition settle_success ::
  "'m hosts_lib \<Rightarrow> instant \<Rightarrow> circuit_hop \<Rightarrow> 'm circuit_breaker \<Rightarrow>
     metric list \<times> 'h hop_event list \<times> 'm circuit_breaker" where
  "settle_success D now hop cb =
     (case hop_success D now hop cb of (ms, cb) \<Rightarrow> (ms, [Succeeded (hop_host hop)], cb))"

definition settle_failure ::
  "'m hosts_lib \<Rightarrow> instant \<Rightarrow> circuit_hop \<Rightarrow> 'm circuit_breaker \<Rightarrow>
     metric list \<times> 'h hop_event list \<times> 'm circuit_breaker" where
  "settle_failure D now hop cb =
     (case hop_failure D now hop cb of (ms, cb) \<Rightarrow> (ms, [Failed (hop_host hop)], cb))"

definition settle_terminal ::
  "'m hosts_lib \<Rightarrow> instant \<Rightarrow> circuit_hop \<Rightarrow> status_code \<Rightarrow> 'm circuit_breaker \<Rightarrow>
     metric list \<times> 'h hop_event list \<times> 'm circuit_breaker" where
  "settle_terminal D now hop status cb =
     (if br_count_5xx cb \<and> is_server_error status then settle_failure D now hop cb
      else settle_success D now hop cb)"

text \<open>What happens once a response has arrived, from the redirect test to the end of the body.\<close>

definition after_response ::
  "'h header_lib \<Rightarrow> 'u url_lib \<Rightarrow> 'm hosts_lib \<Rightarrow> upstream \<Rightarrow> string \<Rightarrow> instant \<Rightarrow>
     'h redirect_state \<Rightarrow> u8 \<Rightarrow> circuit_hop \<Rightarrow> 'h response \<Rightarrow> 'm circuit_breaker \<Rightarrow>
     metric list \<times> 'h hop_event list \<times> 'h turn \<times> 'm circuit_breaker" where
  "after_response H U D u metric_host now st hops hop response cb =
     (let max_redirects = cl_max_redirects (ups_config u);
          redirect_hops = record_redirect_hops metric_host hops
      in if \<not> is_redirect (rs_status response) then
           (case settle_terminal D now hop (rs_status response) cb of
              (ms, ev, cb) \<Rightarrow> (ms @ [redirect_hops], ev, Return (Ready (Inr response)), cb))
         else case cl_redirect_policy (ups_config u) of
           Block \<Rightarrow>
             (case settle_success D now hop cb of
                (ms, ev, cb) \<Rightarrow>
                  (ms, ev, Return (Ready (Inl (RedirectBlocked ''redirect policy is block''))), cb))
         | Rewrite \<Rightarrow>
             (case settle_success D now hop cb of
                (ms, ev, cb) \<Rightarrow> (ms @ [redirect_hops], ev, Return (Ready (Inr response)), cb))
         | Follow \<Rightarrow>
             (if max_redirects \<le> hops then
                (case settle_failure D now hop cb of
                   (ms, ev, cb) \<Rightarrow>
                     (ms, ev, Return (Ready (Inl (TooManyRedirects max_redirects))), cb))
              else
                (case settle_success D now hop cb of
                   (ms, ev, cb) \<Rightarrow>
                     (case prepare_next H U st response
                             (cl_allow_https_to_http_downgrade (ups_config u)) of
                        (Inl e, st) \<Rightarrow> (ms, ev, Return (Ready (Inl e)), cb)
                      | (Inr (Stop reason), st) \<Rightarrow>
                          (ms @ [redirect_hops], ev, Return (Ready (Inr response)), cb)
                      | (Inr (Continue req), st) \<Rightarrow> (ms, ev, Next st req, cb)))))"

definition hop_turn ::
  "'h header_lib \<Rightarrow> 'u url_lib \<Rightarrow> 'm hosts_lib \<Rightarrow> ('w, 'h, 'm) client_env \<Rightarrow> upstream \<Rightarrow> string \<Rightarrow>
     'h redirect_state \<Rightarrow> u8 \<Rightarrow> 'h request \<Rightarrow> 'w \<Rightarrow> 'm circuit_breaker \<Rightarrow>
     metric list \<times> 'h hop_event list \<times> 'h turn \<times> 'w \<times> 'm circuit_breaker" where
  "hop_turn H U D E u metric_host st hops req w cb =
     (case check_uri (ups_target_policy u) (rq_uri req) of
        Inl e \<Rightarrow> ([], [], Return (Ready (Inl e)), w, cb)
      | Inr _ \<Rightarrow>
     (case hop_admit D (ce_now E w) (host_of (rq_uri req)) cb of
        (ms, Inl e, cb) \<Rightarrow> (ms, [], Return (Ready (Inl e)), w, cb)
      | (ms, Inr hop, cb) \<Rightarrow>
     (case ce_request E req w cb of
        (outcome, w, cb) \<Rightarrow>
          (let now = ce_now E w;
               (ms', ev, t, cb) =
                 (case outcome of
                    Dropped \<Rightarrow>
                      (case hop_drop D now hop cb of
                         (ms', cb) \<Rightarrow> (ms', [Failed (hop_host hop)], Return Dropped, cb))
                  | Ready (Inl err) \<Rightarrow>
                      (case settle_failure D now hop cb of
                         (ms', ev, cb) \<Rightarrow> (ms', ev, Return (Ready (Inl (UpstreamErr err))), cb))
                  | Ready (Inr response) \<Rightarrow>
                      after_response H U D u metric_host now st hops hop response cb)
           in (ms @ ms', Admitted (hop_host hop) # Requested req # ev, t, w, cb)))))"

subsection \<open>The loop\<close>

lemma after_response_Next:
  assumes "after_response H U D u mh now st hops hop r cb = (ms, ev, Next st' req, cb')"
  shows "hops < cl_max_redirects (ups_config u) \<and>
    prepare_next H U st r (cl_allow_https_to_http_downgrade (ups_config u)) = (Inr (Continue req), st')"
  using assms
  by (auto simp: after_response_def Let_def
      split: if_splits prod.splits redirect_policy.splits sum.splits next_hop.splits)

lemma hop_turn_Next:
  assumes "hop_turn H U D E u mh st hops req w cb = (ms, ev, Next st' req', w', cb')"
  shows "hops < cl_max_redirects (ups_config u) \<and>
    (\<exists>r. prepare_next H U st r (cl_allow_https_to_http_downgrade (ups_config u)) = (Inr (Continue req'), st'))"
  using assms
  by (auto simp: hop_turn_def Let_def dest: after_response_Next
      split: sum.splits prod.splits awaited.splits)

lemma hops_grow: "hops < (k :: u8) \<Longrightarrow> unat k - unat (sat_add hops 1) < unat k - unat hops"
  using unsigned_less [of k, where ?'a = nat]
  by (simp add: unat_sat_add word_less_nat_alt)

function execute_loop ::
  "'h header_lib \<Rightarrow> 'u url_lib \<Rightarrow> 'm hosts_lib \<Rightarrow> ('w, 'h, 'm) client_env \<Rightarrow> upstream \<Rightarrow> string \<Rightarrow>
     'h redirect_state \<Rightarrow> u8 \<Rightarrow> 'h request \<Rightarrow> 'w \<Rightarrow> 'm circuit_breaker \<Rightarrow>
     metric list \<times> 'h hop_event list \<times> 'h response res awaited \<times> 'w \<times> 'm circuit_breaker" where
  "execute_loop H U D E u metric_host st hops req w cb =
     (case hop_turn H U D E u metric_host st hops req w cb of
        (ms, ev, Return r, w', cb') \<Rightarrow> (ms, ev, r, w', cb')
      | (ms, ev, Next st' req', w', cb') \<Rightarrow>
          (case execute_loop H U D E u metric_host st' (sat_add hops 1) req' w' cb' of
             (ms', ev', r, w'', cb'') \<Rightarrow> (ms @ ms', ev @ ev', r, w'', cb'')))"
  by pat_completeness auto
termination
proof (relation "measure (\<lambda>(H, U, D, E, u, mh, st, hops, req, w, cb).
      unat (cl_max_redirects (ups_config u)) - unat hops)", goal_cases)
  case 1
  then show ?case by simp
next
  case 2
  then show ?case by (auto dest!: sym [of _ "hop_turn _ _ _ _ _ _ _ _ _ _ _"] hop_turn_Next intro: hops_grow)
qed

declare execute_loop.simps [simp del]

definition execute ::
  "'h header_lib \<Rightarrow> 'u url_lib \<Rightarrow> 'm hosts_lib \<Rightarrow> ('w, 'h, 'm) client_env \<Rightarrow> upstream \<Rightarrow>
     'h request \<Rightarrow> 'w \<Rightarrow> 'm circuit_breaker \<Rightarrow>
     metric list \<times> 'h hop_event list \<times> 'h response res awaited \<times> 'w \<times> 'm circuit_breaker" where
  "execute H U D E u request w cb =
     (let (st, first_request) = split_initial request;
          metric_host = host_of (rd_uri st)
      in execute_loop H U D E u metric_host st 0 first_request w cb)"

subsection \<open>What a run did\<close>

fun well_settled :: "'h hop_event list \<Rightarrow> bool" where
  "well_settled [] \<longleftrightarrow> True"
| "well_settled (Admitted h # Requested r # Succeeded h' # ev) \<longleftrightarrow>
     h = host_of (rq_uri r) \<and> h' = h \<and> well_settled ev"
| "well_settled (Admitted h # Requested r # Failed h' # ev) \<longleftrightarrow>
     h = host_of (rq_uri r) \<and> h' = h \<and> well_settled ev"
| "well_settled _ \<longleftrightarrow> False"

fun sent :: "'h hop_event list \<Rightarrow> 'h request list" where
  "sent [] = []"
| "sent (Requested r # ev) = r # sent ev"
| "sent (_ # ev) = sent ev"

definition hop_events :: "'h request \<Rightarrow> 'h hop_event \<Rightarrow> 'h hop_event list" where
  "hop_events r e = [Admitted (host_of (rq_uri r)), Requested r, e]"

definition settlement :: "'h request \<Rightarrow> 'h hop_event \<Rightarrow> bool" where
  "settlement r e \<longleftrightarrow> e \<in> {Succeeded (host_of (rq_uri r)), Failed (host_of (rq_uri r))}"

lemma sent_append: "sent (ev @ ev') = sent ev @ sent ev'"
  by (induction ev rule: sent.induct) simp_all

lemma sent_hop_events [simp]: "settlement r e \<Longrightarrow> sent (hop_events r e) = [r]"
  by (auto simp: hop_events_def settlement_def)

lemma well_settled_hop: "settlement r e \<Longrightarrow> well_settled (hop_events r e @ ev) \<longleftrightarrow> well_settled ev"
  by (auto simp: hop_events_def settlement_def)

text \<open>What one turn did: nothing but fail, or exactly one admitted, sent and settled request.\<close>

lemma hop_admit_host: "hop_admit D now h cb = (ms, Inr hop, cb') \<Longrightarrow> hop_host hop = h"
  by (auto simp: hop_admit_def bind_res_eq_Inr split: prod.splits)

lemma hop_admit_error:
  "hop_admit D now h cb = (ms, Inl e, cb') \<Longrightarrow> error_kind_of e = CircuitOpenKind"
  by (auto simp: hop_admit_def check_circuit_def bind_res_eq_Inl Let_def split: prod.splits if_splits)

lemma settle_events:
  "settle_success D now hop cb = (ms, ev, cb') \<Longrightarrow> ev = [Succeeded (hop_host hop)]"
  "settle_failure D now hop cb = (ms, ev, cb') \<Longrightarrow> ev = [Failed (hop_host hop)]"
  "settle_terminal D now hop status cb = (ms, ev, cb') \<Longrightarrow>
     ev = [Succeeded (hop_host hop)] \<or> ev = [Failed (hop_host hop)]"
  by (auto simp: settle_terminal_def settle_success_def settle_failure_def
      split: prod.splits if_splits)

lemma after_response_events:
  assumes "after_response H U D u mh now st hops hop r cb = (ms, ev, t, cb')"
  shows "ev = [Succeeded (hop_host hop)] \<or> ev = [Failed (hop_host hop)]"
  using assms
  by (auto simp: after_response_def Let_def dest: settle_events
      split: if_splits prod.splits redirect_policy.splits sum.splits next_hop.splits)

lemma hop_turn_events:
  assumes "hop_turn H U D E u mh st hops req w cb = (ms, ev, t, w', cb')"
  obtains (refused) e where "ev = []" "t = Return (Ready (Inl e))"
  | (hop) e where "check_uri (ups_target_policy u) (rq_uri req) = Inr ()" "settlement req e"
      "ev = hop_events req e"
proof (cases "check_uri (ups_target_policy u) (rq_uri req)")
  case (Inl e)
  with assms show thesis by (auto simp: hop_turn_def intro: refused)
next
  case pol: (Inr x)
  obtain ms1 a cb1 where adm: "hop_admit D (ce_now E w) (host_of (rq_uri req)) cb = (ms1, a, cb1)"
    by (cases "hop_admit D (ce_now E w) (host_of (rq_uri req)) cb")
  show thesis
  proof (cases a)
    case (Inl e)
    with pol adm assms show thesis by (auto simp: hop_turn_def intro: refused)
  next
    case (Inr hop)
    have h: "hop_host hop = host_of (rq_uri req)"
      using adm Inr hop_admit_host by blast
    obtain ev' where ev: "ev = Admitted (hop_host hop) # Requested req # ev'"
      and ev': "ev' = [Succeeded (hop_host hop)] \<or> ev' = [Failed (hop_host hop)]"
      using assms pol adm Inr
      by (auto simp: hop_turn_def Let_def dest: after_response_events settle_events
          split: prod.splits awaited.splits sum.splits)
    from ev ev' h have "ev = hop_events req (hd ev') \<and> settlement req (hd ev')"
      by (auto simp: hop_events_def settlement_def)
    then show thesis using hop pol by auto
  qed
qed

subsection \<open>What a run answers\<close>

definition execute_kinds :: "error_kind set" where
  "execute_kinds =
     {InvalidUrlKind, TargetNotAllowedKind, CircuitOpenKind, UpstreamUnreachableKind,
      RedirectBlockedKind, TooManyRedirectsKind}"

lemma check_uri_error: "check_uri p uri = Inl e \<Longrightarrow> error_kind_of e \<in> {InvalidUrlKind, TargetNotAllowedKind}"
  by (auto simp: check_uri_def dest: check_authority_error split: option.splits)

lemma after_response_error:
  assumes "after_response H U D u mh now st hops hop r cb = (ms, ev, Return (Ready (Inl e)), cb')"
  shows "error_kind_of e \<in> execute_kinds"
  using assms
  by (auto simp: after_response_def Let_def execute_kinds_def is_invalid_url_def
      dest!: prepare_next_error
      split: if_splits prod.splits redirect_policy.splits sum.splits next_hop.splits)

lemma hop_turn_error:
  assumes "hop_turn H U D E u mh st hops req w cb = (ms, ev, Return (Ready (Inl e)), w', cb')"
  shows "error_kind_of e \<in> execute_kinds"
  using assms
  by (auto simp: hop_turn_def Let_def execute_kinds_def
      dest: check_uri_error hop_admit_error after_response_error [unfolded execute_kinds_def]
      split: sum.splits prod.splits awaited.splits)

lemma after_response_too_many:
  assumes "after_response H U D u mh now st hops hop r cb =
    (ms, ev, Return (Ready (Inl (TooManyRedirects n))), cb')"
  shows "cl_max_redirects (ups_config u) \<le> hops \<and> n = cl_max_redirects (ups_config u)"
  using assms
  by (auto simp: after_response_def Let_def is_invalid_url_def dest!: prepare_next_error
      split: if_splits prod.splits redirect_policy.splits sum.splits next_hop.splits)

lemma after_response_done:
  assumes "after_response H U D u mh now st hops hop r cb = (ms, ev, Return (Ready (Inr r')), cb')"
  shows "r' = r \<and> (cl_redirect_policy (ups_config u) = Block \<longrightarrow> \<not> is_redirect (rs_status r))"
  using assms
  by (auto simp: after_response_def Let_def
      split: if_splits prod.splits redirect_policy.splits sum.splits next_hop.splits)

lemma after_response_follow:
  assumes "after_response H U D u mh now st hops hop r cb = (ms, ev, Next st' req, cb')"
  shows "cl_redirect_policy (ups_config u) = Follow"
  using assms
  by (auto simp: after_response_def Let_def
      split: if_splits prod.splits redirect_policy.splits sum.splits next_hop.splits)

lemma hop_turn_follow:
  assumes "hop_turn H U D E u mh st hops req w cb = (ms, ev, Next st' req', w', cb')"
  shows "cl_redirect_policy (ups_config u) = Follow"
  using assms
  by (auto simp: hop_turn_def Let_def dest: after_response_follow
      split: sum.splits prod.splits awaited.splits)

lemma hop_turn_too_many:
  assumes "hop_turn H U D E u mh st hops req w cb =
    (ms, ev, Return (Ready (Inl (TooManyRedirects n))), w', cb')"
  shows "cl_max_redirects (ups_config u) \<le> hops \<and> ev \<noteq> []"
  using assms check_uri_error [of "ups_target_policy u" "rq_uri req" "TooManyRedirects n"]
    hop_admit_error [of D "ce_now E w" "host_of (rq_uri req)" cb _ "TooManyRedirects n"]
  by (auto simp: hop_turn_def Let_def dest: after_response_too_many
      split: sum.splits prod.splits awaited.splits)

lemma hop_turn_block:
  assumes "hop_turn H U D E u mh st hops req w cb = (ms, ev, Return (Ready (Inr r)), w', cb')"
  shows "cl_redirect_policy (ups_config u) = Block \<longrightarrow> \<not> is_redirect (rs_status r)"
  using assms
  by (auto simp: hop_turn_def Let_def dest: after_response_done
      split: sum.splits prod.splits awaited.splits)

subsection \<open>The chain of requests\<close>

text \<open>How each request of a chain follows from the one before it.\<close>

definition follows :: "'h header_lib \<Rightarrow> bool \<Rightarrow> 'h request \<Rightarrow> 'h request \<Rightarrow> bool" where
  "follows H allow_downgrade a b \<longleftrightarrow>
     u_scheme (rq_uri b) \<in> {Some ''http'', Some ''https''} \<and>
     (allow_downgrade \<or> \<not> is_https_to_http_downgrade (rq_uri a) (rq_uri b)) \<and>
     \<not> body_bearing (rq_method b) \<and> rq_body b = [] \<and>
     (authority_differs (rq_uri a) (rq_uri b) \<longrightarrow>
        list_all (\<lambda>n. hm_get_all H (rq_headers b) n = []) (HOST # SENSITIVE_HEADERS)) \<and>
     (\<forall>n. hm_get_all H (rq_headers b) n \<in> {[], hm_get_all H (rq_headers a) n})"

definition allows_downgrade :: "upstream \<Rightarrow> bool" where
  "allows_downgrade u = cl_allow_https_to_http_downgrade (ups_config u)"

context header_map begin

lemma hop_turn_follows:
  assumes "hop_turn H U D E u mh st hops req w cb = (ms, ev, Next st' req', w', cb')"
    "in_step H st req"
  shows "follows H (allows_downgrade u) req req' \<and> in_step H st' req'"
proof -
  from hop_turn_Next [OF assms(1)] obtain r where
    p: "prepare_next H U st r (allows_downgrade u) = (Inr (Continue req'), st')"
    by (auto simp: allows_downgrade_def)
  from prepare_next_safe [OF p] prepare_next_headers_kept [OF p] assms(2) show ?thesis
    by (auto simp: follows_def hop_safe_def in_step_def)
qed

end

lemma execute_loop_chain:
  assumes "execute_loop H U D E u mh st hops req w cb = (ms, ev, r, w', cb')" "in_step H st req"
    "header_map H"
  shows "well_settled ev \<and>
    (\<forall>q \<in> set (sent ev). check_uri (ups_target_policy u) (rq_uri q) = Inr ()) \<and>
    successively (follows H (allows_downgrade u)) (sent ev) \<and>
    (sent ev = [] \<or> hd (sent ev) = req) \<and>
    length (sent ev) \<le> unat (cl_max_redirects (ups_config u)) - unat hops + 1"
  using assms
proof (induction H U D E u mh st hops req w cb arbitrary: ms ev r w' cb' rule: execute_loop.induct)
  case (1 H U D E u mh st hops req w cb)
  obtain ms1 ev1 t w1 cb1 where turn: "hop_turn H U D E u mh st hops req w cb = (ms1, ev1, t, w1, cb1)"
    by (cases "hop_turn H U D E u mh st hops req w cb")
  show ?case
  proof (cases t)
    case (Return r')
    with "1.prems" turn have "ev = ev1" by (simp add: execute_loop.simps [of H])
    with turn show ?thesis
      by (cases rule: hop_turn_events)
         (use well_settled_hop [of req _ "[]"] in auto)
  next
    case (Next st' req')
    obtain ms2 ev2 r2 w2 cb2 where
      rec: "execute_loop H U D E u mh st' (sat_add hops 1) req' w1 cb1 = (ms2, ev2, r2, w2, cb2)"
      by (cases "execute_loop H U D E u mh st' (sat_add hops 1) req' w1 cb1")
    with "1.prems" turn Next have ev: "ev = ev1 @ ev2"
      by (simp add: execute_loop.simps [of H])
    have next': "hop_turn H U D E u mh st hops req w cb = (ms1, ev1, Next st' req', w1, cb1)"
      using turn Next by simp
    have link: "follows H (allows_downgrade u) req req'" "in_step H st' req'"
      using header_map.hop_turn_follows [OF "1.prems"(3) next' "1.prems"(2)] by simp_all
    have bound: "hops < cl_max_redirects (ups_config u)"
      using hop_turn_Next [OF next'] by simp
    note IH = "1.IH" [OF next' [symmetric] refl refl refl refl rec link(2) "1.prems"(3)]
    have len: "length (sent ev2) \<le> unat (cl_max_redirects (ups_config u)) - unat hops"
      using IH hops_grow [OF bound] by linarith
    from next' show ?thesis
    proof (cases rule: hop_turn_events)
      case (hop e)
      then have sent: "sent ev = req # sent ev2"
        by (simp add: ev sent_append)
      have settled: "well_settled ev \<longleftrightarrow> well_settled ev2"
        using hop by (simp add: ev well_settled_hop)
      show ?thesis
        using IH link(1) hop(1) len
        by (cases "sent ev2") (auto simp: sent settled)
    qed simp
  qed
qed

lemma execute_loop_outcome:
  assumes "execute_loop H U D E u mh st hops req w cb = (ms, ev, r, w', cb')"
    "hops \<le> cl_max_redirects (ups_config u)"
  shows "(\<forall>e. r = Ready (Inl e) \<longrightarrow> error_kind_of e \<in> execute_kinds) \<and>
    (\<forall>n. r = Ready (Inl (TooManyRedirects n)) \<longrightarrow>
       length (sent ev) = unat (cl_max_redirects (ups_config u)) - unat hops + 1) \<and>
    (\<forall>resp. r = Ready (Inr resp) \<and> cl_redirect_policy (ups_config u) = Block \<longrightarrow>
       \<not> is_redirect (rs_status resp)) \<and>
    (cl_redirect_policy (ups_config u) \<noteq> Follow \<longrightarrow> length (sent ev) \<le> 1)"
  using assms
proof (induction H U D E u mh st hops req w cb arbitrary: ms ev r w' cb' rule: execute_loop.induct)
  case (1 H U D E u mh st hops req w cb)
  obtain ms1 ev1 t w1 cb1 where turn: "hop_turn H U D E u mh st hops req w cb = (ms1, ev1, t, w1, cb1)"
    by (cases "hop_turn H U D E u mh st hops req w cb")
  have one: "length (sent ev1) \<le> 1" "ev1 \<noteq> [] \<Longrightarrow> length (sent ev1) = 1"
    using turn by (auto elim: hop_turn_events)
  show ?case
  proof (cases t)
    case (Return r')
    with "1.prems" turn have r: "ev = ev1" "r = r'" by (simp_all add: execute_loop.simps [of H])
    with turn Return show ?thesis
      using one hop_turn_error hop_turn_too_many hop_turn_block "1.prems"(2)
      by (fastforce simp: word_le_nat_alt)
  next
    case (Next st' req')
    have next': "hop_turn H U D E u mh st hops req w cb = (ms1, ev1, Next st' req', w1, cb1)"
      using turn Next by simp
    obtain ms2 ev2 r2 w2 cb2 where
      rec: "execute_loop H U D E u mh st' (sat_add hops 1) req' w1 cb1 = (ms2, ev2, r2, w2, cb2)"
      by (cases "execute_loop H U D E u mh st' (sat_add hops 1) req' w1 cb1")
    with "1.prems" turn Next have ev: "ev = ev1 @ ev2" "r = r2"
      by (simp_all add: execute_loop.simps [of H])
    have bound: "hops < cl_max_redirects (ups_config u)"
      using hop_turn_Next [OF next'] by simp
    have "unat (cl_max_redirects (ups_config u)) < 256"
      using unsigned_less [of "cl_max_redirects (ups_config u)", where ?'a = nat] by simp
    with bound have grow: "unat (sat_add hops 1) = unat hops + 1"
      "sat_add hops 1 \<le> cl_max_redirects (ups_config u)"
      by (simp_all add: unat_sat_add word_less_nat_alt word_le_nat_alt)
    have one': "length (sent ev1) = 1"
      using next' by (auto elim: hop_turn_events)
    note IH = "1.IH" [OF next' [symmetric] refl refl refl refl rec grow(2)]
    then show ?thesis
      using ev grow bound one' hop_turn_follow [OF next']
      by (auto simp: sent_append word_less_nat_alt)
  qed
qed

lemma execute_initial: "in_step H (fst (split_initial request)) (snd (split_initial request))"
  by (simp add: split_initial_def from_initial_def in_step_def)

lemma execute_run:
  assumes "execute H U D E u request w cb = (ms, ev, r, w', cb')"
  shows "execute_loop H U D E u (host_of (rq_uri request))
    (from_initial (rq_method request) (rq_uri request) (rq_headers request)) 0 request w cb =
    (ms, ev, r, w', cb')"
  using assms by (simp add: execute_def split_initial_def from_initial_def)

text \<open>Along a chain, a header that is gone stays gone.\<close>

lemma follows_headers_gone:
  assumes "successively (follows H d) qs" "i \<le> j" "j < length qs"
    "hm_get_all H (rq_headers (qs ! i)) n = []"
  shows "hm_get_all H (rq_headers (qs ! j)) n = []"
  using assms(2,3)
proof (induction j)
  case 0
  with assms(4) show ?case by simp
next
  case (Suc j)
  show ?case
  proof (cases "i = Suc j")
    case True
    with assms(4) show ?thesis by simp
  next
    case False
    with Suc have "hm_get_all H (rq_headers (qs ! j)) n = []" by simp
    moreover have "follows H d (qs ! j) (qs ! Suc j)"
      using assms(1) Suc.prems(2) by (simp add: successively_conv_nth)
    ultimately show ?thesis
      unfolding follows_def by (metis empty_iff insert_iff)
  qed
qed

subsection \<open>How a run ends\<close>

text \<open>Why a request is not sent.\<close>

definition refuses :: "upstream \<Rightarrow> 'h request \<Rightarrow> proxy_error \<Rightarrow> bool" where
  "refuses u q e \<longleftrightarrow>
     check_uri (ups_target_policy u) (rq_uri q) = Inl e \<or>
     check_uri (ups_target_policy u) (rq_uri q) = Inr () \<and> e = CircuitOpen (host_of (rq_uri q))"

text \<open>What the last answer of the client makes of a chain of \<open>n\<close> requests that ends with it.\<close>

definition answers_chain ::
  "'h header_lib \<Rightarrow> 'u url_lib \<Rightarrow> upstream \<Rightarrow> nat \<Rightarrow> 'h redirect_state \<Rightarrow> (string + 'h response) awaited \<Rightarrow>
     'h response res awaited \<Rightarrow> bool" where
  "answers_chain H U u n st answer r \<longleftrightarrow>
     (case answer of
        Dropped \<Rightarrow> r = Dropped
      | Ready (Inl err) \<Rightarrow> r = Ready (Inl (UpstreamErr err))
      | Ready (Inr resp) \<Rightarrow>
          if \<not> is_redirect (rs_status resp) \<or> cl_redirect_policy (ups_config u) = Rewrite then r = Ready (Inr resp)
          else if cl_redirect_policy (ups_config u) = Block
          then r = Ready (Inl (RedirectBlocked ''redirect policy is block''))
          else if unat (cl_max_redirects (ups_config u)) < n
          then r = Ready (Inl (TooManyRedirects (cl_max_redirects (ups_config u))))
          else (case fst (prepare_next H U st resp (allows_downgrade u)) of
                  Inl e \<Rightarrow> r = Ready (Inl e)
                | Inr (Stop reason) \<Rightarrow> r = Ready (Inr resp)
                | Inr (Continue q) \<Rightarrow> \<exists>e. r = Ready (Inl e) \<and> refuses u q e))"

text \<open>A chain of \<open>n\<close> requests goes on with \<open>q\<close>.\<close>

definition continues_chain ::
  "'h header_lib \<Rightarrow> 'u url_lib \<Rightarrow> upstream \<Rightarrow> nat \<Rightarrow> 'h redirect_state \<Rightarrow> (string + 'h response) awaited \<Rightarrow>
     'h request \<Rightarrow> bool" where
  "continues_chain H U u n st answer q \<longleftrightarrow>
     cl_redirect_policy (ups_config u) = Follow \<and> n \<le> unat (cl_max_redirects (ups_config u)) \<and>
     (\<exists>resp. answer = Ready (Inr resp) \<and> is_redirect (rs_status resp) \<and>
        fst (prepare_next H U st resp (allows_downgrade u)) = Inr (Continue q))"

lemma hop_admit_refusal: "hop_admit D now h cb = (ms, Inl e, cb') \<Longrightarrow> e = CircuitOpen h"
  by (auto simp: hop_admit_def check_circuit_def bind_res_eq_Inl Let_def split: prod.splits if_splits)

lemma after_response_ends:
  assumes "after_response H U D u mh now st hops hop resp cb = (ms, ev, Return r, cb')"
  shows "answers_chain H U u (unat hops + 1) st (Ready (Inr resp)) r"
  using assms
  by (auto simp: after_response_def answers_chain_def allows_downgrade_def Let_def word_le_nat_alt
      split: if_splits prod.splits redirect_policy.splits sum.splits next_hop.splits)

lemma after_response_continues:
  assumes "after_response H U D u mh now st hops hop resp cb = (ms, ev, Next st' q, cb')"
  shows "continues_chain H U u (unat hops + 1) st (Ready (Inr resp)) q"
  using assms
  by (auto simp: after_response_def continues_chain_def allows_downgrade_def Let_def word_le_nat_alt
      split: if_splits prod.splits redirect_policy.splits sum.splits next_hop.splits)

lemma hop_turn_ends:
  assumes "hop_turn H U D E u mh st hops req w cb = (ms, ev, Return r, w', cb')"
  obtains (refused) e where "ev = []" "w' = w" "r = Ready (Inl e)" "refuses u req e"
  | (answered) cb0 cb1 answer where "sent ev = [req]" "ce_request E req w cb0 = (answer, w', cb1)"
      "answers_chain H U u (unat hops + 1) st answer r"
proof (cases "check_uri (ups_target_policy u) (rq_uri req)")
  case (Inl e)
  with assms show thesis by (auto simp: hop_turn_def refuses_def intro: refused)
next
  case pol: (Inr x)
  obtain ms1 a cb0 where adm: "hop_admit D (ce_now E w) (host_of (rq_uri req)) cb = (ms1, a, cb0)"
    by (cases "hop_admit D (ce_now E w) (host_of (rq_uri req)) cb")
  obtain answer w1 cb1 where req: "ce_request E req w cb0 = (answer, w1, cb1)"
    by (cases "ce_request E req w cb0")
  show thesis
  proof (cases a)
    case (Inl e)
    with pol adm assms show thesis
      using hop_admit_refusal [OF adm [unfolded Inl]]
      by (intro refused [of e]) (auto simp: hop_turn_def refuses_def)
  next
    case (Inr hop)
    have "ev \<noteq> []"
      using assms pol adm Inr by (auto simp: hop_turn_def Let_def split: prod.splits)
    with assms have "sent ev = [req]" by (cases rule: hop_turn_events) auto
    moreover have "w1 = w'" "answers_chain H U u (unat hops + 1) st answer r"
      using assms pol adm Inr req
      by (auto simp: hop_turn_def Let_def answers_chain_def dest!: after_response_ends
          split: prod.splits awaited.splits sum.splits)
    ultimately show thesis using answered req by blast
  qed
qed


lemma hop_turn_continues:
  assumes "hop_turn H U D E u mh st hops req w cb = (ms, ev, Next st' q, w', cb')"
  obtains cb0 cb1 answer where "sent ev = [req]" "ce_request E req w cb0 = (answer, w', cb1)"
    "continues_chain H U u (unat hops + 1) st answer q"
proof -
  have "sent ev = [req]" using assms by (cases rule: hop_turn_events) auto
  moreover have "\<exists>cb0 cb1 answer. ce_request E req w cb0 = (answer, w', cb1) \<and>
      continues_chain H U u (unat hops + 1) st answer q"
    using assms
    by (fastforce simp: hop_turn_def Let_def dest!: after_response_continues
        split: prod.splits awaited.splits sum.splits)
  ultimately show thesis using that by blast
qed

text \<open>
  How a run ends: with a request that is refused before it is sent, the first one or the one the
  last answer continues with; or with the last answer.
\<close>

definition run_ends ::
  "'h header_lib \<Rightarrow> 'u url_lib \<Rightarrow> ('w, 'h, 'm) client_env \<Rightarrow> upstream \<Rightarrow> 'h request \<Rightarrow> nat \<Rightarrow>
     'h request list \<Rightarrow> 'h response res awaited \<Rightarrow> 'w \<Rightarrow> bool" where
  "run_ends H U E u first n qs r w' \<longleftrightarrow>
     (if qs = [] then \<exists>e. r = Ready (Inl e) \<and> refuses u first e
      else \<exists>st answer w0 cb0 cb1. in_step H st (last qs) \<and> ce_request E (last qs) w0 cb0 = (answer, w', cb1) \<and>
        answers_chain H U u n st answer r)"

lemma execute_loop_ends:
  assumes "execute_loop H U D E u mh st hops req w cb = (ms, ev, r, w', cb')" "in_step H st req"
    "header_map H" "hops \<le> cl_max_redirects (ups_config u)"
  shows "run_ends H U E u req (unat hops + length (sent ev)) (sent ev) r w' \<and> (sent ev = [] \<longrightarrow> w' = w)"
  using assms
proof (induction H U D E u mh st hops req w cb arbitrary: ms ev r w' cb' rule: execute_loop.induct)
  case (1 H U D E u mh st hops req w cb)
  obtain ms1 ev1 t w1 cb1 where turn: "hop_turn H U D E u mh st hops req w cb = (ms1, ev1, t, w1, cb1)"
    by (cases "hop_turn H U D E u mh st hops req w cb")
  show ?case
  proof (cases t)
    case (Return r')
    with "1.prems" turn have r: "ev = ev1" "r = r'" "w' = w1" by (simp_all add: execute_loop.simps [of H])
    from turn [unfolded Return] show ?thesis
    proof (cases rule: hop_turn_ends)
      case (refused e)
      then show ?thesis by (simp add: r run_ends_def)
    next
      case (answered cb0 cb1 answer)
      then show ?thesis using "1.prems"(2) by (simp add: r run_ends_def) blast
    qed
  next
    case (Next st' req')
    have next': "hop_turn H U D E u mh st hops req w cb = (ms1, ev1, Next st' req', w1, cb1)"
      using turn Next by simp
    obtain ms2 ev2 r2 w2 cb2 where
      rec: "execute_loop H U D E u mh st' (sat_add hops 1) req' w1 cb1 = (ms2, ev2, r2, w2, cb2)"
      by (cases "execute_loop H U D E u mh st' (sat_add hops 1) req' w1 cb1")
    with "1.prems" turn Next have ev: "ev = ev1 @ ev2" "r = r2" "w' = w2"
      by (simp_all add: execute_loop.simps [of H])
    have link: "in_step H st' req'"
      using header_map.hop_turn_follows [OF "1.prems"(3) next' "1.prems"(2)] by simp
    have bound: "hops < cl_max_redirects (ups_config u)"
      using hop_turn_Next [OF next'] by simp
    have "unat (cl_max_redirects (ups_config u)) < 256"
      using unsigned_less [of "cl_max_redirects (ups_config u)", where ?'a = nat] by simp
    with bound have grow: "unat (sat_add hops 1) = unat hops + 1"
      "sat_add hops 1 \<le> cl_max_redirects (ups_config u)"
      by (simp_all add: unat_sat_add word_less_nat_alt word_le_nat_alt)
    note IH = "1.IH" [OF next' [symmetric] refl refl refl refl rec link "1.prems"(3) grow(2)]
    from next' show ?thesis
    proof (cases rule: hop_turn_continues)
      case (1 cb0 cb1' answer)
      then have sent: "sent ev = req # sent ev2" by (simp add: ev sent_append)
      show ?thesis
      proof (cases "sent ev2")
        case Nil
        with IH have "w2 = w1" "\<exists>e. r = Ready (Inl e) \<and> refuses u req' e" by (simp_all add: run_ends_def ev)
        moreover have "answers_chain H U u (unat hops + 1) st answer r" if "\<exists>e. r = Ready (Inl e) \<and> refuses u req' e"
          using 1(3) that by (auto simp: continues_chain_def answers_chain_def)
        ultimately show ?thesis using 1(2) "1.prems"(2) Nil by (simp add: run_ends_def sent ev(3)) blast
      next
        case (Cons q qs)
        with IH show ?thesis by (simp add: run_ends_def sent ev(2,3) grow)
      qed
    qed
  qed
qed

subsection \<open>Where the guard is asked\<close>

text \<open>
  \<open>execute\<close> itself never asks the SSRF guard: its answer does not depend on it. The guard decides
  about a connection only where the client asks the resolver for a name.
\<close>

lemma guard_update_sel:
  "ups_config (u\<lparr>ups_guard := g\<rparr>) = ups_config u"
  "ups_target_policy (u\<lparr>ups_guard := g\<rparr>) = ups_target_policy u"
  by simp_all

lemma after_response_ignores_guard:
  "after_response H U D (u\<lparr>ups_guard := g\<rparr>) mh now st hops hop r cb = after_response H U D u mh now st hops hop r cb"
  unfolding after_response_def guard_update_sel by (rule refl)

lemma hop_turn_ignores_guard:
  "hop_turn H U D E (u\<lparr>ups_guard := g\<rparr>) mh st hops req w cb = hop_turn H U D E u mh st hops req w cb"
  unfolding hop_turn_def guard_update_sel after_response_ignores_guard by (rule refl)

lemma execute_loop_ignores_guard:
  "execute_loop H U D E (u\<lparr>ups_guard := g\<rparr>) mh st hops req w cb = execute_loop H U D E u mh st hops req w cb"
proof (induction H U D E u mh st hops req w cb rule: execute_loop.induct)
  case (1 H U D E u mh st hops req w cb)
  obtain ms ev t w1 cb1 where turn: "hop_turn H U D E u mh st hops req w cb = (ms, ev, t, w1, cb1)"
    by (metis prod_cases5)
  show ?case
  proof (cases t)
    case Return
    then show ?thesis
      by (simp add: execute_loop.simps [of H U D E _ mh st hops req w cb] hop_turn_ignores_guard turn)
  next
    case (Next st' req')
    with 1 turn show ?thesis
      by (simp add: execute_loop.simps [of H U D E _ mh st hops req w cb] hop_turn_ignores_guard)
  qed
qed

lemma execute_ignores_guard: "execute H U D E (u\<lparr>ups_guard := g\<rparr>) req w cb = execute H U D E u req w cb"
  by (simp add: execute_def execute_loop_ignores_guard)

subsection \<open>Properties\<close>

definition example_env :: "(entries response list, entries, (string, host_circuit) alist_map) client_env" where
  "example_env =
     \<lparr>ce_now = (\<lambda>_. 0),
      ce_request = (\<lambda>req w cb. case w of
          [] \<Rightarrow> (Ready (Inl ''closed''), [], cb)
        | r # rs \<Rightarrow> (Ready (Inr r), rs, cb))\<rparr>"

definition example_upstream :: "redirect_policy \<Rightarrow> upstream" where
  "example_upstream p =
     \<lparr>ups_guard = ssrf_new plain_nets default_ssrf_config,
      ups_config =
        \<lparr>cl_pool_max_idle_per_host = 1, cl_pool_idle_timeout = 0, cl_connect_timeout = 0,
         cl_max_redirects = 1, cl_allow_https_to_http_downgrade = False, cl_redirect_policy = p,
         cl_user_agent = ''corx''\<rparr>,
      ups_target_policy = target_from_config default_target_config\<rparr>"

definition example_uri :: "string \<Rightarrow> string \<Rightarrow> uri" where
  "example_uri host path =
     \<lparr>u_scheme = Some ''https'', u_authority = Some host, u_host = Some host, u_path = path,
      u_query = None\<rparr>"

definition example_request :: "entries request" where
  "example_request =
     \<lparr>rq_method = ''GET'', rq_uri = example_uri ''a.test'' ''/x'', rq_headers = [(''cookie'', ''s=1'')],
      rq_body = []\<rparr>"

definition example_breaker :: "(string, host_circuit) alist_map circuit_breaker" where
  "example_breaker =
     circuit_from_config alist_dash (default_circuit_breaker_config\<lparr>cb_enabled := False\<rparr>)"

lemmas execute_eval =
  execute_def execute_loop.simps split_initial_def from_initial_def hop_turn_def check_uri_def
  check_authority_def target_from_config_def default_target_config_def default_schemes_def
  hop_admit_def check_circuit_def after_response_def settle_terminal_def settle_success_def
  settle_failure_def hop_success_def hop_failure_def hop_drop_def record_success_def
  record_failure_def example_env_def example_upstream_def example_uri_def example_request_def
  example_breaker_def circuit_from_config_def is_redirect_def is_server_error_def host_of_def

definition example_second :: "entries request" where
  "example_second =
     \<lparr>rq_method = ''GET'', rq_uri = example_uri ''b.test'' ''/y'', rq_headers = [], rq_body = []\<rparr>"

lemma example_run:
  "sent (fst (snd (execute list_headers plain_urls alist_dash example_env (example_upstream Follow)
       example_request [example_redirect 302 ''https://b.test/y'', example_redirect 302 ''/z'']
       example_breaker))) = [example_request, example_second] \<and>
   fst (snd (snd (execute list_headers plain_urls alist_dash example_env (example_upstream Follow)
       example_request [example_redirect 302 ''https://b.test/y'', example_redirect 302 ''/z'']
       example_breaker))) = Ready (Inl (TooManyRedirects 1))"
  by (simp add: execute_eval example_second_def sat_add_def redirect_eval)

lemma example_execute:
  obtains ms ev w' cb' where
    "execute list_headers plain_urls alist_dash example_env (example_upstream Follow)
       example_request [example_redirect 302 ''https://b.test/y'', example_redirect 302 ''/z'']
       example_breaker = (ms, ev, Ready (Inl (TooManyRedirects 1)), w', cb')"
    "sent ev = [example_request, example_second]"
  using example_run
  by (cases "execute list_headers plain_urls alist_dash example_env (example_upstream Follow)
       example_request [example_redirect 302 ''https://b.test/y'', example_redirect 302 ''/z'']
       example_breaker") auto



text \<open>
  C20. Credentials stay with the authority they were meant for: once two consecutive requests of a
  chain differ in authority, no later request carries \<open>Authorization\<close>, \<open>Cookie\<close>, the other
  sensitive headers or the old \<open>Host\<close>, not even when the chain returns to the first host. And no
  step of the chain, within an authority or across two, goes from https down to http unless the
  configuration allows it.
\<close>

theorem execute_keeps_credentials:
  assumes "header_map H" "execute H U D E u request w cb = (ms, ev, r, w', cb')" "Suc k < length (sent ev)"
  shows "let here = rq_uri (sent ev ! k); there = rq_uri (sent ev ! Suc k) in
    (allows_downgrade u \<or> \<not> is_https_to_http_downgrade here there) \<and>
    (authority_differs here there \<longrightarrow>
       (\<forall>j > k. j < length (sent ev) \<longrightarrow>
          (\<forall>n \<in> set (HOST # SENSITIVE_HEADERS). hm_get_all H (rq_headers (sent ev ! j)) n = [])))"
proof -
  have chain: "successively (follows H (allows_downgrade u)) (sent ev)"
    using execute_loop_chain [OF execute_run [OF assms(2)] _ assms(1)] execute_initial [of H request]
    by (simp add: split_initial_def)
  then have step: "follows H (allows_downgrade u) (sent ev ! k) (sent ev ! Suc k)"
    using assms(3) by (simp add: successively_conv_nth)
  have "hm_get_all H (rq_headers (sent ev ! j)) n = []"
    if "authority_differs (rq_uri (sent ev ! k)) (rq_uri (sent ev ! Suc k))" "k < j" "j < length (sent ev)"
      "n \<in> set (HOST # SENSITIVE_HEADERS)" for j n
    using step that follows_headers_gone [OF chain, of "Suc k" j n] unfolding follows_def list_all_iff by auto
  with step show ?thesis by (auto simp: follows_def)
qed

lemma execute_keeps_credentials_witness:
  "hm_get_all list_headers (rq_headers example_second) ''cookie'' = []"
proof (rule example_execute)
  fix ms ev w' cb'
  assume run: "execute list_headers plain_urls alist_dash example_env (example_upstream Follow)
       example_request [example_redirect 302 ''https://b.test/y'', example_redirect 302 ''/z'']
       example_breaker = (ms, ev, Ready (Inl (TooManyRedirects 1)), w', cb')"
    and sent: "sent ev = [example_request, example_second]"
  have "authority_differs (rq_uri example_request) (rq_uri example_second)"
    by (simp add: example_request_def example_second_def example_uri_def authority_differs_def str_simps)
  then have "\<forall>n \<in> set (HOST # SENSITIVE_HEADERS). hm_get_all list_headers (rq_headers (sent ev ! 1)) n = []"
    using execute_keeps_credentials [OF list_hdrs.header_map_axioms run, of 0] sent
    by (simp add: Let_def) (meson lessI zero_less_Suc)
  then show ?thesis by (simp add: sent SENSITIVE_HEADERS_def)
qed



end
