(* ===== verification/Forwarded.thy ===== *)
theory Forwarded
  imports Url_Parser Config
begin

text \<open>
  \<open>corx-core/src/proxy/forwarded.rs\<close>: the forwarding headers and the request id stamped on the
  outbound request. \<open>fresh_id\<close> is what \<open>Uuid::now_v7\<close> answers.
\<close>

subsection \<open>Stamping\<close>

definition REQUEST_ID_HEADER :: header_name where "REQUEST_ID_HEADER = ''x-request-id''"
definition X_FORWARDED_FOR :: header_name where "X_FORWARDED_FOR = ''x-forwarded-for''"
definition X_FORWARDED_PROTO :: header_name where "X_FORWARDED_PROTO = ''x-forwarded-proto''"
definition X_FORWARDED_HOST :: header_name where "X_FORWARDED_HOST = ''x-forwarded-host''"
definition X_FORWARDED_PORT :: header_name where "X_FORWARDED_PORT = ''x-forwarded-port''"
definition FORWARDED :: header_name where "FORWARDED = ''forwarded''"

lemmas forwarded_names =
  REQUEST_ID_HEADER_def X_FORWARDED_FOR_def X_FORWARDED_PROTO_def X_FORWARDED_HOST_def
  X_FORWARDED_PORT_def FORWARDED_def

record inbound_context =
  ib_client_ip :: "ip_addr option"
  ib_scheme :: string
  ib_host :: "string option"
  ib_local_port :: "16 word"

definition set_static :: "'h header_lib \<Rightarrow> header_name \<Rightarrow> string \<Rightarrow> 'h \<Rightarrow> 'h" where
  "set_static H n s headers =
     (case hv_from_str H s of Some v \<Rightarrow> hm_insert H headers n v | None \<Rightarrow> headers)"

definition ensure_request_id :: "'h header_lib \<Rightarrow> string \<Rightarrow> 'h \<Rightarrow> 'h" where
  "ensure_request_id H fresh_id headers =
     (if hm_contains H headers REQUEST_ID_HEADER then headers
      else (case hv_from_str H fresh_id of
              Some v \<Rightarrow> hm_insert H headers REQUEST_ID_HEADER v
            | None \<Rightarrow> headers))"

definition append_xff :: "'h header_lib \<Rightarrow> ip_addr \<Rightarrow> 'h \<Rightarrow> 'h" where
  "append_xff H client headers =
     (let appended =
        (case hm_get H headers X_FORWARDED_FOR of
           None \<Rightarrow> show_ip client
         | Some existing \<Rightarrow>
             (case hv_to_str H existing of
                None \<Rightarrow> show_ip client
              | Some prev \<Rightarrow> prev @ '', '' @ show_ip client))
      in case hv_from_str H appended of
           Some v \<Rightarrow> hm_insert H headers X_FORWARDED_FOR v
         | None \<Rightarrow> headers)"

definition replace_xff :: "'h header_lib \<Rightarrow> ip_addr \<Rightarrow> 'h \<Rightarrow> 'h" where
  "replace_xff H client headers =
     (case hv_from_str H (show_ip client) of
        Some v \<Rightarrow> hm_insert H headers X_FORWARDED_FOR v
      | None \<Rightarrow> headers)"

definition build_forwarded_value ::
  "'h header_lib \<Rightarrow> inbound_context \<Rightarrow> 'u target_url \<Rightarrow> header_value option" where
  "build_forwarded_value H inbound target =
     (let for_part =
            (case ib_client_ip inbound of
               None \<Rightarrow> []
             | Some (V4 a) \<Rightarrow> [''for='' @ show_ipv4 a]
             | Some (V6 a) \<Rightarrow> [''for=\"['' @ show_ipv6 a @ '']\"'']);
          host_part = (case ib_host inbound of None \<Rightarrow> [] | Some h \<Rightarrow> [''host='' @ h])
      in hv_from_str H (join '';''
           (for_part @ [''proto='' @ ib_scheme inbound] @ host_part @ [''by='' @ tu_host target])))"

definition inject ::
  "'h header_lib \<Rightarrow> string \<Rightarrow> 'h \<Rightarrow> inbound_context \<Rightarrow> 'u target_url \<Rightarrow> forwarded_config \<Rightarrow> 'h" where
  "inject H fresh_id headers inbound target cfg =
     (let h = (if fc_inject_request_id cfg then ensure_request_id H fresh_id headers else headers)
      in if \<not> fc_inject cfg then h
         else
           (let h = (case ib_client_ip inbound of
                       None \<Rightarrow> h
                     | Some client \<Rightarrow>
                         if fc_trust_inbound_xff cfg then append_xff H client h
                         else replace_xff H client h);
                h = set_static H X_FORWARDED_PROTO (ib_scheme inbound) h;
                h = (case ib_host inbound of
                       Some host \<Rightarrow> set_static H X_FORWARDED_HOST host h
                     | None \<Rightarrow> h);
                h = set_static H X_FORWARDED_PORT (show_nat (unat (ib_local_port inbound))) h
            in case build_forwarded_value H inbound target of
                 Some v \<Rightarrow> hm_insert H h FORWARDED v
               | None \<Rightarrow> h))"

subsection \<open>Printed numbers and addresses are header text\<close>

lemma digit_visible: "visible_byte (digits ! (n mod 16))"
proof -
  have "digits ! (n mod 16) \<in> set digits"
    by (rule nth_mem) (simp add: digits_def)
  moreover have "list_all visible_byte digits"
    by (simp add: digits_def visible_byte_def)
  ultimately show ?thesis by (simp add: list_all_iff)
qed

lemma visible_show_base [simp]: "visible (show_base b n)"
proof (induction b n rule: show_base.induct)
  case (1 b n)
  then show ?case
    by (subst show_base.simps) (simp add: digit_visible)
qed

lemma visible_show_nat [simp]: "visible (show_nat n)"
  by (simp add: show_nat_def)

lemma visible_join: "visible sep \<Longrightarrow> list_all visible xs \<Longrightarrow> visible (join sep xs)"
  by (induction sep xs rule: join.induct) auto

lemma visible_show_ip [simp]: "visible (show_ip ip)"
proof -
  have segs: "visible (show_segments ss)" for ss
    unfolding show_segments_def by (rule visible_join) (simp_all add: visible_byte_def list_all_iff)
  have v4: "visible (show_ipv4 a)" for a
    unfolding show_ipv4_def by (rule visible_join) (simp_all add: visible_byte_def list_all_iff)
  have "visible (show_ipv6 a)" for a
    by (auto simp: show_ipv6_def Let_def segs v4 visible_byte_def split: option.split prod.split)
  then show ?thesis by (auto simp: show_ip_def v4 split: ip_addr.split)
qed

subsection \<open>What the stamped headers answer\<close>

context header_map begin

lemma from_str_iff: "hv_from_str H s = Some v \<Longrightarrow> v = s"
  by (rule from_str_bytes)

lemma get_all_set_static:
  "hm_get_all H (set_static H n s h) m =
     (if m = n \<and> hv_from_str H s \<noteq> None then [s] else hm_get_all H h m)"
  using from_str_iff [of s] by (auto simp: set_static_def get_all_insert split: option.split)

lemma get_all_replace_xff:
  "hm_get_all H (replace_xff H client h) m =
     (if m = X_FORWARDED_FOR then [show_ip client] else hm_get_all H h m)"
  by (simp add: replace_xff_def from_str_visible get_all_insert)

lemma get_all_append_xff:
  "hm_get_all H (append_xff H client h) m =
     (if m = X_FORWARDED_FOR then
        [case Option.bind (hm_get H h X_FORWARDED_FOR) (hv_to_str H) of
           None \<Rightarrow> show_ip client
         | Some prev \<Rightarrow> prev @ '', '' @ show_ip client]
      else hm_get_all H h m)"
proof (cases "Option.bind (hm_get H h X_FORWARDED_FOR) (hv_to_str H)")
  case None
  then have "append_xff H client h = hm_insert H h X_FORWARDED_FOR (show_ip client)"
    by (auto simp: append_xff_def from_str_visible bind_eq_None_conv split: option.split)
  with None show ?thesis by (simp add: get_all_insert)
next
  case (Some prev)
  then have "visible (prev @ '', '' @ show_ip client)"
    by (auto simp: bind_eq_Some_conv visible_byte_def dest!: to_str_SomeD)
  then have "append_xff H client h = hm_insert H h X_FORWARDED_FOR (prev @ '', '' @ show_ip client)"
    using Some by (auto simp: append_xff_def from_str_visible bind_eq_Some_conv)
  with Some show ?thesis by (simp add: get_all_insert)
qed

lemma get_all_request_id:
  "hm_get_all H (ensure_request_id H fresh_id h) m =
     (if m = REQUEST_ID_HEADER \<and> hm_get_all H h m = [] \<and> hv_from_str H fresh_id \<noteq> None
      then [fresh_id] else hm_get_all H h m)"
  using from_str_iff [of fresh_id]
  by (auto simp: ensure_request_id_def contains_get_all get_all_insert split: option.split)

end

lemma forwarded_names_distinct [simp]:
  "X_FORWARDED_FOR \<noteq> X_FORWARDED_PROTO" "X_FORWARDED_FOR \<noteq> X_FORWARDED_HOST"
  "X_FORWARDED_FOR \<noteq> X_FORWARDED_PORT" "X_FORWARDED_FOR \<noteq> FORWARDED"
  "X_FORWARDED_PROTO \<noteq> X_FORWARDED_FOR" "X_FORWARDED_PROTO \<noteq> X_FORWARDED_HOST"
  "X_FORWARDED_PROTO \<noteq> X_FORWARDED_PORT" "X_FORWARDED_PROTO \<noteq> FORWARDED"
  "X_FORWARDED_HOST \<noteq> X_FORWARDED_FOR" "X_FORWARDED_HOST \<noteq> X_FORWARDED_PROTO"
  "X_FORWARDED_HOST \<noteq> X_FORWARDED_PORT" "X_FORWARDED_HOST \<noteq> FORWARDED"
  "X_FORWARDED_PORT \<noteq> X_FORWARDED_FOR" "X_FORWARDED_PORT \<noteq> X_FORWARDED_PROTO"
  "X_FORWARDED_PORT \<noteq> X_FORWARDED_HOST" "X_FORWARDED_PORT \<noteq> FORWARDED"
  "FORWARDED \<noteq> X_FORWARDED_FOR" "FORWARDED \<noteq> X_FORWARDED_PROTO"
  "FORWARDED \<noteq> X_FORWARDED_HOST" "FORWARDED \<noteq> X_FORWARDED_PORT"
  "REQUEST_ID_HEADER \<noteq> X_FORWARDED_FOR" "REQUEST_ID_HEADER \<noteq> X_FORWARDED_PROTO"
  "REQUEST_ID_HEADER \<noteq> X_FORWARDED_HOST" "REQUEST_ID_HEADER \<noteq> X_FORWARDED_PORT"
  "REQUEST_ID_HEADER \<noteq> FORWARDED"
  by (simp_all add: forwarded_names)

context header_map begin

lemma get_all_inject:
  "hm_get_all H (inject H fresh_id h inbound target cfg) m =
    (let old = (if fc_inject_request_id cfg \<and> m = REQUEST_ID_HEADER \<and> hm_get_all H h m = [] \<and>
                   hv_from_str H fresh_id \<noteq> None then [fresh_id] else hm_get_all H h m)
     in if \<not> fc_inject cfg then old
        else if m = FORWARDED \<and> build_forwarded_value H inbound target \<noteq> None
          then [the (build_forwarded_value H inbound target)]
        else if m = X_FORWARDED_PORT then [show_nat (unat (ib_local_port inbound))]
        else if m = X_FORWARDED_HOST \<and> Option.bind (ib_host inbound) (hv_from_str H) \<noteq> None
          then [the (ib_host inbound)]
        else if m = X_FORWARDED_PROTO \<and> hv_from_str H (ib_scheme inbound) \<noteq> None
          then [ib_scheme inbound]
        else if m = X_FORWARDED_FOR then
          (case ib_client_ip inbound of
             None \<Rightarrow> old
           | Some client \<Rightarrow>
               if fc_trust_inbound_xff cfg
               then [case Option.bind (hm_get H h X_FORWARDED_FOR) (hv_to_str H) of
                       None \<Rightarrow> show_ip client
                     | Some prev \<Rightarrow> prev @ '', '' @ show_ip client]
               else [show_ip client])
        else old)"
proof -
  define h1 where "h1 = (if fc_inject_request_id cfg then ensure_request_id H fresh_id h else h)"
  define h2 where "h2 = (case ib_client_ip inbound of None \<Rightarrow> h1
      | Some client \<Rightarrow> if fc_trust_inbound_xff cfg then append_xff H client h1 else replace_xff H client h1)"
  define h3 where "h3 = (case ib_host inbound of
      Some host \<Rightarrow> set_static H X_FORWARDED_HOST host (set_static H X_FORWARDED_PROTO (ib_scheme inbound) h2)
    | None \<Rightarrow> set_static H X_FORWARDED_PROTO (ib_scheme inbound) h2)"
  have e: "inject H fresh_id h inbound target cfg =
      (if \<not> fc_inject cfg then h1
       else case build_forwarded_value H inbound target of
         Some v \<Rightarrow> hm_insert H (set_static H X_FORWARDED_PORT (show_nat (unat (ib_local_port inbound))) h3) FORWARDED v
       | None \<Rightarrow> set_static H X_FORWARDED_PORT (show_nat (unat (ib_local_port inbound))) h3)"
    unfolding inject_def h3_def h2_def h1_def Let_def by (rule refl)
  have g1: "hm_get_all H h1 m = (if fc_inject_request_id cfg \<and> m = REQUEST_ID_HEADER \<and>
      hm_get_all H h m = [] \<and> hv_from_str H fresh_id \<noteq> None then [fresh_id] else hm_get_all H h m)" for m
    by (auto simp: h1_def get_all_request_id)
  have "hm_get H h1 X_FORWARDED_FOR = hm_get H h X_FORWARDED_FOR"
    by (simp add: get_first g1 forwarded_names)
  then have g2: "hm_get_all H h2 m =
      (if m = X_FORWARDED_FOR then
         (case ib_client_ip inbound of None \<Rightarrow> hm_get_all H h1 m
          | Some client \<Rightarrow> if fc_trust_inbound_xff cfg
               then [case Option.bind (hm_get H h X_FORWARDED_FOR) (hv_to_str H) of
                       None \<Rightarrow> show_ip client | Some prev \<Rightarrow> prev @ '', '' @ show_ip client]
               else [show_ip client])
       else hm_get_all H h1 m)" for m
    by (simp add: h2_def get_all_append_xff get_all_replace_xff split: option.split)
  have g3: "hm_get_all H h3 m =
      (if m = X_FORWARDED_HOST \<and> Option.bind (ib_host inbound) (hv_from_str H) \<noteq> None
         then [the (ib_host inbound)]
       else if m = X_FORWARDED_PROTO \<and> hv_from_str H (ib_scheme inbound) \<noteq> None
         then [ib_scheme inbound] else hm_get_all H h2 m)" for m
    by (cases "ib_host inbound") (auto simp: h3_def get_all_set_static)
  have g4: "hm_get_all H (set_static H X_FORWARDED_PORT (show_nat (unat (ib_local_port inbound))) h3) m =
      (if m = X_FORWARDED_PORT then [show_nat (unat (ib_local_port inbound))] else hm_get_all H h3 m)" for m
    by (simp add: get_all_set_static from_str_visible)
  show ?thesis
  proof (cases "fc_inject cfg")
    case False
    then show ?thesis by (simp add: e g1 Let_def)
  next
    case True
    then show ?thesis
      by (cases "build_forwarded_value H inbound target")
         (simp_all only: e option.case simp_thms if_False if_True get_all_insert g4 g3 g2 g1 Let_def
           option.sel option.distinct not_None_eq ex_simps cong: if_cong)
  qed
qed

end

context header_map begin

lemma inject_idem:
  assumes "\<not> fc_trust_inbound_xff cfg"
  shows "hm_get_all H (inject H uid' (inject H uid h inbound target cfg) inbound target cfg) m =
    hm_get_all H (inject H uid h inbound target cfg) m \<or>
    m = REQUEST_ID_HEADER \<and> hv_from_str H uid = None"
proof (cases "m = REQUEST_ID_HEADER")
  case True
  then show ?thesis by (simp add: get_all_inject Let_def)
next
  case False
  then show ?thesis
    using assms
    by (cases "fc_inject cfg";
        cases "m = FORWARDED \<and> build_forwarded_value H inbound target \<noteq> None";
        cases "m = X_FORWARDED_PORT";
        cases "m = X_FORWARDED_HOST \<and> Option.bind (ib_host inbound) (hv_from_str H) \<noteq> None";
        cases "m = X_FORWARDED_PROTO \<and> hv_from_str H (ib_scheme inbound) \<noteq> None";
        cases "m = X_FORWARDED_FOR"; cases "ib_client_ip inbound")
       (simp_all only: get_all_inject Let_def if_True if_False simp_thms option.case)
qed

lemma inject_trusted_twice:
  assumes "fc_inject cfg" "fc_trust_inbound_xff cfg" "ib_client_ip inbound = Some ip"
  shows "hm_get_all H (inject H uid' (inject H uid h inbound target cfg) inbound target cfg) X_FORWARDED_FOR =
    [hd (hm_get_all H (inject H uid h inbound target cfg) X_FORWARDED_FOR) @ '', '' @ show_ip ip]"
proof -
  let ?h = "inject H uid h inbound target cfg"
  define v where "v = (case Option.bind (hm_get H h X_FORWARDED_FOR) (hv_to_str H) of
      None \<Rightarrow> show_ip ip | Some prev \<Rightarrow> prev @ '', '' @ show_ip ip)"
  have v: "hm_get_all H ?h X_FORWARDED_FOR = [v]"
    using assms by (simp add: get_all_inject Let_def v_def)
  have "visible v"
    by (cases "Option.bind (hm_get H h X_FORWARDED_FOR) (hv_to_str H)")
       (auto simp: v_def visible_byte_def bind_eq_Some_conv to_str_visible split: if_splits)
  with v have "Option.bind (hm_get H ?h X_FORWARDED_FOR) (hv_to_str H) = Some v"
    by (simp add: get_first to_str_visible)
  then show ?thesis
    using assms v by (simp add: get_all_inject [of uid' ?h] Let_def)
qed

end

subsection \<open>The headers as a table\<close>

text \<open>The text of \<open>Forwarded\<close> for a peer: address (IPv6 quoted and bracketed), scheme, host asked for, target.\<close>

definition forwarded_text :: "inbound_context \<Rightarrow> string \<Rightarrow> string" where
  "forwarded_text inbound by_host =
     (case ib_client_ip inbound of
        None \<Rightarrow> []
      | Some ip \<Rightarrow> ''for='' @ (if is_ipv6 ip then ''\"['' @ show_ip ip @ '']\"'' else show_ip ip) @ '';'') @
     ''proto='' @ ib_scheme inbound @
     (case ib_host inbound of None \<Rightarrow> [] | Some host \<Rightarrow> '';host='' @ host) @ '';by='' @ by_host"

text \<open>\<open>before\<close> is what a header holds when the stamping starts.\<close>

definition forwarding_table ::
  "forwarded_config \<Rightarrow> string \<Rightarrow> inbound_context \<Rightarrow> string \<Rightarrow> (header_name \<Rightarrow> header_value list) \<Rightarrow>
     header_name \<Rightarrow> header_value list" where
  "forwarding_table cfg fresh_id inbound by_host before n =
     (if n = REQUEST_ID_HEADER then
        if fc_inject_request_id cfg \<and> before n = [] then [fresh_id] else before n
      else if \<not> fc_inject cfg then before n
      else if n = X_FORWARDED_FOR then
        (case ib_client_ip inbound of
           None \<Rightarrow> before n
         | Some ip \<Rightarrow>
             [(case before n of
                 first # _ \<Rightarrow> if fc_trust_inbound_xff cfg \<and> visible first then first @ '', '' else []
               | [] \<Rightarrow> []) @ show_ip ip])
      else if n = X_FORWARDED_PROTO then [ib_scheme inbound]
      else if n = X_FORWARDED_HOST then (case ib_host inbound of None \<Rightarrow> before n | Some host \<Rightarrow> [host])
      else if n = X_FORWARDED_PORT then [show_nat (unat (ib_local_port inbound))]
      else if n = FORWARDED then [forwarded_text inbound by_host]
      else before n)"

context header_map begin

lemma forwarded_text:
  assumes "visible (ib_scheme inbound)" "pred_option visible (ib_host inbound)" "visible (tu_host target)"
  shows "build_forwarded_value H inbound target = Some (forwarded_text inbound (tu_host target))"
proof -
  have v4: "visible (show_ipv4 a)" for a using visible_show_ip [of "V4 a"] by (simp add: show_ip_def)
  have v6: "visible (show_ipv6 a)" for a using visible_show_ip [of "V6 a"] by (simp add: show_ip_def)
  show ?thesis
    using assms v4 v6
    by (auto simp: build_forwarded_value_def forwarded_text_def from_str_visible visible_byte_def show_ip_def Let_def
        is_ipv6_def split: option.split ip_addr.split)
qed

lemma get_all_inject_table:
  assumes "visible (ib_scheme inbound)" "pred_option visible (ib_host inbound)" "visible (tu_host target)" "visible fresh_id"
  shows "hm_get_all H (inject H fresh_id h inbound target cfg) =
    forwarding_table cfg fresh_id inbound (tu_host target) (hm_get_all H h)"
proof
  fix n
  have v: "hv_from_str H fresh_id = Some fresh_id" "hv_from_str H (ib_scheme inbound) = Some (ib_scheme inbound)"
    "\<And>x. ib_host inbound = Some x \<Longrightarrow> hv_from_str H x = Some x"
    using assms by (auto intro: from_str_visible)
  have first: "Option.bind (hm_get H h X_FORWARDED_FOR) (hv_to_str H) =
      (case hm_get_all H h X_FORWARDED_FOR of [] \<Rightarrow> None | v # _ \<Rightarrow> if visible v then Some v else None)"
    by (simp add: get_first to_str_visible split: list.split)
  show "hm_get_all H (inject H fresh_id h inbound target cfg) n =
      forwarding_table cfg fresh_id inbound (tu_host target) (hm_get_all H h) n"
    unfolding get_all_inject forwarded_text [OF assms(1-3)] first forwarding_table_def Let_def
    using v
    by (auto split: option.split list.split)
qed

end

subsection \<open>Properties\<close>

text \<open>
  C32. What every header is after stamping, by the table \<open>forwarding_table\<close>: \<open>X-Forwarded-For\<close> is the
  peer's address, behind the first line of the client's chain when that chain is trusted and visible
  (further lines are dropped); \<open>X-Forwarded-Proto\<close>, \<open>X-Forwarded-Host\<close>, \<open>X-Forwarded-Port\<close> and
  \<open>Forwarded\<close> describe the inbound request; a client's request id is kept and a missing one filled in;
  every other header is as it was. With an untrusted chain stamping twice is stamping once; with a
  trusted one the peer is appended again.
\<close>

theorem inject_headers:
  assumes "header_map H" "visible fresh_id" "visible (ib_scheme inbound)" "pred_option visible (ib_host inbound)"
    "visible (tu_host target)"
  shows
    "let h' = inject H fresh_id h inbound target cfg;
         h'' = inject H other_id h' inbound target cfg;
         now = hm_get_all H h'; before = hm_get_all H h
     in now n = forwarding_table cfg fresh_id inbound (tu_host target) before n \<and>
        (if fc_trust_inbound_xff cfg
         then fc_inject cfg \<and> ib_client_ip inbound = Some ip \<longrightarrow>
           hm_get_all H h'' X_FORWARDED_FOR = [hd (now X_FORWARDED_FOR) @ '', '' @ show_ip ip]
         else hm_get_all H h'' n = now n)"
proof -
  have id: "hv_from_str H fresh_id \<noteq> None"
    using header_map.from_str_visible [OF assms(1,2)] by simp
  show ?thesis
    using header_map.inject_idem [OF assms(1), of cfg other_id fresh_id h inbound target n]
      header_map.inject_trusted_twice [OF assms(1), of cfg inbound ip other_id fresh_id h target] id
    unfolding header_map.get_all_inject_table [OF assms(1,3-5,2), symmetric] Let_def
    by (auto simp: header_map.get_all_inject [OF assms(1)] Let_def)
qed

lemma inject_headers_witness:
  "hm_get_all list_headers
     (inject list_headers ''id'' [(''x-forwarded-for'', ''1.2.3.4'')]
        \<lparr>ib_client_ip = Some (V4 0xCB007105), ib_scheme = ''http'', ib_host = Some ''p.test'', ib_local_port = 80\<rparr>
        \<lparr>tu_url = (), tu_host = ''a.test'', tu_port = 443\<rparr> default_forwarded_config)
     FORWARDED = [''for=203.0.113.5;proto=http;host=p.test;by=a.test'']"
proof -
  have "visible ''id''" "visible ''http''" "visible ''p.test''" "visible ''a.test''" by (simp_all add: str_simps)
  moreover have "show_ip (V4 0xCB007105) = ''203.0.113.5''" by (simp add: show_ip_eval)
  ultimately show ?thesis
    using inject_headers [OF list_hdrs.header_map_axioms, of "''id''"
        "\<lparr>ib_client_ip = Some (V4 0xCB007105), ib_scheme = ''http'', ib_host = Some ''p.test'', ib_local_port = 80\<rparr>"
        "\<lparr>tu_url = (), tu_host = ''a.test'', tu_port = 443\<rparr>" "[(''x-forwarded-for'', ''1.2.3.4'')]"
        default_forwarded_config _ FORWARDED]
    by (simp add: default_forwarded_config_def Let_def forwarding_table_def forwarded_text_def is_ipv6_def forwarded_names)
qed

end
