(* ===== verification/Origin_Guard.thy ===== *)
theory Origin_Guard
  imports Cors
begin

text \<open>
  \<open>corx-server/src/middleware/origin_guard.rs\<close>: method, origin and required-header checks on the
  inbound request.
\<close>

subsection \<open>The policy\<close>

record origin_policy =
  op_blacklist :: origin_set
  op_whitelist :: origin_set
  op_blocked_methods :: "http_method set"
  op_required_header_any_of :: "string list"

definition origin_from_config :: "'h header_lib \<Rightarrow> security_config \<Rightarrow> origin_policy" where
  "origin_from_config H cfg =
     \<lparr>op_blacklist = to_origin_set (sc_origin_blacklist cfg),
      op_whitelist = to_origin_set (sc_origin_whitelist cfg),
      op_blocked_methods =
        set (List.map_filter (\<lambda>raw. method_from_bytes H (to_upper raw)) (sc_block_methods cfg)),
      op_required_header_any_of = map to_lower (sc_require_header cfg)\<rparr>"

text \<open>\<open>contains_key\<close> with a text key: no header has a name that is not a header name.\<close>

definition contains_name :: "'h header_lib \<Rightarrow> 'h \<Rightarrow> string \<Rightarrow> bool" where
  "contains_name H headers name =
     (case hn_from_str H name of Some n \<Rightarrow> hm_contains H headers n | None \<Rightarrow> False)"

definition origin_evaluate ::
  "'h header_lib \<Rightarrow> origin_policy \<Rightarrow> http_method \<Rightarrow> 'h \<Rightarrow> unit res" where
  "origin_evaluate H p m headers =
     (if m \<in> op_blocked_methods p then
        Inl (OriginNotAllowed (''method `'' @ m @ ''` is blocked''))
      else
        (let origin = Option.bind (hm_get H headers ORIGIN) (hv_to_str H);
             verdict =
               (case origin of
                  Some org \<Rightarrow>
                    if org \<in> op_blacklist p then Inl (OriginNotAllowed org)
                    else if op_whitelist p \<noteq> {} \<and> org \<notin> op_whitelist p
                    then Inl (OriginNotAllowed org)
                    else Inr ()
                | None \<Rightarrow>
                    if op_whitelist p \<noteq> {} then Inl (OriginNotAllowed ''<missing origin>'')
                    else Inr ())
         in bind_res verdict (\<lambda>_.
              if op_required_header_any_of p \<noteq> [] \<and>
                 \<not> list_ex (contains_name H headers) (op_required_header_any_of p)
              then Inl (MissingHeader ''required inbound header'')
              else Inr ())))"

subsection \<open>Properties\<close>

text \<open>The specification: the origin a request is judged by, and what is admitted.\<close>

definition readable_origin :: "'h header_lib \<Rightarrow> 'h \<Rightarrow> string option" where
  "readable_origin H headers =
     (case hm_get_all H headers ORIGIN of [] \<Rightarrow> None | v # _ \<Rightarrow> if visible v then Some v else None)"

definition origin_admitted :: "'h header_lib \<Rightarrow> origin_policy \<Rightarrow> http_method \<Rightarrow> 'h \<Rightarrow> bool" where
  "origin_admitted H p m headers \<longleftrightarrow>
     m \<notin> op_blocked_methods p \<and>
     (case readable_origin H headers of
        Some org \<Rightarrow> org \<notin> op_blacklist p \<and> (op_whitelist p = {} \<or> org \<in> op_whitelist p)
      | None \<Rightarrow> op_whitelist p = {}) \<and>
     (op_required_header_any_of p = [] \<or>
      list_ex (contains_name H headers) (op_required_header_any_of p))"

context header_map begin

lemma readable_origin_eq:
  "Option.bind (hm_get H headers ORIGIN) (hv_to_str H) = readable_origin H headers"
  by (simp add: readable_origin_def get_first to_str_visible split: list.split)

end

lemma origin_evaluate_admitted:
  "header_map H \<Longrightarrow> origin_evaluate H p m headers = Inr () \<longleftrightarrow> origin_admitted H p m headers"
  unfolding origin_evaluate_def header_map.readable_origin_eq origin_admitted_def Let_def
  by (cases "readable_origin H headers") auto

text \<open>
  The origin guard fails closed where a whitelist is configured: a request passes exactly when
  its method is not blocked, its \<open>Origin\<close> (the first one, if it is text) is off the blacklist and
  on a non-empty whitelist, a missing or unreadable origin is refused by a whitelist (and by nothing
  else), and one of the required headers is present; a refusal is one of the two guard errors.
\<close>

theorem origin_evaluate_iff:
  assumes "header_map H"
  shows "(origin_evaluate H p m headers = Inr () \<longleftrightarrow> origin_admitted H p m headers) \<and>
    case_sum (\<lambda>e. error_kind_of e \<in> {OriginNotAllowedKind, MissingRequiredHeaderKind}) (\<lambda>_. True)
      (origin_evaluate H p m headers)"
  unfolding origin_evaluate_def header_map.readable_origin_eq [OF assms] origin_admitted_def Let_def
  by (cases "readable_origin H headers") auto

lemma origin_evaluate_iff_witness:
  "origin_evaluate list_headers
     (origin_from_config list_headers
        (default_security_config\<lparr>sc_origin_whitelist := [''https://app'']\<rparr>))
     ''GET'' [(''origin'', ''https://app'')] = Inr ()"
proof -
  let ?p = "origin_from_config list_headers
      (default_security_config\<lparr>sc_origin_whitelist := [''https://app'']\<rparr>)"
  have "origin_admitted list_headers ?p ''GET'' [(''origin'', ''https://app'')]"
    by (simp add: origin_admitted_def readable_origin_def origin_from_config_def contains_name_def
        default_security_config_def to_origin_set_def cors_names list_headers_eval
        List.map_filter_simps)
  then show ?thesis
    using origin_evaluate_iff [OF list_hdrs.header_map_axioms, of ?p] by blast
qed

text \<open>What the compiled policy holds of the configured methods and header names.\<close>

lemma blocked_methods_eq:
  assumes "header_map H" "list_all (\<lambda>raw. is_token (to_upper raw)) raws"
  shows "set (List.map_filter (\<lambda>raw. method_from_bytes H (to_upper raw)) raws) = to_upper ` set raws"
proof -
  have "method_from_bytes H (to_upper raw) = Some (to_upper raw)" if "raw \<in> set raws" for raw
    using that assms(2) header_map.method_from_bytes_token [OF assms(1)] by (simp add: list_all_iff)
  then show ?thesis by (force simp: set_map_filter)
qed

lemma required_headers_eq:
  assumes "header_map H" "list_all (\<lambda>raw. is_token (to_lower raw)) raws"
  shows "list_ex (contains_name H headers) (map to_lower raws) \<longleftrightarrow>
    (\<exists>raw \<in> set raws. hm_get_all H headers (to_lower raw) \<noteq> [])"
proof -
  have "contains_name H headers (to_lower raw) \<longleftrightarrow> hm_get_all H headers (to_lower raw) \<noteq> []" if "raw \<in> set raws" for raw
    using that assms(2) header_map.name_from_str_token [OF assms(1), of "to_lower raw"]
      header_map.contains_get_all [OF assms(1)]
    by (auto simp: contains_name_def list_all_iff)
  then show ?thesis by (auto simp: list_ex_iff)
qed

text \<open>
  C26. The decision of the origin guard, from the section of the configuration. A method listed in
  \<open>block_methods\<close>, in either case, is refused by name; a whitelist refuses a request without a
  readable origin and every origin it does not list; the blacklist refuses what it lists, whitelisted
  or not; where headers are required one of them must be present; everything else is admitted, and
  the refusals are tried in this order. The configured methods and header names are taken to be
  tokens: others are dropped when the policy is compiled.
\<close>

theorem origin_guard_decision:
  assumes "header_map H" "list_all (\<lambda>raw. is_token (to_upper raw)) (sc_block_methods cfg)"
    "list_all (\<lambda>raw. is_token (to_lower raw)) (sc_require_header cfg)"
  shows "origin_evaluate H (origin_from_config H cfg) m headers =
    (let org = (case hm_get_all H headers ORIGIN of first # _ \<Rightarrow> if visible first then Some first else None | [] \<Rightarrow> None)
     in if m \<in> to_upper ` set (sc_block_methods cfg)
        then Inl (OriginNotAllowed (''method `'' @ m @ ''` is blocked''))
        else if org = None \<and> sc_origin_whitelist cfg \<noteq> []
        then Inl (OriginNotAllowed ''<missing origin>'')
        else if org \<noteq> None \<and> (the org \<in> set (sc_origin_blacklist cfg) \<or>
                sc_origin_whitelist cfg \<noteq> [] \<and> the org \<notin> set (sc_origin_whitelist cfg))
        then Inl (OriginNotAllowed (the org))
        else if sc_require_header cfg \<noteq> [] \<and>
                (\<forall>raw \<in> set (sc_require_header cfg). hm_get_all H headers (to_lower raw) = [])
        then Inl (MissingHeader ''required inbound header'')
        else Inr ())"
proof -
  have org: "(case hm_get_all H headers ORIGIN of first # _ \<Rightarrow> if visible first then Some first else None | [] \<Rightarrow> None) =
      readable_origin H headers"
    by (simp add: readable_origin_def split: list.split)
  show ?thesis
    unfolding origin_evaluate_def header_map.readable_origin_eq [OF assms(1)] org origin_from_config_def
      origin_policy.simps blocked_methods_eq [OF assms(1,2)] required_headers_eq [OF assms(1,3)]
    by (cases "readable_origin H headers") (auto simp: to_origin_set_def Let_def)
qed

lemma origin_guard_decision_witness:
  "origin_evaluate list_headers
     (origin_from_config list_headers
        (default_security_config\<lparr>sc_origin_whitelist := [''https://app''], sc_block_methods := [''trace'']\<rparr>))
     ''GET'' [(''origin'', ''https://evil'')] = Inl (OriginNotAllowed ''https://evil'')"
proof -
  let ?cfg = "default_security_config\<lparr>sc_origin_whitelist := [''https://app''], sc_block_methods := [''trace'']\<rparr>"
  have upper: "to_upper ''trace'' = ''TRACE''" by code_simp
  have "list_all (\<lambda>raw. is_token (to_upper raw)) (sc_block_methods ?cfg)"
    "list_all (\<lambda>raw. is_token (to_lower raw)) (sc_require_header ?cfg)"
    by (simp_all add: upper default_security_config_def str_simps)
  from origin_guard_decision [OF list_hdrs.header_map_axioms this, of "''GET''" "[(''origin'', ''https://evil'')]"]
  show ?thesis
    by (simp add: upper default_security_config_def Let_def cors_names list_headers_eval)
qed

end
