(* ===== verification/Auth.thy ===== *)
theory Auth
  imports Http_Lib Config
begin

text \<open>
  \<open>corx-server/src/middleware/auth.rs\<close>: the bearer-token check and the paths it skips. The layer
  that applies it to a request is in \<open>Router\<close>.
\<close>

subsection \<open>The check\<close>

definition AUTHORIZATION :: header_name where "AUTHORIZATION = ''authorization''"

text \<open>A comparison that looks at every byte: the differences are collected, not acted on.\<close>

definition ct_eq :: "string \<Rightarrow> string \<Rightarrow> bool" where
  "ct_eq a b =
     (if length a \<noteq> length b then False
      else foldl (\<lambda>diff (x, y). or diff (xor (of_char x) (of_char y))) (0 :: 8 word) (zip a b) = 0)"

definition check_bearer :: "'h header_lib \<Rightarrow> 'h \<Rightarrow> string list \<Rightarrow> unit res" where
  "check_bearer H headers tokens =
     (case Option.bind (hm_get H headers AUTHORIZATION) (hv_to_str H) of
        None \<Rightarrow> Inl (Unauthorized ''missing Authorization header'')
      | Some value \<Rightarrow>
          (case (case strip_prefix ''Bearer '' value of
                   Some p \<Rightarrow> Some p
                 | None \<Rightarrow> strip_prefix ''bearer '' value) of
             None \<Rightarrow> Inl (Unauthorized ''expected Bearer scheme'')
           | Some presented \<Rightarrow>
               (let matched =
                  foldl (\<lambda>matched token. if ct_eq presented token then True else matched) False tokens
                in if matched then Inr () else Inl (Unauthorized ''invalid bearer token''))))"

definition is_ops_path :: "string \<Rightarrow> string \<Rightarrow> bool" where
  "is_ops_path metrics_endpoint path \<longleftrightarrow>
     path \<in> {''/'', ''/livez'', ''/readyz'', ''/healthz'', ''/iscorsneeded''} \<or>
     metrics_endpoint \<noteq> [] \<and> path = metrics_endpoint"

subsection \<open>The comparison is equality\<close>

lemma or_eq_zero: "or a b = 0 \<longleftrightarrow> a = 0 \<and> b = (0 :: 8 word)"
  by (auto simp: bit_eq_iff bit_or_iff)

lemma xor_eq_zero: "xor a b = 0 \<longleftrightarrow> a = (b :: 8 word)"
  by (auto simp: bit_eq_iff bit_xor_iff)

lemma of_char_word_inj: "(of_char x :: 8 word) = of_char y \<longleftrightarrow> x = y"
proof
  assume "(of_char x :: 8 word) = of_char y"
  then have "(of_nat (of_char x) :: 8 word) = of_nat (of_char y)" by (simp only: of_nat_of_char)
  then have "(of_char x :: nat) mod 256 = of_char y mod 256"
    by (simp add: word_of_nat_eq_iff take_bit_eq_mod del: of_nat_of_char)
  then show "x = y" by simp
qed simp

lemma ct_fold_zero:
  "length a = length b \<Longrightarrow>
     foldl (\<lambda>diff (x, y). or diff (xor (of_char x) (of_char y))) d (zip a b) = (0 :: 8 word) \<longleftrightarrow>
     d = 0 \<and> a = b"
proof (induction a b arbitrary: d rule: list_induct2)
  case Nil
  then show ?case by simp
next
  case (Cons x xs y ys)
  then show ?case by (auto simp: or_eq_zero xor_eq_zero of_char_word_inj)
qed

lemma ct_eq_eq: "ct_eq a b \<longleftrightarrow> a = b"
  using ct_fold_zero [of a b 0] by (auto simp: ct_eq_def)

lemma matched_fold:
  "foldl (\<lambda>matched token. if ct_eq p token then True else matched) m tokens \<longleftrightarrow> m \<or> p \<in> set tokens"
  by (induction tokens arbitrary: m) (auto simp: ct_eq_eq)

lemma bearer_bytes:
  "visible (''Bearer '' @ t) = visible t" "visible (''bearer '' @ t) = visible t"
  by (simp_all add: visible_byte_def)

subsection \<open>Properties\<close>

text \<open>
  C33. A request is authorised exactly when its first \<open>Authorization\<close> header is text of the form
  \<open>Bearer t\<close> or \<open>bearer t\<close> with \<open>t\<close> one of the configured tokens, exactly; with no token configured
  nothing passes, and every refusal is an \<open>unauthorized\<close> error that does not carry the token.
\<close>

theorem check_bearer_iff:
  assumes "header_map H"
  shows "(check_bearer H headers tokens = Inr () \<longleftrightarrow>
      (\<exists>token rest. token \<in> set tokens \<and> visible token \<and>
         (hm_get_all H headers AUTHORIZATION = (''Bearer '' @ token) # rest \<or>
          hm_get_all H headers AUTHORIZATION = (''bearer '' @ token) # rest))) \<and>
    case_sum (\<lambda>e. e \<in> {Unauthorized ''missing Authorization header'',
        Unauthorized ''expected Bearer scheme'', Unauthorized ''invalid bearer token''})
      (\<lambda>_. True) (check_bearer H headers tokens)"
proof -
  note b = bearer_bytes header_map.get_first [OF assms] header_map.to_str_visible [OF assms]
  have strip: "(case strip_prefix ''Bearer '' v of Some p \<Rightarrow> Some p | None \<Rightarrow> strip_prefix ''bearer '' v) = Some t
      \<longleftrightarrow> v = ''Bearer '' @ t \<or> v = ''bearer '' @ t" for v t
    by (cases "strip_prefix ''Bearer '' v") (auto simp: strip_prefix_Some_iff)
  show ?thesis
  proof (cases "hm_get_all H headers AUTHORIZATION")
    case Nil
    then show ?thesis by (simp add: check_bearer_def b)
  next
    case (Cons v vs)
    show ?thesis
    proof (cases "visible v")
      case False
      with Cons show ?thesis by (auto simp: check_bearer_def b visible_byte_def)
    next
      case True
      show ?thesis
      proof (cases "case strip_prefix ''Bearer '' v of Some p \<Rightarrow> Some p | None \<Rightarrow> strip_prefix ''bearer '' v")
        case None
        with strip [of v] have "v \<noteq> ''Bearer '' @ t \<and> v \<noteq> ''bearer '' @ t" for t by simp
        with Cons True None show ?thesis by (simp add: check_bearer_def b)
      next
        case (Some t)
        then have v: "v = ''Bearer '' @ u \<or> v = ''bearer '' @ u \<longleftrightarrow> u = t" for u
          using strip [of v u] by auto
        then have vis: "visible t"
          using True bearer_bytes [of t] by metis
        have ex: "(\<exists>token rest. token \<in> set tokens \<and> visible token \<and>
             (hm_get_all H headers AUTHORIZATION = (''Bearer '' @ token) # rest \<or>
              hm_get_all H headers AUTHORIZATION = (''bearer '' @ token) # rest)) \<longleftrightarrow> t \<in> set tokens"
          unfolding Cons list.inject using v vis by blast
        have "check_bearer H headers tokens =
            (if t \<in> set tokens then Inr () else Inl (Unauthorized ''invalid bearer token''))"
          using Cons True Some by (simp add: check_bearer_def b(3,4) matched_fold Let_def)
        with ex show ?thesis by simp
      qed
    qed
  qed
qed

lemma check_bearer_iff_witness:
  "check_bearer list_headers [(''authorization'', ''bearer s3cret'')] [''old'', ''s3cret''] = Inr ()"
  using check_bearer_iff [OF list_hdrs.header_map_axioms,
      of "[(''authorization'', ''bearer s3cret'')]" "[''old'', ''s3cret'']"]
  by (auto simp: list_headers_sel AUTHORIZATION_def visible_byte_def)

end
