(* ===== verification/Metering.thy ===== *)
theory Metering
  imports Telemetry Config
begin

text \<open>
  \<open>corx-server/src/observability/metering.rs\<close>: the streaming body wrappers that count and cap the
  bytes that flow through the proxy. A body is anything that can be polled: a poller answers the
  metrics it recorded, the answer (\<open>None\<close> is \<open>Ready(None)\<close>, the end) and the body after it. The
  bytes left in a data frame are its text.
\<close>

subsection \<open>Pollers\<close>

type_synonym 'b poller = "'b \<Rightarrow> metric list \<times> poll option \<times> 'b"

definition body_poll :: "body poller" where
  "body_poll b = (case b of [] \<Rightarrow> ([], None, []) | p # ps \<Rightarrow> ([], Some p, ps))"

text \<open>\<open>u64::try_from(n).unwrap_or(u64::MAX)\<close>.\<close>

definition u64_or_max :: "nat \<Rightarrow> u64" where
  "u64_or_max n = (if n < 2 ^ 64 then of_nat n else - 1)"

subsection \<open>Counting\<close>

record 'b counting_body =
  ct_inner :: 'b
  ct_direction :: string

definition counting_new :: "'b \<Rightarrow> string \<Rightarrow> 'b counting_body" where
  "counting_new inner direction = \<lparr>ct_inner = inner, ct_direction = direction\<rparr>"

definition count_bytes :: "string \<Rightarrow> u64 \<Rightarrow> metric" where
  "count_bytes direction bytes = Count BYTES_TRANSFERRED [(''direction'', direction)] (unat bytes)"

definition counting_poll :: "'b poller \<Rightarrow> 'b counting_body poller" where
  "counting_poll inner_poll c =
     (case inner_poll (ct_inner c) of
        (ms, polled, inner) \<Rightarrow>
          (let counted =
             (case polled of
                Some (ReadyFrame (Data data)) \<Rightarrow>
                  (let bytes = u64_or_max (length data)
                   in if 0 < bytes then [count_bytes (ct_direction c) bytes] else [])
              | _ \<Rightarrow> [])
           in (ms @ counted, polled, c\<lparr>ct_inner := inner\<rparr>)))"

subsection \<open>Limiting\<close>

record 'b limiting_body =
  lb_inner :: 'b
  lb_max_bytes :: u64
  lb_seen :: u64

definition limiting_new :: "'b \<Rightarrow> u64 \<Rightarrow> 'b limiting_body" where
  "limiting_new inner max_bytes = \<lparr>lb_inner = inner, lb_max_bytes = max_bytes, lb_seen = 0\<rparr>"

definition over_budget :: "u64 \<Rightarrow> u64 \<Rightarrow> bool" where
  "over_budget max_bytes seen \<longleftrightarrow> 0 < max_bytes \<and> max_bytes < seen"

definition limiting_poll :: "'b poller \<Rightarrow> 'b limiting_body poller" where
  "limiting_poll inner_poll l =
     (if over_budget (lb_max_bytes l) (lb_seen l) then ([], Some (ReadyErr PayloadTooLarge), l)
      else
        (case inner_poll (lb_inner l) of
           (ms, polled, inner) \<Rightarrow>
             (let l = l\<lparr>lb_inner := inner\<rparr>
              in case polled of
                   Some (ReadyFrame frame) \<Rightarrow>
                     (let l = (case frame of
                                 Data data \<Rightarrow> l\<lparr>lb_seen := sat_add (lb_seen l) (u64_or_max (length data))\<rparr>
                               | Trailers _ \<Rightarrow> l)
                      in if over_budget (lb_max_bytes l) (lb_seen l)
                         then (ms, Some (ReadyErr PayloadTooLarge), l)
                         else (ms, Some (ReadyFrame frame), l))
                 | _ \<Rightarrow> (ms, polled, l))))"

subsection \<open>What the wrappers say about the body\<close>

record size_hint =
  sh_lower :: u64
  sh_upper :: "u64 option"

definition counting_is_end_stream :: "('b \<Rightarrow> bool) \<Rightarrow> 'b counting_body \<Rightarrow> bool" where
  "counting_is_end_stream inner_end c = inner_end (ct_inner c)"

definition counting_size_hint :: "('b \<Rightarrow> size_hint) \<Rightarrow> 'b counting_body \<Rightarrow> size_hint" where
  "counting_size_hint inner_hint c = inner_hint (ct_inner c)"

definition limiting_is_end_stream :: "('b \<Rightarrow> bool) \<Rightarrow> 'b limiting_body \<Rightarrow> bool" where
  "limiting_is_end_stream inner_end l = inner_end (lb_inner l)"

definition limiting_size_hint :: "('b \<Rightarrow> size_hint) \<Rightarrow> 'b limiting_body \<Rightarrow> size_hint" where
  "limiting_size_hint inner_hint l = inner_hint (lb_inner l)"

subsection \<open>Polling a body again and again\<close>

fun run_polls :: "'b poller \<Rightarrow> nat \<Rightarrow> 'b \<Rightarrow> metric list \<times> poll option list \<times> 'b" where
  "run_polls f 0 b = ([], [], b)"
| "run_polls f (Suc n) b =
     (case f b of
        (ms, p, b1) \<Rightarrow>
          (case run_polls f n b1 of (ms', ps, b2) \<Rightarrow> (ms @ ms', p # ps, b2)))"

definition answers :: "'b poller \<Rightarrow> nat \<Rightarrow> 'b \<Rightarrow> poll option list" where
  "answers f n b = fst (snd (run_polls f n b))"

fun data_len :: "poll option \<Rightarrow> nat" where
  "data_len (Some (ReadyFrame (Data d))) = length d"
| "data_len _ = 0"

definition delivered :: "poll option list \<Rightarrow> nat" where
  "delivered ps = sum_list (map data_len ps)"

definition bytes_counted :: "string \<Rightarrow> metric list \<Rightarrow> nat" where
  "bytes_counted direction ms =
     sum_list (map (\<lambda>m. case m of
       Count name labels n \<Rightarrow>
         if name = BYTES_TRANSFERRED \<and> labels = [(''direction'', direction)] then n else 0
     | _ \<Rightarrow> 0) ms)"

text \<open>The sequence of answers a body of \<open>n\<close> answers gives once it is wrapped.\<close>

definition wrapped_body :: "'b poller \<Rightarrow> nat \<Rightarrow> 'b \<Rightarrow> body" where
  "wrapped_body f n b = List.map_filter (\<lambda>p. p) (answers f n b)"

lemma answers_simps [simp]:
  "answers f 0 b = []"
  "answers f (Suc n) b = fst (snd (f b)) # answers f n (snd (snd (f b)))"
  by (simp_all add: answers_def split: prod.splits)

lemma delivered_simps [simp]:
  "delivered [] = 0"
  "delivered (p # ps) = data_len p + delivered ps"
  "delivered (ps @ qs) = delivered ps + delivered qs"
  by (simp_all add: delivered_def)

lemma length_answers [simp]: "length (answers f n b) = n"
  by (induction n arbitrary: b) simp_all

lemma delivered_replicate_err [simp]: "delivered (replicate n (Some (ReadyErr e))) = 0"
  by (induction n) simp_all

lemma bytes_counted_append [simp]:
  "bytes_counted d (ms @ ms') = bytes_counted d ms + bytes_counted d ms'"
  by (simp add: bytes_counted_def)

lemma delivered_take_le: "delivered (take k ps) \<le> delivered ps"
  using delivered_simps(3) [of "take k ps" "drop k ps"] by simp

subsection \<open>The budget\<close>

lemma unat_max64: "unat (- 1 :: u64) = 2 ^ 64 - 1"
  by (simp add: unsigned_minus_1_eq_mask mask_eq_exp_minus_1)

lemma unat_u64_or_max: "unat (u64_or_max n) = min n (2 ^ 64 - 1)"
proof (cases "n < 2 ^ 64")
  case True
  then have "n mod 2 ^ 64 = n" by simp
  with True show ?thesis by (simp add: u64_or_max_def unat_of_nat)
next
  case False
  then have "u64_or_max n = - 1" by (simp add: u64_or_max_def)
  with False unat_max64 show ?thesis by simp
qed

lemma over_budget_step:
  assumes "0 < m" "m < - 1"
  shows "over_budget m (sat_add s (u64_or_max n)) \<longleftrightarrow> unat m < unat s + n"
proof -
  have "unat m < 2 ^ 64 - 1"
    using assms(2) unat_max64 by (simp add: word_less_nat_alt)
  with assms(1) show ?thesis
    by (auto simp: over_budget_def word_less_nat_alt unat_sat_add unat_u64_or_max min_def)
qed

lemma within_budget_seen:
  assumes "0 < m" "m < - 1" "\<not> over_budget m (sat_add s (u64_or_max n))"
  shows "unat (sat_add s (u64_or_max n)) = unat s + n"
proof -
  have "unat m < 2 ^ 64 - 1"
    using assms(2) unat_max64 by (simp add: word_less_nat_alt)
  with assms show ?thesis
    by (simp add: over_budget_step unat_sat_add unat_u64_or_max)
qed

lemma answers_over_budget:
  "over_budget (lb_max_bytes l) (lb_seen l) \<Longrightarrow>
     answers (limiting_poll f) n l = replicate n (Some (ReadyErr PayloadTooLarge))"
  by (induction n) (simp_all add: limiting_poll_def)

text \<open>One poll of a body that is within its budget.\<close>

lemma limiting_poll_step:
  assumes "f b = (ms, p, b')" "0 < m" "m < - 1" "unat s \<le> unat m"
  shows "limiting_poll f \<lparr>lb_inner = b, lb_max_bytes = m, lb_seen = s\<rparr> =
    (if unat s + data_len p \<le> unat m
     then (ms, p, \<lparr>lb_inner = b', lb_max_bytes = m, lb_seen = s + of_nat (data_len p)\<rparr>)
     else (ms, Some (ReadyErr PayloadTooLarge),
           \<lparr>lb_inner = b', lb_max_bytes = m, lb_seen = sat_add s (u64_or_max (data_len p))\<rparr>))"
proof -
  have ok: "\<not> over_budget m s"
    using assms(4) by (simp add: over_budget_def word_less_nat_alt)
  show ?thesis
  proof (cases "\<exists>d. p = Some (ReadyFrame (Data d))")
    case False
    with assms(1,4) ok show ?thesis
      by (cases p rule: data_len.cases) (auto simp: limiting_poll_def Let_def)
  next
    case True
    then obtain d where p: "p = Some (ReadyFrame (Data d))" by blast
    have "sat_add s (u64_or_max (length d)) = s + of_nat (length d)"
      if le: "unat s + length d \<le> unat m"
    proof -
      have "\<not> over_budget m (sat_add s (u64_or_max (length d)))"
        using le over_budget_step [OF assms(2,3)] by simp
      from within_budget_seen [OF assms(2,3) this] have
        u: "unat (sat_add s (u64_or_max (length d))) = unat s + length d" .
      then have "of_nat (unat (sat_add s (u64_or_max (length d)))) = (of_nat (unat s + length d) :: u64)"
        by simp
      then show ?thesis by simp
    qed
    with assms(1) ok p show ?thesis
      by (auto simp: limiting_poll_def Let_def over_budget_step [OF assms(2,3)])
  qed
qed

lemma limiting_answers:
  assumes "0 < m" "m < - 1"
  shows "unat s \<le> unat m \<Longrightarrow>
    \<exists>k \<le> n. answers (limiting_poll f) n \<lparr>lb_inner = b, lb_max_bytes = m, lb_seen = s\<rparr> =
        take k (answers f n b) @ replicate (n - k) (Some (ReadyErr PayloadTooLarge)) \<and>
      unat s + delivered (take k (answers f n b)) \<le> unat m \<and>
      (k = n \<or> unat m < unat s + delivered (take (Suc k) (answers f n b)))"
proof (induction n arbitrary: b s)
  case 0
  then show ?case by simp
next
  case (Suc n)
  obtain ms p b' where f: "f b = (ms, p, b')" by (cases "f b")
  note step = limiting_poll_step [of f b ms p b' m s, OF f assms Suc.prems]
  show ?case
  proof (cases "unat s + data_len p \<le> unat m")
    case False
    then have "over_budget m (sat_add s (u64_or_max (data_len p)))"
      using over_budget_step [OF assms] by simp
    then have "answers (limiting_poll f) n
        \<lparr>lb_inner = b', lb_max_bytes = m, lb_seen = sat_add s (u64_or_max (data_len p))\<rparr> =
        replicate n (Some (ReadyErr PayloadTooLarge))"
      by (simp add: answers_over_budget)
    with False step Suc.prems show ?thesis
      by (intro exI [of _ 0]) (simp add: f)
  next
    case True
    let ?s = "s + of_nat (data_len p)"
    have "unat m < 2 ^ 64" using unsigned_less [of m, where ?'a = nat] by simp
    with True have s: "unat ?s = unat s + data_len p"
      by (simp add: unat_word_ariths unat_of_nat)
    with True obtain k where "k \<le> n"
      "answers (limiting_poll f) n \<lparr>lb_inner = b', lb_max_bytes = m, lb_seen = ?s\<rparr> =
        take k (answers f n b') @ replicate (n - k) (Some (ReadyErr PayloadTooLarge))"
      "unat ?s + delivered (take k (answers f n b')) \<le> unat m"
      "k = n \<or> unat m < unat ?s + delivered (take (Suc k) (answers f n b'))"
      using Suc.IH [of ?s b'] by auto
    with True step s f show ?thesis
      by (intro exI [of _ "Suc k"]) (simp add: add.assoc)
  qed
qed

lemma limiting_unlimited:
  "answers (limiting_poll f) n \<lparr>lb_inner = b, lb_max_bytes = 0, lb_seen = s\<rparr> = answers f n b"
proof (induction n arbitrary: b s)
  case (Suc n)
  obtain ms p b' where f: "f b = (ms, p, b')" by (cases "f b")
  then obtain s' where "limiting_poll f \<lparr>lb_inner = b, lb_max_bytes = 0, lb_seen = s\<rparr> =
      (ms, p, \<lparr>lb_inner = b', lb_max_bytes = 0, lb_seen = s'\<rparr>)"
    by (cases p rule: data_len.cases) (simp_all add: limiting_poll_def over_budget_def Let_def)
  with f show ?case by (simp add: Suc.IH)
qed simp

lemma limiting_delivers_less: "delivered (answers (limiting_poll f) n l) \<le> delivered (answers f n (lb_inner l))"
proof (induction n arbitrary: l)
  case (Suc n)
  show ?case
  proof (cases "over_budget (lb_max_bytes l) (lb_seen l)")
    case True
    then show ?thesis using answers_over_budget [OF True, of f "Suc n"] by (simp del: answers_simps)
  next
    case False
    obtain ms p b where f: "f (lb_inner l) = (ms, p, b)" by (cases "f (lb_inner l)")
    with False have "lb_inner (snd (snd (limiting_poll f l))) = b"
      "data_len (fst (snd (limiting_poll f l))) \<le> data_len p"
      by (cases p rule: data_len.cases; simp add: limiting_poll_def Let_def)+
    with Suc.IH [of "snd (snd (limiting_poll f l))"] f show ?thesis by simp
  qed
qed simp

text \<open>
  The upper bound that a wrapped body reports is still one, because a wrapper never adds bytes; the
  lower bound is one only as long as the cap does not cut, and is not lowered to it.
\<close>

lemma limiting_upper_bound:
  assumes "\<And>b n u. sh_upper (inner_hint b) = Some u \<Longrightarrow> delivered (answers f n b) \<le> unat u"
    "sh_upper (limiting_size_hint inner_hint l) = Some u"
  shows "delivered (answers (limiting_poll f) n l) \<le> unat u"
  using assms(1) [of "lb_inner l" u n] assms(2) limiting_delivers_less [of f n l]
  by (simp add: limiting_size_hint_def)

lemma limiting_lower_bound_cut:
  "let l = limiting_new [ReadyFrame (Data ''abc'')] 2; hint = (\<lambda>b. \<lparr>sh_lower = 3, sh_upper = Some 3\<rparr>)
   in sh_lower (limiting_size_hint hint l) = 3 \<and>
     answers (limiting_poll body_poll) (Suc 0) l = [Some (ReadyErr PayloadTooLarge)]"
proof -
  have "over_budget 2 (sat_add 0 (u64_or_max 3))" "\<not> over_budget 2 (0 :: u64)"
    using over_budget_step [of 2 0 3] unat_max64 by (simp_all add: over_budget_def word_less_nat_alt)
  then show ?thesis
    by (simp add: limiting_size_hint_def limiting_new_def limiting_poll_def body_poll_def Let_def
        numeral_3_eq_3 [symmetric])
qed

lemma limiting_caps:
  assumes "max_bytes < - 1"
  obtains k where "k \<le> n"
    "answers (limiting_poll f) n (limiting_new b max_bytes) =
       take k (answers f n b) @ replicate (n - k) (Some (ReadyErr PayloadTooLarge))"
    "max_bytes = 0 \<or> delivered (take k (answers f n b)) \<le> unat max_bytes"
    "k = n \<or> unat max_bytes < delivered (take (Suc k) (answers f n b))"
    "max_bytes = 0 \<or> delivered (answers f n b) \<le> unat max_bytes \<longrightarrow> k = n"
proof (cases "max_bytes = 0")
  case True
  show thesis
    by (rule that [of n]) (simp_all add: True limiting_new_def limiting_unlimited)
next
  case False
  then have "0 < max_bytes" by (simp add: word_neq_0_conv)
  from limiting_answers [OF this assms, of 0 n f b] obtain k where k: "k \<le> n"
    "answers (limiting_poll f) n (limiting_new b max_bytes) =
       take k (answers f n b) @ replicate (n - k) (Some (ReadyErr PayloadTooLarge))"
    "delivered (take k (answers f n b)) \<le> unat max_bytes"
    "k = n \<or> unat max_bytes < delivered (take (Suc k) (answers f n b))"
    by (auto simp: limiting_new_def)
  have "k = n" if "delivered (answers f n b) \<le> unat max_bytes"
    using k(4) that delivered_take_le [of "Suc k" "answers f n b"] by linarith
  with k False show thesis by (intro that [of k]) auto
qed

lemma counting_answers:
  "answers (counting_poll f) n (counting_new b direction) = answers f n b"
proof (induction n arbitrary: b)
  case (Suc n)
  have "snd (snd (counting_poll f (counting_new b direction))) = counting_new (snd (snd (f b))) direction"
    "fst (snd (counting_poll f (counting_new b direction))) = fst (snd (f b))"
    by (simp_all add: counting_poll_def counting_new_def Let_def split: prod.split)
  with Suc show ?case by simp
qed simp

lemma body_answers: "answers body_poll (length b) b = map Some b"
  by (induction b) (simp_all add: body_poll_def)

lemma wrapped_whole: "answers f (length b) x = map Some b \<Longrightarrow> wrapped_body f (length b) x = b"
  by (simp add: wrapped_body_def List.map_filter_def comp_def filter_map)

subsection \<open>Properties\<close>

text \<open>
  C30. The response cap: however often a capped body is polled, the client is given at most
  \<open>max_bytes\<close> bytes of data; it is given the answers of the inner body unchanged up to the frame
  that exceeds the budget and \<open>PayloadTooLarge\<close> from there on, so a body that fits passes whole;
  with a cap of 0 everything passes.
\<close>

theorem limiting_body_caps:
  assumes "max_bytes < - 1"
  shows
    "let given = answers (limiting_poll f) n (limiting_new b max_bytes); own = answers f n b
     in (max_bytes = 0 \<or> delivered given \<le> unat max_bytes) \<and>
        (max_bytes = 0 \<or> delivered own \<le> unat max_bytes \<longrightarrow> given = own) \<and>
        (\<exists>k \<le> n. given = take k own @ replicate (n - k) (Some (ReadyErr PayloadTooLarge)) \<and>
           (k = n \<or> unat max_bytes < delivered (take (Suc k) own)))"
proof -
  obtain k where "k \<le> n"
    "answers (limiting_poll f) n (limiting_new b max_bytes) =
       take k (answers f n b) @ replicate (n - k) (Some (ReadyErr PayloadTooLarge))"
    "max_bytes = 0 \<or> delivered (take k (answers f n b)) \<le> unat max_bytes"
    "k = n \<or> unat max_bytes < delivered (take (Suc k) (answers f n b))"
    "max_bytes = 0 \<or> delivered (answers f n b) \<le> unat max_bytes \<longrightarrow> k = n"
    using limiting_caps [OF assms, of n f b] by blast
  then show ?thesis by (auto simp: Let_def)
qed

lemma limiting_body_caps_witness:
  "answers (limiting_poll body_poll) 2
     (limiting_new [ReadyFrame (Data ''ab''), ReadyFrame (Data ''c'')] 3) =
   [Some (ReadyFrame (Data ''ab'')), Some (ReadyFrame (Data ''c''))]"
proof -
  have own: "answers body_poll 2 [ReadyFrame (Data ''ab''), ReadyFrame (Data ''c'')] =
      [Some (ReadyFrame (Data ''ab'')), Some (ReadyFrame (Data ''c''))]"
    by (simp add: numeral_2_eq_2 body_poll_def)
  show ?thesis
    using limiting_body_caps [of 3 body_poll 2 "[ReadyFrame (Data ''ab''), ReadyFrame (Data ''c'')]"]
    by (simp add: own Let_def word_less_nat_alt unat_max64 del: answers_simps)
qed

text \<open>
  The byte counter: a counted body is the body itself, answer for answer, and whatever it is
  polled for, the counter of its direction grows by exactly the bytes it passed on.
\<close>

theorem counting_body_counts:
  assumes "\<forall>p \<in> set (answers f n b). data_len p < 2 ^ 64"
  shows "answers (counting_poll f) n (counting_new b direction) = answers f n b \<and>
    bytes_counted direction (fst (run_polls (counting_poll f) n (counting_new b direction))) =
      bytes_counted direction (fst (run_polls f n b)) + delivered (answers f n b)"
  using assms
proof (induction n arbitrary: b)
  case 0
  then show ?case by (simp add: bytes_counted_def)
next
  case (Suc n)
  obtain ms p b' where f: "f b = (ms, p, b')" by (cases "f b")
  have small: "data_len p < 2 ^ 64" using Suc.prems f by simp
  let ?cs = "if 0 < data_len p then [count_bytes direction (of_nat (data_len p))] else []"
  have "counting_poll f (counting_new b direction) = (ms @ ?cs, p, counting_new b' direction)"
    using small f
    by (cases p rule: data_len.cases)
       (auto simp: counting_poll_def counting_new_def u64_or_max_def word_greater_zero_iff
          unat_of_nat word_of_nat_eq_0_iff dvd_imp_le Let_def simp flip: word_neq_0_conv)
  moreover have "bytes_counted direction ?cs = data_len p"
    using small by (simp add: bytes_counted_def count_bytes_def unat_of_nat)
  ultimately obtain cs where step:
    "counting_poll f (counting_new b direction) = (ms @ cs, p, counting_new b' direction)"
    "bytes_counted direction cs = data_len p" by blast
  have "\<forall>p \<in> set (answers f n b'). data_len p < 2 ^ 64" using Suc.prems f by simp
  from Suc.IH [OF this] show ?case
    by (auto simp: f step answers_def split: prod.splits)
qed

lemma counting_body_counts_witness:
  "bytes_counted ''request'' (fst (run_polls (counting_poll body_poll) 2
     (counting_new [ReadyFrame (Data ''ab''), Pending] ''request''))) = 2"
proof -
  have own: "answers body_poll 2 [ReadyFrame (Data ''ab''), Pending] =
      [Some (ReadyFrame (Data ''ab'')), Some Pending]"
    by (simp add: numeral_2_eq_2 body_poll_def)
  have "fst (run_polls body_poll 2 [ReadyFrame (Data ''ab''), Pending]) = []"
    by (simp add: numeral_2_eq_2 body_poll_def)
  then show ?thesis
    using counting_body_counts [of body_poll 2 "[ReadyFrame (Data ''ab''), Pending]" "''request''"]
    by (simp add: own bytes_counted_def del: answers_simps)
qed

end
