(* ===== verification/Rate_Limit.thy ===== *)
theory Rate_Limit
  imports Telemetry Config Ssrf Dash_Map
begin

text \<open>
  \<open>corx-server/src/middleware/rate_limit.rs\<close>: the four-dimensional rate limiter. The token buckets
  (crate \<open>governor\<close>), the regular expressions (crate \<open>regex\<close>) and the key registries (crate
  \<open>dashmap\<close>) are the parameter \<open>L\<close>. The registry of a dimension is bounded by \<open>max_keys\<close>: the last
  section runs the registration protocol concurrently, one map operation at a time.
\<close>

subsection \<open>The libraries\<close>

text \<open>
  The state of the buckets starts empty; a check under a quota, a rate and a burst, takes a token of
  its key at an instant or refuses. A \<open>governor::RateLimiter\<close> is a quota, fixed when it is made, with
  such a state.
\<close>

record ('g, 'k) gov_keyed =
  gk_empty :: 'g
  gk_check :: "u32 \<times> u32 \<Rightarrow> instant \<Rightarrow> 'k \<Rightarrow> 'g \<Rightarrow> bool \<times> 'g"

record 'g governor =
  gv_quota :: "u32 \<times> u32"
  gv_state :: 'g

definition gov_new :: "('g, 'k) gov_keyed \<Rightarrow> u32 \<times> u32 \<Rightarrow> 'g governor" where
  "gov_new G q = \<lparr>gv_quota = q, gv_state = gk_empty G\<rparr>"

definition gov_check :: "('g, 'k) gov_keyed \<Rightarrow> instant \<Rightarrow> 'k \<Rightarrow> 'g governor \<Rightarrow> bool \<times> 'g governor" where
  "gov_check G now key limiter =
     (case gk_check G (gv_quota limiter) now key (gv_state limiter) of
        (ok, g) \<Rightarrow> (ok, limiter\<lparr>gv_state := g\<rparr>))"

lemma gov_check_quota [simp]: "gv_quota (snd (gov_check G now key limiter)) = gv_quota limiter"
  by (simp add: gov_check_def split: prod.split)

record ('gs, 'gi, 'gd, 'ms, 'mi, 'r) limiter_lib =
  ll_str :: "('gs, string) gov_keyed"
  ll_ip :: "('gi, ip_addr) gov_keyed"
  ll_direct :: "('gd, unit) gov_keyed"
  ll_str_keys :: "('ms, string, unit) dash_lib"
  ll_ip_keys :: "('mi, ip_addr, unit) dash_lib"
  ll_regex_new :: "string list \<Rightarrow> string + 'r"
  ll_regex_match :: "'r \<Rightarrow> string \<Rightarrow> bool"

subsection \<open>The limiter\<close>

record rate_context =
  rc_origin :: "string option"
  rc_client_ip :: ip_addr
  rc_target_host :: "string option"

record ('g, 'm, 'r) origin_dimension =
  od_limiter :: "'g governor"
  od_keys :: 'm
  od_unlimited :: 'r

record ('g, 'm) ip_dimension =
  id_limiter :: "'g governor"
  id_keys :: 'm
  id_trusted :: "ip_net list"

record ('g, 'm) host_dimension =
  hd_limiter :: "'g governor"
  hd_keys :: 'm

record ('gs, 'gi, 'gd, 'ms, 'mi, 'r) rate_limiter =
  rt_enabled :: bool
  rt_max_keys :: usize
  rt_origin :: "('gs, 'ms, 'r) origin_dimension option"
  rt_ip :: "('gi, 'mi) ip_dimension option"
  rt_host :: "('gs, 'ms) host_dimension option"
  rt_global :: "'gd governor option"

definition quota :: "u32 \<Rightarrow> u32 \<Rightarrow> string + u32 \<times> u32" where
  "quota rps burst =
     (if rps = 0 then Inl ''rps must be > 0''
      else if max burst rps = 0 then Inl ''burst must be > 0''
      else Inr (rps, max burst rps))"

definition build_origin ::
  "('gs, 'gi, 'gd, 'ms, 'mi, 'r) limiter_lib \<Rightarrow> origin_limit_config \<Rightarrow>
     string + ('gs, 'ms, 'r) origin_dimension option" where
  "build_origin L cfg =
     (if ol_rps cfg = 0 then Inr None
      else bind_res (quota (ol_rps cfg) (ol_burst cfg)) (\<lambda>q.
           (case ll_regex_new L (ol_unlimited_patterns cfg) of
              Inl err \<Rightarrow> Inl (''invalid origin.unlimited_patterns regex: '' @ err)
            | Inr unlimited \<Rightarrow>
                Inr (Some \<lparr>od_limiter = gov_new (ll_str L) q, od_keys = dm_empty (ll_str_keys L),
                           od_unlimited = unlimited\<rparr>))))"

definition build_ip ::
  "('gs, 'gi, 'gd, 'ms, 'mi, 'r) limiter_lib \<Rightarrow> ip_limit_config \<Rightarrow>
     string + ('gi, 'mi) ip_dimension option" where
  "build_ip L cfg =
     (if il_rps cfg = 0 then Inr None
      else bind_res (quota (il_rps cfg) (il_burst cfg)) (\<lambda>q.
           Inr (Some \<lparr>id_limiter = gov_new (ll_ip L) q, id_keys = dm_empty (ll_ip_keys L),
                      id_trusted = il_trusted_cidrs cfg\<rparr>)))"

definition build_host ::
  "('gs, 'gi, 'gd, 'ms, 'mi, 'r) limiter_lib \<Rightarrow> host_limit_config \<Rightarrow>
     string + ('gs, 'ms) host_dimension option" where
  "build_host L cfg =
     (if hl_rps cfg = 0 then Inr None
      else bind_res (quota (hl_rps cfg) (hl_burst cfg)) (\<lambda>q.
           Inr (Some \<lparr>hd_limiter = gov_new (ll_str L) q, hd_keys = dm_empty (ll_str_keys L)\<rparr>)))"

definition build_global ::
  "('gs, 'gi, 'gd, 'ms, 'mi, 'r) limiter_lib \<Rightarrow> global_limit_config \<Rightarrow> string + 'gd governor option" where
  "build_global L cfg =
     (if gl_rps cfg = 0 then Inr None
      else bind_res (quota (gl_rps cfg) (gl_burst cfg)) (\<lambda>q. Inr (Some (gov_new (ll_direct L) q))))"

definition rate_from_config ::
  "('gs, 'gi, 'gd, 'ms, 'mi, 'r) limiter_lib \<Rightarrow> rate_limit_config \<Rightarrow>
     string + ('gs, 'gi, 'gd, 'ms, 'mi, 'r) rate_limiter" where
  "rate_from_config L cfg =
     (if \<not> rl_enabled cfg then
        Inr \<lparr>rt_enabled = False, rt_max_keys = max (rl_max_keys cfg) 1, rt_origin = None,
             rt_ip = None, rt_host = None, rt_global = None\<rparr>
      else
        bind_res (build_origin L (rl_origin cfg)) (\<lambda>org.
        bind_res (build_ip L (rl_ip cfg)) (\<lambda>ip.
        bind_res (build_host L (rl_target_host cfg)) (\<lambda>host.
        bind_res (build_global L (rl_global cfg)) (\<lambda>global.
          Inr \<lparr>rt_enabled = True, rt_max_keys = max (rl_max_keys cfg) 1, rt_origin = org,
               rt_ip = ip, rt_host = host, rt_global = global\<rparr>)))))"

subsection \<open>One dimension\<close>

definition rate_limited :: "string \<Rightarrow> metric" where
  "rate_limited dimension = Count RATE_LIMITED [(''dimension'', dimension)] 1"

definition reject :: "string \<Rightarrow> metric list \<times> unit res" where
  "reject dimension = ([rate_limited dimension], Inl RateLimited)"

definition admit_key ::
  "('m, 'k, unit) dash_lib \<Rightarrow> 'm \<Rightarrow> 'k \<Rightarrow> usize \<Rightarrow> string \<Rightarrow> (metric list \<times> unit res) \<times> 'm" where
  "admit_key D keys key max_keys dimension =
     (if dm_contains D keys key then (([], Inr ()), keys)
      else if unat max_keys \<le> dm_len D keys then (reject dimension, keys)
      else
        (let keys = dm_insert D keys key ()
         in if unat max_keys < dm_len D keys then (reject dimension, dm_remove D keys key)
            else (([], Inr ()), keys)))"

definition admit_and_check ::
  "('m, 'k, unit) dash_lib \<Rightarrow> ('g, 'k) gov_keyed \<Rightarrow> instant \<Rightarrow> 'g governor \<Rightarrow> 'm \<Rightarrow> 'k \<Rightarrow> usize \<Rightarrow>
     string \<Rightarrow> (metric list \<times> unit res) \<times> 'g governor \<times> 'm" where
  "admit_and_check D G now limiter keys key max_keys dimension =
     (case admit_key D keys key max_keys dimension of
        ((ms, Inl e), keys) \<Rightarrow> ((ms, Inl e), limiter, keys)
      | ((ms, Inr _), keys) \<Rightarrow>
          (case gov_check G now key limiter of
             (ok, limiter) \<Rightarrow> (if \<not> ok then reject dimension else (ms, Inr ()), limiter, keys)))"

text \<open>\<open>admit_and_check_str\<close> is the same on an owned copy of the text.\<close>

definition admit_and_check_str ::
  "('m, string, unit) dash_lib \<Rightarrow> ('g, string) gov_keyed \<Rightarrow> instant \<Rightarrow> 'g governor \<Rightarrow> 'm \<Rightarrow> string \<Rightarrow>
     usize \<Rightarrow> string \<Rightarrow> (metric list \<times> unit res) \<times> 'g governor \<times> 'm" where
  "admit_and_check_str D G now limiter keys key max_keys dimension =
     (case admit_key D keys key max_keys dimension of
        ((ms, Inl e), keys) \<Rightarrow> ((ms, Inl e), limiter, keys)
      | ((ms, Inr _), keys) \<Rightarrow>
          (case gov_check G now key limiter of
             (ok, limiter) \<Rightarrow> (if \<not> ok then reject dimension else (ms, Inr ()), limiter, keys)))"

definition is_trusted :: "net_lib \<Rightarrow> ip_net list \<Rightarrow> ip_addr \<Rightarrow> bool" where
  "is_trusted N nets ip \<longleftrightarrow> list_ex (\<lambda>net. net_contains N net ip) nets"

subsection \<open>The check\<close>

type_synonym 's checked = "(metric list \<times> unit res) \<times> 's"

text \<open>The \<open>?\<close> after a dimension: the next one runs only if it answered \<open>Ok\<close>.\<close>

definition and_then :: "'s checked \<Rightarrow> ('s \<Rightarrow> 's checked) \<Rightarrow> 's checked" where
  "and_then r f =
     (case r of
        ((ms, Inl e), s) \<Rightarrow> ((ms, Inl e), s)
      | ((ms, Inr _), s) \<Rightarrow> (case f s of ((ms', r'), s') \<Rightarrow> ((ms @ ms', r'), s')))"

definition check_origin_dim ::
  "('gs, 'gi, 'gd, 'ms, 'mi, 'r) limiter_lib \<Rightarrow> instant \<Rightarrow> rate_context \<Rightarrow>
     ('gs, 'gi, 'gd, 'ms, 'mi, 'r) rate_limiter \<Rightarrow> ('gs, 'gi, 'gd, 'ms, 'mi, 'r) rate_limiter checked" where
  "check_origin_dim L now ctx lim =
     (case (rt_origin lim, rc_origin ctx) of
        (Some dim, Some org) \<Rightarrow>
          (if \<not> ll_regex_match L (od_unlimited dim) org then
             (case admit_and_check_str (ll_str_keys L) (ll_str L) now (od_limiter dim) (od_keys dim) org
                     (rt_max_keys lim) ''origin'' of
                (r, g, keys) \<Rightarrow> (r, lim\<lparr>rt_origin := Some (dim\<lparr>od_limiter := g, od_keys := keys\<rparr>)\<rparr>))
           else (([], Inr ()), lim))
      | _ \<Rightarrow> (([], Inr ()), lim))"

definition check_ip_dim ::
  "net_lib \<Rightarrow> ('gs, 'gi, 'gd, 'ms, 'mi, 'r) limiter_lib \<Rightarrow> instant \<Rightarrow> rate_context \<Rightarrow>
     ('gs, 'gi, 'gd, 'ms, 'mi, 'r) rate_limiter \<Rightarrow> ('gs, 'gi, 'gd, 'ms, 'mi, 'r) rate_limiter checked" where
  "check_ip_dim N L now ctx lim =
     (case rt_ip lim of
        Some dim \<Rightarrow>
          (if \<not> is_trusted N (id_trusted dim) (rc_client_ip ctx) then
             (case admit_and_check (ll_ip_keys L) (ll_ip L) now (id_limiter dim) (id_keys dim)
                     (rc_client_ip ctx) (rt_max_keys lim) ''ip'' of
                (r, g, keys) \<Rightarrow> (r, lim\<lparr>rt_ip := Some (dim\<lparr>id_limiter := g, id_keys := keys\<rparr>)\<rparr>))
           else (([], Inr ()), lim))
      | None \<Rightarrow> (([], Inr ()), lim))"

definition check_host_dim ::
  "('gs, 'gi, 'gd, 'ms, 'mi, 'r) limiter_lib \<Rightarrow> instant \<Rightarrow> rate_context \<Rightarrow>
     ('gs, 'gi, 'gd, 'ms, 'mi, 'r) rate_limiter \<Rightarrow> ('gs, 'gi, 'gd, 'ms, 'mi, 'r) rate_limiter checked" where
  "check_host_dim L now ctx lim =
     (case (rt_host lim, rc_target_host ctx) of
        (Some dim, Some host) \<Rightarrow>
          (case admit_and_check_str (ll_str_keys L) (ll_str L) now (hd_limiter dim) (hd_keys dim) host
                  (rt_max_keys lim) ''target_host'' of
             (r, g, keys) \<Rightarrow> (r, lim\<lparr>rt_host := Some (dim\<lparr>hd_limiter := g, hd_keys := keys\<rparr>)\<rparr>))
      | _ \<Rightarrow> (([], Inr ()), lim))"

definition check_global_dim ::
  "('gs, 'gi, 'gd, 'ms, 'mi, 'r) limiter_lib \<Rightarrow> instant \<Rightarrow>
     ('gs, 'gi, 'gd, 'ms, 'mi, 'r) rate_limiter \<Rightarrow> ('gs, 'gi, 'gd, 'ms, 'mi, 'r) rate_limiter checked" where
  "check_global_dim L now lim =
     (case rt_global lim of
        Some global \<Rightarrow>
          (case gov_check (ll_direct L) now () global of
             (ok, g) \<Rightarrow> (if \<not> ok then reject ''global'' else ([], Inr ()), lim\<lparr>rt_global := Some g\<rparr>))
      | None \<Rightarrow> (([], Inr ()), lim))"

definition rate_check ::
  "net_lib \<Rightarrow> ('gs, 'gi, 'gd, 'ms, 'mi, 'r) limiter_lib \<Rightarrow> instant \<Rightarrow> rate_context \<Rightarrow>
     ('gs, 'gi, 'gd, 'ms, 'mi, 'r) rate_limiter \<Rightarrow> ('gs, 'gi, 'gd, 'ms, 'mi, 'r) rate_limiter checked" where
  "rate_check N L now ctx lim =
     (if \<not> rt_enabled lim then (([], Inr ()), lim)
      else
        and_then (and_then (and_then
          (check_origin_dim L now ctx lim)
          (check_ip_dim N L now ctx))
          (check_host_dim L now ctx))
          (check_global_dim L now))"

subsection \<open>What a dimension asks\<close>

definition admits ::
  "('m, 'k, unit) dash_lib \<Rightarrow> ('g, 'k) gov_keyed \<Rightarrow> instant \<Rightarrow> 'g governor \<Rightarrow> 'm \<Rightarrow> 'k \<Rightarrow> usize \<Rightarrow> bool" where
  "admits D G now limiter keys key max_keys \<longleftrightarrow>
     (dm_contains D keys key \<or> dm_len D keys < unat max_keys) \<and> fst (gov_check G now key limiter)"

definition origin_admits ::
  "('gs, 'gi, 'gd, 'ms, 'mi, 'r) limiter_lib \<Rightarrow> instant \<Rightarrow> rate_context \<Rightarrow>
     ('gs, 'gi, 'gd, 'ms, 'mi, 'r) rate_limiter \<Rightarrow> bool" where
  "origin_admits L now ctx lim \<longleftrightarrow>
     (case (rt_origin lim, rc_origin ctx) of
        (Some dim, Some org) \<Rightarrow>
          ll_regex_match L (od_unlimited dim) org \<or>
          admits (ll_str_keys L) (ll_str L) now (od_limiter dim) (od_keys dim) org (rt_max_keys lim)
      | _ \<Rightarrow> True)"

definition ip_admits ::
  "net_lib \<Rightarrow> ('gs, 'gi, 'gd, 'ms, 'mi, 'r) limiter_lib \<Rightarrow> instant \<Rightarrow> rate_context \<Rightarrow>
     ('gs, 'gi, 'gd, 'ms, 'mi, 'r) rate_limiter \<Rightarrow> bool" where
  "ip_admits N L now ctx lim \<longleftrightarrow>
     (case rt_ip lim of
        Some dim \<Rightarrow>
          is_trusted N (id_trusted dim) (rc_client_ip ctx) \<or>
          admits (ll_ip_keys L) (ll_ip L) now (id_limiter dim) (id_keys dim) (rc_client_ip ctx)
            (rt_max_keys lim)
      | None \<Rightarrow> True)"

definition host_admits ::
  "('gs, 'gi, 'gd, 'ms, 'mi, 'r) limiter_lib \<Rightarrow> instant \<Rightarrow> rate_context \<Rightarrow>
     ('gs, 'gi, 'gd, 'ms, 'mi, 'r) rate_limiter \<Rightarrow> bool" where
  "host_admits L now ctx lim \<longleftrightarrow>
     (case (rt_host lim, rc_target_host ctx) of
        (Some dim, Some host) \<Rightarrow>
          admits (ll_str_keys L) (ll_str L) now (hd_limiter dim) (hd_keys dim) host (rt_max_keys lim)
      | _ \<Rightarrow> True)"

definition global_admits ::
  "('gs, 'gi, 'gd, 'ms, 'mi, 'r) limiter_lib \<Rightarrow> instant \<Rightarrow>
     ('gs, 'gi, 'gd, 'ms, 'mi, 'r) rate_limiter \<Rightarrow> bool" where
  "global_admits L now lim \<longleftrightarrow>
     (case rt_global lim of Some g \<Rightarrow> fst (gov_check (ll_direct L) now () g) | None \<Rightarrow> True)"

text \<open>The dimensions that would refuse a request, from the most specific to the least.\<close>

definition refusing ::
  "net_lib \<Rightarrow> ('gs, 'gi, 'gd, 'ms, 'mi, 'r) limiter_lib \<Rightarrow> instant \<Rightarrow> rate_context \<Rightarrow>
     ('gs, 'gi, 'gd, 'ms, 'mi, 'r) rate_limiter \<Rightarrow> string list" where
  "refusing N L now ctx lim =
     map snd (filter (\<lambda>(ok, _). \<not> ok)
       [(origin_admits L now ctx lim, ''origin''), (ip_admits N L now ctx lim, ''ip''),
        (host_admits L now ctx lim, ''target_host''), (global_admits L now lim, ''global'')])"

definition registries_bounded ::
  "('gs, 'gi, 'gd, 'ms, 'mi, 'r) limiter_lib \<Rightarrow> ('gs, 'gi, 'gd, 'ms, 'mi, 'r) rate_limiter \<Rightarrow> bool" where
  "registries_bounded L lim \<longleftrightarrow>
     (case rt_origin lim of Some d \<Rightarrow> dm_len (ll_str_keys L) (od_keys d) \<le> unat (rt_max_keys lim) | None \<Rightarrow> True) \<and>
     (case rt_ip lim of Some d \<Rightarrow> dm_len (ll_ip_keys L) (id_keys d) \<le> unat (rt_max_keys lim) | None \<Rightarrow> True) \<and>
     (case rt_host lim of Some d \<Rightarrow> dm_len (ll_str_keys L) (hd_keys d) \<le> unat (rt_max_keys lim) | None \<Rightarrow> True)"

lemma admit_key_eq:
  assumes "dash_map D"
  shows "admit_key D keys key max_keys d =
     (if dm_contains D keys key then (([], Inr ()), keys)
      else if dm_len D keys < unat max_keys then (([], Inr ()), dm_insert D keys key ())
      else (reject d, keys))"
  by (simp add: admit_key_def Let_def dash_map.len_insert [OF assms])

lemma admit_and_check_result:
  assumes "dash_map D"
  shows "fst (admit_and_check D G now limiter keys key max_keys d) =
     (if admits D G now limiter keys key max_keys then ([], Inr ()) else reject d)"
  by (simp add: admit_and_check_def admits_def admit_key_eq [OF assms] reject_def split: prod.split)

lemma admit_and_check_bounded:
  assumes "dash_map D" "dm_len D keys \<le> unat max_keys"
  shows "dm_len D (snd (snd (admit_and_check D G now limiter keys key max_keys d))) \<le> unat max_keys"
  using assms(2)
  by (simp add: admit_and_check_def admit_key_eq [OF assms(1)] reject_def
      dash_map.len_insert [OF assms(1)] split: prod.split)

lemma admit_and_check_str_eq: "admit_and_check_str = admit_and_check"
  by (intro ext) (simp add: admit_and_check_str_def admit_and_check_def)

text \<open>A dimension answers by its own state alone, and touches no other dimension.\<close>

lemma check_origin_dim:
  assumes "dash_map (ll_str_keys L)"
  shows "fst (check_origin_dim L now ctx lim) =
      (if origin_admits L now ctx lim then ([], Inr ()) else reject ''origin'')"
    "registries_bounded L lim \<Longrightarrow> registries_bounded L (snd (check_origin_dim L now ctx lim))"
    "rt_ip (snd (check_origin_dim L now ctx lim)) = rt_ip lim"
    "rt_host (snd (check_origin_dim L now ctx lim)) = rt_host lim"
    "rt_global (snd (check_origin_dim L now ctx lim)) = rt_global lim"
    "rt_max_keys (snd (check_origin_dim L now ctx lim)) = rt_max_keys lim"
proof -
  note r = admit_and_check_result [OF assms] admit_and_check_bounded [OF assms]
  show "fst (check_origin_dim L now ctx lim) =
      (if origin_admits L now ctx lim then ([], Inr ()) else reject ''origin'')"
    by (auto simp: check_origin_dim_def origin_admits_def admit_and_check_str_eq case_prod_beta r split: option.splits)
  show "registries_bounded L lim \<Longrightarrow> registries_bounded L (snd (check_origin_dim L now ctx lim))"
    by (auto simp: check_origin_dim_def registries_bounded_def admit_and_check_str_eq case_prod_beta r split: option.splits)
qed (auto simp: check_origin_dim_def split: option.splits prod.splits)

lemma check_ip_dim:
  assumes "dash_map (ll_ip_keys L)"
  shows "fst (check_ip_dim N L now ctx lim) =
      (if ip_admits N L now ctx lim then ([], Inr ()) else reject ''ip'')"
    "registries_bounded L lim \<Longrightarrow> registries_bounded L (snd (check_ip_dim N L now ctx lim))"
    "rt_host (snd (check_ip_dim N L now ctx lim)) = rt_host lim"
    "rt_global (snd (check_ip_dim N L now ctx lim)) = rt_global lim"
    "rt_max_keys (snd (check_ip_dim N L now ctx lim)) = rt_max_keys lim"
proof -
  note r = admit_and_check_result [OF assms] admit_and_check_bounded [OF assms]
  show "fst (check_ip_dim N L now ctx lim) =
      (if ip_admits N L now ctx lim then ([], Inr ()) else reject ''ip'')"
    by (auto simp: check_ip_dim_def ip_admits_def case_prod_beta r split: option.splits)
  show "registries_bounded L lim \<Longrightarrow> registries_bounded L (snd (check_ip_dim N L now ctx lim))"
    by (auto simp: check_ip_dim_def registries_bounded_def case_prod_beta r split: option.splits)
qed (auto simp: check_ip_dim_def split: option.splits prod.splits)

lemma check_host_dim:
  assumes "dash_map (ll_str_keys L)"
  shows "fst (check_host_dim L now ctx lim) =
      (if host_admits L now ctx lim then ([], Inr ()) else reject ''target_host'')"
    "registries_bounded L lim \<Longrightarrow> registries_bounded L (snd (check_host_dim L now ctx lim))"
    "rt_global (snd (check_host_dim L now ctx lim)) = rt_global lim"
proof -
  note r = admit_and_check_result [OF assms] admit_and_check_bounded [OF assms]
  show "fst (check_host_dim L now ctx lim) =
      (if host_admits L now ctx lim then ([], Inr ()) else reject ''target_host'')"
    by (auto simp: check_host_dim_def host_admits_def admit_and_check_str_eq case_prod_beta r split: option.splits)
  show "registries_bounded L lim \<Longrightarrow> registries_bounded L (snd (check_host_dim L now ctx lim))"
    by (auto simp: check_host_dim_def registries_bounded_def admit_and_check_str_eq case_prod_beta r split: option.splits)
qed (auto simp: check_host_dim_def split: option.splits prod.splits)

lemma check_global_dim:
  "fst (check_global_dim L now lim) =
     (if global_admits L now lim then ([], Inr ()) else reject ''global'')"
  "registries_bounded L lim \<Longrightarrow> registries_bounded L (snd (check_global_dim L now lim))"
  by (auto simp: check_global_dim_def global_admits_def registries_bounded_def
      split: option.splits prod.splits)

lemma and_then_ok: "fst r = ([], Inr ()) \<Longrightarrow> and_then r f = f (snd r)"
  by (cases "f (snd r)") (auto simp: and_then_def split: prod.splits)

lemma and_then_reject: "fst r = reject d \<Longrightarrow> and_then r f = r"
  by (auto simp: and_then_def reject_def split: prod.splits)

lemma later_dimensions:
  "rt_ip lim' = rt_ip lim \<Longrightarrow> rt_max_keys lim' = rt_max_keys lim \<Longrightarrow>
     ip_admits N L now ctx lim' = ip_admits N L now ctx lim"
  "rt_host lim' = rt_host lim \<Longrightarrow> rt_max_keys lim' = rt_max_keys lim \<Longrightarrow>
     host_admits L now ctx lim' = host_admits L now ctx lim"
  "rt_global lim' = rt_global lim \<Longrightarrow> global_admits L now lim' = global_admits L now lim"
  by (simp_all add: ip_admits_def host_admits_def global_admits_def split: option.split)

subsection \<open>Registration by several requests at once\<close>

text \<open>
  \<open>admit_key\<close> as a request runs it beside others: one operation on the shared registry at a time.
  \<open>Inserted\<close> and \<open>Over\<close> are the points between the insertion and the decision.
\<close>

datatype 'k admission =
    Checking 'k
  | Vacant 'k
  | Room 'k
  | Inserted 'k
  | Over 'k
  | Decided bool

fun admission_turn ::
  "('m, 'k, unit) dash_lib \<Rightarrow> usize \<Rightarrow> 'k admission \<times> 'm \<Rightarrow> 'k admission \<times> 'm" where
  "admission_turn D max_keys (Checking k, keys) =
     (if dm_contains D keys k then Decided True else Vacant k, keys)"
| "admission_turn D max_keys (Vacant k, keys) =
     (if unat max_keys \<le> dm_len D keys then Decided False else Room k, keys)"
| "admission_turn D max_keys (Room k, keys) = (Inserted k, dm_insert D keys k ())"
| "admission_turn D max_keys (Inserted k, keys) =
     (if unat max_keys < dm_len D keys then Over k else Decided True, keys)"
| "admission_turn D max_keys (Over k, keys) = (Decided False, dm_remove D keys k)"
| "admission_turn D max_keys (Decided b, keys) = (Decided b, keys)"

lemma admit_key_turns:
  "(admission_turn D max_keys ^^ 5) (Checking k, keys) =
     (Decided (snd (fst (admit_key D keys k max_keys d)) = Inr ()),
      snd (admit_key D keys k max_keys d))"
  by (simp add: eval_nat_numeral admit_key_def reject_def Let_def)

inductive admission_reach ::
  "('m, 'k, unit) dash_lib \<Rightarrow> usize \<Rightarrow> 'm \<Rightarrow> (nat \<Rightarrow> 'k admission) \<Rightarrow> bool"
  for D max_keys where
  start: "(\<And>i. \<exists>k. pcs i = Checking k) \<Longrightarrow> admission_reach D max_keys (dm_empty D) pcs"
| turn: "admission_reach D max_keys keys pcs \<Longrightarrow>
     admission_turn D max_keys (pcs i, keys) = (pc, keys') \<Longrightarrow>
     admission_reach D max_keys keys' (pcs(i := pc))"
| again: "admission_reach D max_keys keys pcs \<Longrightarrow> pcs i = Decided b \<Longrightarrow>
     admission_reach D max_keys keys (pcs(i := Checking k))"

definition undecided :: "(nat \<Rightarrow> 'k admission) \<Rightarrow> 'k set" where
  "undecided pcs = {k. \<exists>i. pcs i = Inserted k \<or> pcs i = Over k}"

definition registry_bound ::
  "('m, 'k, unit) dash_lib \<Rightarrow> usize \<Rightarrow> 'm \<Rightarrow> (nat \<Rightarrow> 'k admission) \<Rightarrow> bool" where
  "registry_bound D max_keys keys pcs \<longleftrightarrow>
     dm_len D keys \<le> unat max_keys + card (undecided pcs \<inter> dom (dm_get D keys))"

fun undecided_key :: "'k admission \<Rightarrow> 'k set" where
  "undecided_key (Inserted k) = {k}"
| "undecided_key (Over k) = {k}"
| "undecided_key _ = {}"

lemma undecided_eq: "undecided pcs = (\<Union>j. undecided_key (pcs j))"
proof -
  have "k \<in> undecided_key pc \<longleftrightarrow> pc = Inserted k \<or> pc = Over k" for k and pc :: "'a admission"
    by (cases pc) auto
  then show ?thesis by (auto simp: undecided_def)
qed

lemma undecided_update:
  "undecided (pcs(i := pc)) = undecided_key pc \<union> (\<Union>j \<in> - {i}. undecided_key (pcs j))"
  by (auto simp: undecided_eq split: if_splits)

lemma undecided_split: "undecided pcs = undecided_key (pcs i) \<union> (\<Union>j \<in> - {i}. undecided_key (pcs j))"
  using undecided_update [of pcs i "pcs i"] by simp

lemma undecided_same:
  "undecided_key pc = undecided_key (pcs i) \<Longrightarrow> undecided (pcs(i := pc)) = undecided pcs"
  by (simp add: undecided_update undecided_split [of pcs i])

lemma undecided_insert:
  "undecided_key (pcs i) = {} \<Longrightarrow> undecided (pcs(i := Inserted k)) = insert k (undecided pcs)"
  by (simp add: undecided_update undecided_split [of pcs i])

lemma undecided_drop: "pcs i = Over k \<Longrightarrow> undecided pcs - {k} \<subseteq> undecided (pcs(i := Decided b))"
  by (auto simp: undecided_update undecided_split [of pcs i])

lemma undecided_mem: "pcs i = Over k \<Longrightarrow> k \<in> undecided pcs"
  by (auto simp: undecided_def)

lemma registry_bound_insert:
  assumes "dash_map D" "registry_bound D max_keys keys pcs" "pcs i = Room k"
  shows "registry_bound D max_keys (dm_insert D keys k ()) (pcs(i := Inserted k))"
proof -
  let ?S = "undecided pcs" and ?K = "dom (dm_get D keys)"
  have fin: "finite ?K" by (rule dash_map.finite_dom [OF assms(1)])
  have u: "undecided (pcs(i := Inserted k)) = insert k ?S"
    using assms(3) by (simp add: undecided_insert)
  have eq: "insert k ?S \<inter> insert k ?K = insert k (?S \<inter> ?K)" by blast
  have "dm_len D (dm_insert D keys k ()) = (if k \<in> ?K then dm_len D keys else dm_len D keys + 1)"
    using dash_map.len_insert [OF assms(1), of keys k "()"] by (auto simp: dm_contains_def)
  moreover have "card (insert k (?S \<inter> ?K)) = (if k \<in> ?S \<inter> ?K then card (?S \<inter> ?K) else card (?S \<inter> ?K) + 1)"
    using fin by (simp add: card_insert_if)
  ultimately show ?thesis
    using assms(2) u eq
    by (auto simp: registry_bound_def dash_map.dom_insert [OF assms(1)] split: if_splits)
qed

lemma registry_bound_remove:
  assumes "dash_map D" "registry_bound D max_keys keys pcs" "pcs i = Over k"
  shows "registry_bound D max_keys (dm_remove D keys k) (pcs(i := Decided b))"
proof -
  let ?S = "undecided pcs" and ?K = "dom (dm_get D keys)" and ?S' = "undecided (pcs(i := Decided b))"
  have fin: "finite ?K" by (rule dash_map.finite_dom [OF assms(1)])
  have "card ((?S - {k}) \<inter> (?K - {k})) \<le> card (?S' \<inter> (?K - {k}))"
    using fin undecided_drop [of pcs i k b, OF assms(3)] by (intro card_mono) auto
  moreover have "(?S - {k}) \<inter> (?K - {k}) = (?S \<inter> ?K) - {k}" by blast
  moreover have "card ((?S \<inter> ?K) - {k}) = (if k \<in> ?K then card (?S \<inter> ?K) - 1 else card (?S \<inter> ?K))"
    using fin undecided_mem [of pcs i k, OF assms(3)] by (simp add: card_Diff_singleton_if)
  moreover have "dm_len D (dm_remove D keys k) = (if k \<in> ?K then dm_len D keys - 1 else dm_len D keys)"
    using dash_map.len_remove [OF assms(1), of keys k] by (auto simp: dm_contains_def)
  moreover have "k \<in> ?K \<Longrightarrow> 0 < card (?S \<inter> ?K)"
    using fin undecided_mem [of pcs i k, OF assms(3)] by (auto simp: card_gt_0_iff)
  ultimately show ?thesis
    using assms(2)
    by (auto simp: registry_bound_def dash_map.dom_remove [OF assms(1)] split: if_splits)
qed

lemma registry_bound_turn:
  assumes "dash_map D" "registry_bound D max_keys keys pcs"
    "admission_turn D max_keys (pcs i, keys) = (pc, keys')"
  shows "registry_bound D max_keys keys' (pcs(i := pc))"
proof (cases "pcs i")
  case (Room k)
  with assms registry_bound_insert [OF assms(1,2) Room] show ?thesis by auto
next
  case (Over k)
  with assms registry_bound_remove [OF assms(1,2) Over] show ?thesis by auto
next
  case (Inserted k)
  show ?thesis
  proof (cases "unat max_keys < dm_len D keys")
    case True
    with Inserted assms(2,3) undecided_same [of "Over k" pcs i] show ?thesis
      by (auto simp: registry_bound_def)
  next
    case False
    with Inserted assms(3) show ?thesis by (auto simp: registry_bound_def)
  qed
next
  case (Checking k)
  with assms have "keys' = keys" "undecided_key pc = undecided_key (pcs i)"
    by (auto split: if_splits)
  with assms(2) undecided_same show ?thesis by (metis registry_bound_def)
next
  case (Vacant k)
  with assms have "keys' = keys" "undecided_key pc = undecided_key (pcs i)"
    by (auto split: if_splits)
  with assms(2) undecided_same show ?thesis by (metis registry_bound_def)
next
  case (Decided b)
  with assms have "keys' = keys" "undecided_key pc = undecided_key (pcs i)"
    by auto
  with assms(2) undecided_same show ?thesis by (metis registry_bound_def)
qed

lemma registry_bound_reach:
  "admission_reach D max_keys keys pcs \<Longrightarrow> dash_map D \<Longrightarrow> registry_bound D max_keys keys pcs"
proof (induction rule: admission_reach.induct)
  case (start pcs)
  then show ?case by (simp add: registry_bound_def dash_map.len_empty)
next
  case (turn keys pcs i pc keys')
  then show ?case by (blast intro: registry_bound_turn)
next
  case (again keys pcs i b k)
  then have "undecided (pcs(i := Checking k)) = undecided pcs"
    by (intro undecided_same) simp
  with again show ?case by (simp only: registry_bound_def)
qed

subsection \<open>A limiter to evaluate on\<close>

definition example_bucket :: "('k list, 'k) gov_keyed" where
  "example_bucket =
     \<lparr>gk_empty = [], gk_check = (\<lambda>q now k used. (count_list used k < unat (snd q), k # used))\<rparr>"

definition example_limiters where
  "example_limiters =
     \<lparr>ll_str = (example_bucket :: (string list, string) gov_keyed),
      ll_ip = (example_bucket :: (ip_addr list, ip_addr) gov_keyed),
      ll_direct = (example_bucket :: (unit list, unit) gov_keyed),
      ll_str_keys = (alist_dash :: ((string, unit) alist_map, string, unit) dash_lib),
      ll_ip_keys = (alist_dash :: ((ip_addr, unit) alist_map, ip_addr, unit) dash_lib),
      ll_regex_new = (Inr :: string list \<Rightarrow> string + string list),
      ll_regex_match = (\<lambda>r s. s \<in> set r)\<rparr>"

definition example_rate_config :: rate_limit_config where
  "example_rate_config = default_rate_limit_config
     \<lparr>rl_max_keys := 1, rl_origin := \<lparr>ol_rps = 0, ol_burst = 0, ol_unlimited_patterns = []\<rparr>,
      rl_ip := \<lparr>il_rps = 1, il_burst = 1, il_trusted_cidrs = []\<rparr>,
      rl_target_host := \<lparr>hl_rps = 0, hl_burst = 0\<rparr>, rl_global := \<lparr>gl_rps = 0, gl_burst = 0\<rparr>\<rparr>"

lemmas rate_eval =
  example_bucket_def gov_new_def gov_check_def example_limiters_def example_rate_config_def default_rate_limit_config_def
  rate_from_config_def build_origin_def build_ip_def build_host_def build_global_def quota_def

subsection \<open>Properties\<close>

text \<open>
  C27. The limiter admits a request exactly when every enabled dimension that does not exempt it has
  both room for its key (a known key, or a registry that is not full) and a token left in the key's
  bucket; a refusal is \<open>RateLimited\<close> and is attributed by one increment of the counter to the first
  refusing dimension in the order origin, ip, target host, global; and no registry ever outgrows
  \<open>max_keys\<close>.
\<close>

theorem rate_check_first_dimension:
  assumes "dash_map (ll_str_keys L)" "dash_map (ll_ip_keys L)" "rt_enabled lim"
    "rate_check N L now ctx lim = ((ms, r), lim')"
  shows "(case refusing N L now ctx lim of
        [] \<Rightarrow> r = Inr () \<and> ms = []
      | dimension # _ \<Rightarrow> r = Inl RateLimited \<and> ms = [rate_limited dimension]) \<and>
    (registries_bounded L lim \<longrightarrow> registries_bounded L lim')"
proof -
  define c1 where "c1 = check_origin_dim L now ctx lim"
  define c2 where "c2 = check_ip_dim N L now ctx (snd c1)"
  define c3 where "c3 = check_host_dim L now ctx (snd c2)"
  define c4 where "c4 = check_global_dim L now (snd c3)"
  note o = check_origin_dim [OF assms(1), where now = now and ctx = ctx and lim = lim, folded c1_def]
  note i = check_ip_dim [OF assms(2), where N = N and now = now and ctx = ctx and lim = "snd c1", folded c2_def]
  note h = check_host_dim [OF assms(1), where now = now and ctx = ctx and lim = "snd c2", folded c3_def]
  note g = check_global_dim [where L = L and now = now and lim = "snd c3", folded c4_def]
  note later = later_dimensions(1) [of "snd c1" lim]
    later_dimensions(2) [of "snd c2" lim]
    later_dimensions(3) [of "snd c3" lim]
  have run: "((ms, r), lim') = and_then (and_then (and_then c1 (check_ip_dim N L now ctx))
      (check_host_dim L now ctx)) (check_global_dim L now)"
    using assms(3,4) by (simp add: rate_check_def c1_def)
  consider (origin) "\<not> origin_admits L now ctx lim" "((ms, r), lim') = c1"
    | (ip) "origin_admits L now ctx lim" "\<not> ip_admits N L now ctx lim" "((ms, r), lim') = c2"
    | (host) "origin_admits L now ctx lim" "ip_admits N L now ctx lim"
        "\<not> host_admits L now ctx lim" "((ms, r), lim') = c3"
    | (global) "origin_admits L now ctx lim" "ip_admits N L now ctx lim"
        "host_admits L now ctx lim" "((ms, r), lim') = c4"
    using run o(1) i(1) h(1) later(1,2) o(3-6) i(3-5)
    by (auto simp: and_then_ok and_then_reject c2_def [symmetric] c3_def [symmetric] c4_def [symmetric]
        split: if_splits)
  then show ?thesis
  proof cases
    case origin
    then show ?thesis
      using o(1,2) by (auto simp: refusing_def reject_def dest!: sym [of _ c1])
  next
    case ip
    then show ?thesis
      using i(1,2) o(2-6) later by (auto simp: refusing_def reject_def dest!: sym [of _ c2])
  next
    case host
    then show ?thesis
      using h(1,2) i(2-5) o(2-6) later by (auto simp: refusing_def reject_def dest!: sym [of _ c3])
  next
    case global
    then show ?thesis
      using g h(2,3) i(2-5) o(2-6) later
      by (auto simp: refusing_def reject_def dest!: sym [of _ c4])
  qed
qed

lemma rate_check_first_dimension_witness:
  "\<exists>lim. rate_from_config example_limiters example_rate_config = Inr lim \<and>
     fst (rate_check plain_nets example_limiters 0
       \<lparr>rc_origin = None, rc_client_ip = V4 1, rc_target_host = None\<rparr> lim) = ([], Inr ())"
proof -
  let ?ctx = "\<lparr>rc_origin = None, rc_client_ip = V4 1, rc_target_host = None\<rparr>"
  obtain lim where lim: "rate_from_config example_limiters example_rate_config = Inr lim"
    by (simp add: rate_eval)
  then have on: "rt_enabled lim" by (auto simp: rate_eval)
  obtain ms r lim' where run: "rate_check plain_nets example_limiters 0 ?ctx lim = ((ms, r), lim')"
    by (metis prod.collapse)
  have "dash_map (ll_str_keys example_limiters)" "dash_map (ll_ip_keys example_limiters)"
    by (simp_all add: example_limiters_def alist.dash_map_axioms)
  moreover have "refusing plain_nets example_limiters 0 ?ctx lim = []"
    using lim by (auto simp: refusing_def origin_admits_def ip_admits_def host_admits_def
        global_admits_def admits_def rate_eval is_trusted_def dm_len_def alist_dash_eval)
  ultimately show ?thesis
    using rate_check_first_dimension [OF _ _ on run] lim run by simp
qed

text \<open>
  C28. However many requests register keys at once, interleaved operation by operation, the registry
  holds at most \<open>max_keys\<close> keys beside those whose own request has inserted them and not yet decided;
  so it is within \<open>max_keys\<close> whenever no request is between its insertion and its decision.
\<close>

theorem admission_bounded:
  assumes "dash_map D" "admission_reach D max_keys keys pcs"
  shows "dm_len D keys \<le> unat max_keys + card (undecided pcs \<inter> dom (dm_get D keys)) \<and>
    (undecided pcs = {} \<longrightarrow> dm_len D keys \<le> unat max_keys)"
  using registry_bound_reach [OF assms(2,1)] by (auto simp: registry_bound_def)

lemma admission_bounded_witness:
  "dm_len alist_dash (am_insert am_empty ''k'' ()) \<le>
     1 + card (undecided ((\<lambda>_ :: nat. Checking ''k'')(0 := Inserted ''k'')) \<inter>
       dom (dm_get alist_dash (am_insert am_empty ''k'' ())))"
proof -
  let ?pcs = "(\<lambda>_ :: nat. Checking ''k'')" and ?D = "alist_dash :: ((string, unit) alist_map, string, unit) dash_lib"
  note turn = admission_reach.turn [where D = ?D and max_keys = 1 and i = 0]
  have "admission_reach ?D 1 am_empty ?pcs"
    using admission_reach.start [of ?pcs ?D 1] by (simp add: alist_dash_def)
  then have "admission_reach ?D 1 am_empty (?pcs(0 := Vacant ''k''))"
    by (rule turn) (simp add: dm_contains_def alist_dash_eval)
  then have "admission_reach ?D 1 am_empty (?pcs(0 := Vacant ''k'', 0 := Room ''k''))"
    by (rule turn) (simp add: dm_len_def alist_dash_eval)
  then have "admission_reach ?D 1 (am_insert am_empty ''k'' ())
      (?pcs(0 := Vacant ''k'', 0 := Room ''k'', 0 := Inserted ''k''))"
    by (rule turn) (simp add: alist_dash_def)
  from admission_bounded [OF alist.dash_map_axioms this] show ?thesis by simp
qed

end
