(* ===== verification/Server_State.thy ===== *)
theory Server_State
  imports Validate Header_Filter Origin_Guard Rate_Limit Upstream
begin

text \<open>
  The assembled server: \<open>corx-server/src/state.rs\<close> and the guard it bundles
  (\<open>middleware/request_guard.rs\<close>). The snapshot of policies that requests read is a record; the
  counters and tables a snapshot shares with its clones (\<open>Arc\<close>) are its fields.
\<close>

subsection \<open>The request guard\<close>

record ('gs, 'gi, 'gd, 'ms, 'mi, 'r) request_guard =
  rg_origin :: origin_policy
  rg_rate_limit :: "('gs, 'gi, 'gd, 'ms, 'mi, 'r) rate_limiter"

definition check_origin ::
  "'h header_lib \<Rightarrow> ('gs, 'gi, 'gd, 'ms, 'mi, 'r) request_guard \<Rightarrow> 'h request \<Rightarrow> unit res" where
  "check_origin H guard request =
     origin_evaluate H (rg_origin guard) (rq_method request) (rq_headers request)"

definition check_rate ::
  "'h header_lib \<Rightarrow> net_lib \<Rightarrow> ('gs, 'gi, 'gd, 'ms, 'mi, 'r) limiter_lib \<Rightarrow> instant \<Rightarrow> 'h request \<Rightarrow>
     ip_addr \<Rightarrow> string option \<Rightarrow> ('gs, 'gi, 'gd, 'ms, 'mi, 'r) request_guard \<Rightarrow>
     ('gs, 'gi, 'gd, 'ms, 'mi, 'r) request_guard checked" where
  "check_rate H N L now request client_ip target_host guard =
     (let org = Option.bind (hm_get H (rq_headers request) ORIGIN) (hv_to_str H);
          ctx = \<lparr>rc_origin = org, rc_client_ip = client_ip, rc_target_host = target_host\<rparr>
      in case rate_check N L now ctx (rg_rate_limit guard) of
           (r, lim) \<Rightarrow> (r, guard\<lparr>rg_rate_limit := lim\<rparr>))"

subsection \<open>Policies\<close>

record ('m, 'gs, 'gi, 'gd, 'ms, 'mi, 'r) live_policies =
  lp_config :: config
  lp_cors :: cors_policy
  lp_request_filter :: header_filter
  lp_response_filter :: header_filter
  lp_guard :: "('gs, 'gi, 'gd, 'ms, 'mi, 'r) request_guard"
  lp_target_policy :: target_policy
  lp_circuit :: "'m circuit_breaker"
  lp_upstream :: upstream

definition upstream_config_eq :: "config \<Rightarrow> config \<Rightarrow> bool" where
  "upstream_config_eq a b \<longleftrightarrow>
     cf_ssrf a = cf_ssrf b \<and> cf_target a = cf_target b \<and> cf_upstream a = cf_upstream b \<and>
     lm_connect_timeout (cf_limits a) = lm_connect_timeout (cf_limits b) \<and>
     lm_max_redirects (cf_limits a) = lm_max_redirects (cf_limits b) \<and>
     lm_allow_https_to_http_downgrade (cf_limits a) = lm_allow_https_to_http_downgrade (cf_limits b) \<and>
     lm_redirect_policy (cf_limits a) = lm_redirect_policy (cf_limits b)"

definition client_config_of :: "config \<Rightarrow> client_config" where
  "client_config_of cfg =
     \<lparr>cl_pool_max_idle_per_host = up_pool_max_idle_per_host (cf_upstream cfg),
      cl_pool_idle_timeout = up_pool_idle_timeout (cf_upstream cfg),
      cl_connect_timeout = lm_connect_timeout (cf_limits cfg),
      cl_max_redirects = lm_max_redirects (cf_limits cfg),
      cl_allow_https_to_http_downgrade = lm_allow_https_to_http_downgrade (cf_limits cfg),
      cl_redirect_policy = lm_redirect_policy (cf_limits cfg),
      cl_user_agent = up_user_agent (cf_upstream cfg)\<rparr>"

text \<open>\<open>map_err(|err| anyhow!("context: {err}"))\<close>.\<close>

definition context_err :: "string \<Rightarrow> string + 'a \<Rightarrow> string + 'a" where
  "context_err ctx r = (case r of Inl err \<Rightarrow> Inl (ctx @ '': '' @ err) | Inr x \<Rightarrow> Inr x)"

definition build_from ::
  "'h header_lib \<Rightarrow> net_lib \<Rightarrow> 'm hosts_lib \<Rightarrow> ('gs, 'gi, 'gd, 'ms, 'mi, 'r) limiter_lib \<Rightarrow>
     string + unit \<Rightarrow> config \<Rightarrow> ('m, 'gs, 'gi, 'gd, 'ms, 'mi, 'r) live_policies option \<Rightarrow>
     string + ('m, 'gs, 'gi, 'gd, 'ms, 'mi, 'r) live_policies" where
  "build_from H N D L tls_roots cfg previous =
     (let cors = cors_from_config H (cf_cors cfg)
      in bind_res (context_err ''security.remove_request_headers''
           (header_filter_try_new H (sc_remove_request_headers (cf_security cfg)))) (\<lambda>request_filter.
         bind_res (context_err ''security.remove_response_headers''
           (header_filter_try_new H (sc_remove_response_headers (cf_security cfg)))) (\<lambda>response_filter.
         let target_policy = target_from_config (cf_target cfg)
         in bind_res
              (case previous of
                 Some prev \<Rightarrow>
                   if cf_rate_limit (lp_config prev) = cf_rate_limit cfg
                   then Inr (rg_rate_limit (lp_guard prev))
                   else rate_from_config L (cf_rate_limit cfg)
               | None \<Rightarrow> rate_from_config L (cf_rate_limit cfg)) (\<lambda>rate_limiter.
            let guard = \<lparr>rg_origin = origin_from_config H (cf_security cfg),
                         rg_rate_limit = rate_limiter\<rparr>;
                circuit =
                  (case previous of
                     Some prev \<Rightarrow>
                       if cf_circuit_breaker (lp_config prev) = cf_circuit_breaker cfg
                       then lp_circuit prev
                       else circuit_from_config D (cf_circuit_breaker cfg)
                   | None \<Rightarrow> circuit_from_config D (cf_circuit_breaker cfg));
                fresh_upstream =
                  (case upstream_new tls_roots (client_config_of cfg) (ssrf_new N (cf_ssrf cfg))
                          target_policy of
                     Inl err \<Rightarrow> Inl (''upstream client: '' @ display_error err)
                   | Inr u \<Rightarrow> Inr u)
            in bind_res
                 (case previous of
                    Some prev \<Rightarrow>
                      if upstream_config_eq (lp_config prev) cfg then Inr (lp_upstream prev)
                      else fresh_upstream
                  | None \<Rightarrow> fresh_upstream) (\<lambda>upstream.
               Inr \<lparr>lp_config = cfg, lp_cors = cors, lp_request_filter = request_filter,
                    lp_response_filter = response_filter, lp_guard = guard,
                    lp_target_policy = target_policy, lp_circuit = circuit,
                    lp_upstream = upstream\<rparr>)))))"

definition build_policies ::
  "'h header_lib \<Rightarrow> net_lib \<Rightarrow> 'm hosts_lib \<Rightarrow> ('gs, 'gi, 'gd, 'ms, 'mi, 'r) limiter_lib \<Rightarrow>
     string + unit \<Rightarrow> config \<Rightarrow> string + ('m, 'gs, 'gi, 'gd, 'ms, 'mi, 'r) live_policies" where
  "build_policies H N D L tls_roots cfg = build_from H N D L tls_roots cfg None"

subsection \<open>The server\<close>

record ('m, 'gs, 'gi, 'gd, 'ms, 'mi, 'r) server_build =
  sb_policies :: "('m, 'gs, 'gi, 'gd, 'ms, 'mi, 'r) live_policies"
  sb_inflight :: u64
  sb_ready :: bool
  sb_immutable_server :: server_config
  sb_immutable_limits :: limits_config
  sb_immutable_metrics_endpoint :: string

definition server_from_config ::
  "'h header_lib \<Rightarrow> net_lib \<Rightarrow> 'm hosts_lib \<Rightarrow> ('gs, 'gi, 'gd, 'ms, 'mi, 'r) limiter_lib \<Rightarrow>
     string + unit \<Rightarrow> config \<Rightarrow> string + ('m, 'gs, 'gi, 'gd, 'ms, 'mi, 'r) server_build" where
  "server_from_config H N D L tls_roots cfg =
     bind_res (build_policies H N D L tls_roots cfg) (\<lambda>policies.
       Inr \<lparr>sb_policies = policies, sb_inflight = 0, sb_ready = True,
            sb_immutable_server = cf_server cfg, sb_immutable_limits = cf_limits cfg,
            sb_immutable_metrics_endpoint = ob_metrics_endpoint (cf_observability cfg)\<rparr>)"

subsection \<open>A snapshot says what its configuration says\<close>

text \<open>
  The part of each component that its configuration determines; the tables and budgets that
  requests change are left out.
\<close>

definition circuit_settings :: "'m circuit_breaker \<Rightarrow> bool \<times> u32 \<times> duration \<times> duration \<times> u32 \<times> bool \<times> usize" where
  "circuit_settings cb =
     (br_enabled cb, br_failure_threshold cb, br_window cb, br_open_duration cb,
      br_half_open_max cb, br_count_5xx cb, br_max_hosts cb)"

definition limiter_settings ::
  "('gs, 'gi, 'gd, 'ms, 'mi, 'r) rate_limiter \<Rightarrow>
     bool \<times> usize \<times> ((u32 \<times> u32) \<times> 'r) option \<times> ((u32 \<times> u32) \<times> ip_net list) option \<times>
     (u32 \<times> u32) option \<times> (u32 \<times> u32) option" where
  "limiter_settings lim =
     (rt_enabled lim, rt_max_keys lim,
      map_option (\<lambda>d. (gv_quota (od_limiter d), od_unlimited d)) (rt_origin lim),
      map_option (\<lambda>d. (gv_quota (id_limiter d), id_trusted d)) (rt_ip lim),
      map_option (\<lambda>d. gv_quota (hd_limiter d)) (rt_host lim), map_option gv_quota (rt_global lim))"

definition limiter_as_configured ::
  "('gs, 'gi, 'gd, 'ms, 'mi, 'r) limiter_lib \<Rightarrow> rate_limit_config \<Rightarrow>
     ('gs, 'gi, 'gd, 'ms, 'mi, 'r) rate_limiter \<Rightarrow> bool" where
  "limiter_as_configured L cfg lim \<longleftrightarrow>
     (\<exists>fresh. rate_from_config L cfg = Inr fresh \<and> limiter_settings lim = limiter_settings fresh)"

definition as_configured ::
  "'h header_lib \<Rightarrow> net_lib \<Rightarrow> 'm hosts_lib \<Rightarrow> ('gs, 'gi, 'gd, 'ms, 'mi, 'r) limiter_lib \<Rightarrow>
     ('m, 'gs, 'gi, 'gd, 'ms, 'mi, 'r) live_policies \<Rightarrow> bool" where
  "as_configured H N D L p \<longleftrightarrow>
     (let cfg = lp_config p in
        lp_cors p = cors_from_config H (cf_cors cfg) \<and>
        header_filter_try_new H (sc_remove_request_headers (cf_security cfg)) = Inr (lp_request_filter p) \<and>
        header_filter_try_new H (sc_remove_response_headers (cf_security cfg)) = Inr (lp_response_filter p) \<and>
        rg_origin (lp_guard p) = origin_from_config H (cf_security cfg) \<and>
        limiter_as_configured L (cf_rate_limit cfg) (rg_rate_limit (lp_guard p)) \<and>
        lp_target_policy p = target_from_config (cf_target cfg) \<and>
        circuit_settings (lp_circuit p) = circuit_settings (circuit_from_config D (cf_circuit_breaker cfg)) \<and>
        ups_guard (lp_upstream p) = ssrf_new N (cf_ssrf cfg) \<and>
        ups_config (lp_upstream p) = client_config_of cfg \<and>
        ups_target_policy (lp_upstream p) = target_from_config (cf_target cfg))"

lemma context_err_Inr: "context_err ctx r = Inr x \<longleftrightarrow> r = Inr x"
  by (cases r) (simp_all add: context_err_def)

lemma build_from_InrD:
  assumes "build_from H N D L tls_roots cfg previous = Inr p"
  shows "lp_config p = cfg" "lp_cors p = cors_from_config H (cf_cors cfg)"
    "header_filter_try_new H (sc_remove_request_headers (cf_security cfg)) = Inr (lp_request_filter p)"
    "header_filter_try_new H (sc_remove_response_headers (cf_security cfg)) = Inr (lp_response_filter p)"
    "rg_origin (lp_guard p) = origin_from_config H (cf_security cfg)"
    "lp_target_policy p = target_from_config (cf_target cfg)"
    "Inr (rg_rate_limit (lp_guard p)) =
       (case previous of
          Some prev \<Rightarrow>
            if cf_rate_limit (lp_config prev) = cf_rate_limit cfg
            then Inr (rg_rate_limit (lp_guard prev)) else rate_from_config L (cf_rate_limit cfg)
        | None \<Rightarrow> rate_from_config L (cf_rate_limit cfg))"
    "lp_circuit p =
       (case previous of
          Some prev \<Rightarrow>
            if cf_circuit_breaker (lp_config prev) = cf_circuit_breaker cfg then lp_circuit prev
            else circuit_from_config D (cf_circuit_breaker cfg)
        | None \<Rightarrow> circuit_from_config D (cf_circuit_breaker cfg))"
    "lp_upstream p =
       (case previous of
          Some prev \<Rightarrow>
            if upstream_config_eq (lp_config prev) cfg then lp_upstream prev
            else \<lparr>ups_guard = ssrf_new N (cf_ssrf cfg), ups_config = client_config_of cfg,
                  ups_target_policy = target_from_config (cf_target cfg)\<rparr>
        | None \<Rightarrow> \<lparr>ups_guard = ssrf_new N (cf_ssrf cfg), ups_config = client_config_of cfg,
                  ups_target_policy = target_from_config (cf_target cfg)\<rparr>)"
  using assms
  by (auto simp: build_from_def Let_def bind_res_eq_Inr context_err_Inr upstream_new_def
      split: option.splits if_splits sum.splits)

lemma limiter_as_configured_retained:
  assumes "case previous of None \<Rightarrow> True | Some prev \<Rightarrow> as_configured H N D L prev"
    "build_from H N D L tls_roots cfg previous = Inr p"
  shows "limiter_as_configured L (cf_rate_limit cfg) (rg_rate_limit (lp_guard p))"
  using assms(1) build_from_InrD(7) [OF assms(2)]
  by (auto simp: limiter_as_configured_def as_configured_def Let_def
      dest!: sym [of "Inr (rg_rate_limit (lp_guard p))"] split: option.splits if_splits)

lemma build_from_as_configured:
  assumes "case previous of None \<Rightarrow> True | Some prev \<Rightarrow> as_configured H N D L prev"
    "build_from H N D L tls_roots cfg previous = Inr p"
  shows "as_configured H N D L p"
proof -
  note b = build_from_InrD [OF assms(2)]
  have "circuit_settings (lp_circuit p) = circuit_settings (circuit_from_config D (cf_circuit_breaker cfg))"
    using assms(1) b(8) by (auto simp: as_configured_def Let_def split: option.splits if_splits)
  moreover have "ups_guard (lp_upstream p) = ssrf_new N (cf_ssrf cfg) \<and>
      ups_config (lp_upstream p) = client_config_of cfg \<and>
      ups_target_policy (lp_upstream p) = target_from_config (cf_target cfg)"
    using assms(1) b(9)
    by (auto simp: as_configured_def Let_def upstream_config_eq_def client_config_of_def
        split: option.splits if_splits)
  ultimately show ?thesis
    using b(1-6) limiter_as_configured_retained [OF assms] by (simp add: as_configured_def Let_def)
qed

subsection \<open>Properties\<close>


text \<open>The server of the built-in configuration.\<close>

definition example_policies where
  "example_policies =
     build_policies list_headers plain_nets (alist_dash :: ((string, host_circuit) alist_map) hosts_lib)
       example_limiters (Inr ()) default_config"

lemma default_filters:
  "header_filter_try_new list_headers [''cookie'', ''cookie2''] = Inr \<lparr>hf_extra_deny = [''cookie'', ''cookie2'']\<rparr>"
  "header_filter_try_new list_headers [''set-cookie'', ''set-cookie2''] =
     Inr \<lparr>hf_extra_deny = [''set-cookie'', ''set-cookie2'']\<rparr>"
  by (simp_all add: header_filter_try_new_def list_headers_eval)

lemma default_limiter: "\<exists>lim. rate_from_config example_limiters default_rate_limit_config = Inr lim"
  by (simp add: rate_eval max_def)

lemma example_policies_Inr: "\<exists>p. example_policies = Inr p"
  using default_limiter
  by (auto simp: example_policies_def build_policies_def build_from_def Let_def default_config_def
      default_security_config_def default_filters context_err_def upstream_new_def)


end
