(* ===== verification/Server_Error.thy ===== *)
theory Server_Error
  imports Telemetry
begin

text \<open>
  Responses the server makes itself: \<open>corx-server/src/error.rs\<close> and the operational endpoints of
  \<open>corx-server/src/handlers/ops.rs\<close>. A body made of one text is one data frame; the JSON texts are
  those of \<open>serde_json\<close> for flat objects of plain strings.
\<close>

subsection \<open>Response parts\<close>

definition CONTENT_TYPE :: header_name where "CONTENT_TYPE = ''content-type''"
definition STATUS_HEADER :: header_name where "STATUS_HEADER = ''x-corx-status''"

definition full_body :: "string \<Rightarrow> body" where
  "full_body text = (if text = [] then [] else [ReadyFrame (Data text)])"

text \<open>\<open>(status, [(CONTENT_TYPE, t)], text).into_response()\<close> and \<open>(status, Json(v)).into_response()\<close>.\<close>

definition typed_response :: "'h header_lib \<Rightarrow> status_code \<Rightarrow> string \<Rightarrow> string \<Rightarrow> 'h response" where
  "typed_response H status content_type text =
     \<lparr>rs_status = status, rs_headers = hm_insert H (hm_new H) CONTENT_TYPE content_type,
      rs_body = full_body text\<rparr>"

definition text_response :: "'h header_lib \<Rightarrow> status_code \<Rightarrow> string \<Rightarrow> 'h response" where
  "text_response H status text = typed_response H status ''text/plain; charset=utf-8'' text"

definition json_object :: "(string \<times> string) list \<Rightarrow> string" where
  "json_object members =
     ''{'' @ join '','' (map (\<lambda>(k, v). ''\"'' @ k @ ''\":\"'' @ v @ ''\"'') members) @ ''}''"

definition json_response :: "'h header_lib \<Rightarrow> status_code \<Rightarrow> (string \<times> string) list \<Rightarrow> 'h response" where
  "json_response H status members = typed_response H status ''application/json'' (json_object members)"

subsection \<open>Errors\<close>

text \<open>A \<open>ServerError\<close> is the engine error it wraps.\<close>

definition server_error_kind :: "proxy_error \<Rightarrow> error_kind" where
  "server_error_kind e = error_kind_of e"

definition into_response :: "'h header_lib \<Rightarrow> proxy_error \<Rightarrow> 'h response" where
  "into_response H e =
     (let (status, payload) = to_payload e;
          response = json_response H status
            [(''error'', ep_error payload), (''message'', ep_message payload)]
      in case hv_from_str H (kind_as_str (error_kind_of e)) of
           Some v \<Rightarrow> response\<lparr>rs_headers := hm_insert H (rs_headers response) STATUS_HEADER v\<rparr>
         | None \<Rightarrow> response)"

subsection \<open>Operational endpoints\<close>

definition newline :: string where
  "newline = [CHR 0x0A]"

definition USAGE_TEXT :: string where
  "USAGE_TEXT =
     ''corx '' @ [CHR 0xE2, CHR 0x80, CHR 0x94] @ '' a CORS forwarding proxy'' @ newline @ newline @
     ''Usage:'' @ newline @
     ''    GET /https://target.example.com/path'' @ newline @
     ''    GET /target.example.com/path'' @ newline @
     ''    GET /?url=<percent-encoded-url>'' @ newline @ newline @
     ''Operational endpoints:'' @ newline @
     ''    GET /healthz           liveness probe'' @ newline @
     ''    GET /iscorsneeded      cors-anywhere compatibility shim'' @ newline @
     ''    GET /metrics           Prometheus exposition'' @ newline"

definition usage :: "'h header_lib \<Rightarrow> 'h response" where
  "usage H = typed_response H 200 ''text/plain; charset=utf-8'' USAGE_TEXT"

definition livez :: "'h header_lib \<Rightarrow> 'h response" where
  "livez H = text_response H 200 ''live''"

definition readyz :: "'h header_lib \<Rightarrow> bool \<Rightarrow> 'h response" where
  "readyz H ready =
     (if ready then json_response H 200 [(''status'', ''ready'')]
      else json_response H 503
             [(''reason'', ''shutdown signal received''), (''status'', ''draining'')])"

definition healthz :: "'h header_lib \<Rightarrow> bool \<Rightarrow> 'h response" where
  "healthz H ready = readyz H ready"

definition is_cors_needed :: "'h header_lib \<Rightarrow> 'h response" where
  "is_cors_needed H = typed_response H 200 ''text/plain; charset=utf-8'' ''no''"

text \<open>The exposition text is rendered by the metrics recorder.\<close>

definition prometheus_metrics :: "'h header_lib \<Rightarrow> string \<Rightarrow> 'h response" where
  "prometheus_metrics H rendered =
     typed_response H 200 ''text/plain; version=0.0.4; charset=utf-8'' rendered"

definition not_found :: "'h header_lib \<Rightarrow> 'h response" where
  "not_found H =
     json_response H 404 [(''error'', ''not_found''), (''message'', ''resource not found'')]"

subsection \<open>An error response\<close>

lemma kind_as_str_visible: "visible (kind_as_str k)"
  by (cases k) (simp_all add: visible_byte_def)

context header_map begin

lemma into_response_parts:
  "rs_status (into_response H e) = kind_status (error_kind_of e)"
  "hm_get_all H (rs_headers (into_response H e)) n =
     (if n = STATUS_HEADER then [kind_as_str (error_kind_of e)]
      else if n = CONTENT_TYPE then [''application/json''] else [])"
  using from_str_visible [OF kind_as_str_visible, of "error_kind_of e"]
  by (auto simp: into_response_def to_payload_def Let_def json_response_def typed_response_def
      hm_simps)

end

end
