(* ===== verification/Load_Shed.thy ===== *)
theory Load_Shed
  imports Server_State Server_Error
begin

text \<open>
  \<open>corx-server/src/middleware/load_shed.rs\<close>: the cap on requests in flight. The layer is a function
  of the service behind it; below it, the counter is run by several requests at once, one atomic
  operation at a time.
\<close>

subsection \<open>The layer\<close>

text \<open>
  A service answers metrics, the trace of what it did to the outside, the response (or that its
  future was dropped), and the world and server after it.
\<close>

type_synonym ('h, 'w, 'b) service =
  "'h request \<Rightarrow> 'w \<Rightarrow> 'b \<Rightarrow> metric list \<times> 'h hop_event list \<times> 'h response awaited \<times> 'w \<times> 'b"

definition RETRY_AFTER :: header_name where "RETRY_AFTER = ''retry-after''"

definition shed_response :: "'h header_lib \<Rightarrow> 'h response" where
  "shed_response H =
     (let response = text_response H 503 ''load shed: inflight cap reached''
      in response\<lparr>rs_headers := hm_insert H (rs_headers response) RETRY_AFTER ''1''\<rparr>)"

definition permit_drop ::
  "('m, 'gs, 'gi, 'gd, 'ms, 'mi, 'r) server_build \<Rightarrow> ('m, 'gs, 'gi, 'gd, 'ms, 'mi, 'r) server_build" where
  "permit_drop b = b\<lparr>sb_inflight := sb_inflight b - 1\<rparr>"

definition load_shed_layer ::
  "'h header_lib \<Rightarrow> ('h, 'w, ('m, 'gs, 'gi, 'gd, 'ms, 'mi, 'r) server_build) service \<Rightarrow>
     ('h, 'w, ('m, 'gs, 'gi, 'gd, 'ms, 'mi, 'r) server_build) service" where
  "load_shed_layer H next_service request w b =
     (let max_inflight = (ucast (lm_inflight_max (sb_immutable_limits b)) :: u64)
      in if max_inflight = 0 then next_service request w b
         else
           (let prev = sb_inflight b; b = b\<lparr>sb_inflight := prev + 1\<rparr>
            in if max_inflight \<le> prev then
                 ([rate_limited ''inflight''], [], Ready (shed_response H), w,
                  b\<lparr>sb_inflight := sb_inflight b - 1\<rparr>)
               else
                 (case next_service request w b of
                    (ms, ev, r, w, b) \<Rightarrow> (ms, ev, r, w, permit_drop b))))"

subsection \<open>Several requests at once\<close>

text \<open>
  Where a request is: outside the layer, counted but refused (before its decrement), or inside with
  a permit, whose drop is the last step whether the request returns, panics or is cancelled.
\<close>

datatype slot = Outside | Refused | Permitted

inductive shed_reach :: "nat \<Rightarrow> u64 \<Rightarrow> u64 \<Rightarrow> (nat \<Rightarrow> slot) \<Rightarrow> bool"
  for n max_inflight where
  start: "shed_reach n max_inflight 0 (\<lambda>_. Outside)"
| fetch_add: "shed_reach n max_inflight counter slots \<Longrightarrow> i < n \<Longrightarrow> slots i = Outside \<Longrightarrow>
     shed_reach n max_inflight (counter + 1)
       (slots(i := if max_inflight \<le> counter then Refused else Permitted))"
| refuse: "shed_reach n max_inflight counter slots \<Longrightarrow> slots i = Refused \<Longrightarrow>
     shed_reach n max_inflight (counter - 1) (slots(i := Outside))"
| drop_permit: "shed_reach n max_inflight counter slots \<Longrightarrow> slots i = Permitted \<Longrightarrow>
     shed_reach n max_inflight (counter - 1) (slots(i := Outside))"

definition counted :: "(nat \<Rightarrow> slot) \<Rightarrow> nat set" where
  "counted slots = {i. slots i \<noteq> Outside}"

definition permitted :: "(nat \<Rightarrow> slot) \<Rightarrow> nat set" where
  "permitted slots = {i. slots i = Permitted}"

definition shed_invariant :: "nat \<Rightarrow> u64 \<Rightarrow> u64 \<Rightarrow> (nat \<Rightarrow> slot) \<Rightarrow> bool" where
  "shed_invariant n max_inflight counter slots \<longleftrightarrow>
     counted slots \<subseteq> {..<n} \<and> counter = of_nat (card (counted slots)) \<and>
     card (permitted slots) \<le> unat max_inflight"

lemma permitted_counted: "permitted slots \<subseteq> counted slots"
  by (auto simp: permitted_def counted_def)

lemma counted_finite: "shed_invariant n max_inflight counter slots \<Longrightarrow> finite (counted slots)"
  by (auto simp: shed_invariant_def intro: finite_subset)

lemma counter_exact:
  assumes "shed_invariant n max_inflight counter slots" "n < 2 ^ 64"
  shows "unat counter = card (counted slots)"
proof -
  have "card (counted slots) \<le> card {..<n}"
    using assms(1) by (intro card_mono) (auto simp: shed_invariant_def)
  with assms show ?thesis by (simp add: shed_invariant_def unat_of_nat)
qed

lemma shed_enter:
  assumes "shed_invariant n max_inflight counter slots" "n < 2 ^ 64" "i < n" "slots i = Outside"
  shows "shed_invariant n max_inflight (counter + 1)
    (slots(i := if max_inflight \<le> counter then Refused else Permitted))"
proof -
  let ?slots = "slots(i := if max_inflight \<le> counter then Refused else Permitted)"
  have fin: "finite (counted slots)" by (rule counted_finite [OF assms(1)])
  then have finp: "finite (permitted slots)" using permitted_counted finite_subset by blast
  have i: "i \<notin> counted slots" "i \<notin> permitted slots" using assms(4) by (auto simp: counted_def permitted_def)
  have c: "counted ?slots = insert i (counted slots)" by (auto simp: counted_def)
  have "card (permitted ?slots) \<le> unat max_inflight"
  proof (cases "max_inflight \<le> counter")
    case True
    then have "permitted ?slots = permitted slots" using i by (auto simp: permitted_def)
    with assms(1) show ?thesis by (simp add: shed_invariant_def)
  next
    case False
    then have "permitted ?slots = insert i (permitted slots)" by (auto simp: permitted_def)
    moreover have "card (permitted slots) \<le> card (counted slots)"
      using fin permitted_counted by (rule card_mono)
    moreover have "card (counted slots) < unat max_inflight"
      using False counter_exact [OF assms(1,2)] by (simp add: word_le_nat_alt)
    ultimately show ?thesis using i finp by simp
  qed
  moreover have "counter + 1 = of_nat (card (counted ?slots))"
    using assms(1) c fin i by (simp add: shed_invariant_def)
  ultimately show ?thesis
    using assms(1,3) c by (auto simp: shed_invariant_def)
qed

lemma shed_leave:
  assumes "shed_invariant n max_inflight counter slots" "slots i \<noteq> Outside"
  shows "shed_invariant n max_inflight (counter - 1) (slots(i := Outside))"
proof -
  have fin: "finite (counted slots)" by (rule counted_finite [OF assms(1)])
  have i: "i \<in> counted slots" using assms(2) by (simp add: counted_def)
  have c: "counted (slots(i := Outside)) = counted slots - {i}" by (auto simp: counted_def)
  have "0 < card (counted slots)" using fin i by (auto simp: card_gt_0_iff)
  then have "counter - 1 = of_nat (card (counted slots - {i}))"
    using assms(1) fin i by (simp add: shed_invariant_def card_Diff_singleton of_nat_diff)
  moreover have "card (permitted (slots(i := Outside))) \<le> card (permitted slots)"
    using finite_subset [OF permitted_counted fin] by (intro card_mono) (auto simp: permitted_def)
  ultimately show ?thesis
    using assms(1) c by (auto simp: shed_invariant_def)
qed

lemma shed_reach_invariant:
  "shed_reach n max_inflight counter slots \<Longrightarrow> n < 2 ^ 64 \<Longrightarrow>
     shed_invariant n max_inflight counter slots"
proof (induction rule: shed_reach.induct)
  case start
  then show ?case by (simp add: shed_invariant_def counted_def permitted_def)
next
  case (fetch_add counter slots i)
  then show ?case by (blast intro: shed_enter)
next
  case (refuse counter slots i)
  then show ?case by (intro shed_leave) auto
next
  case (drop_permit counter slots i)
  then show ?case by (intro shed_leave) auto
qed

subsection \<open>Properties\<close>

text \<open>
  However the requests interleave, at most \<open>inflight_max\<close> of them hold a permit, the counter is
  exactly the number of requests it counts (no slot leaks: with none left it is 0 again), and a
  request that arrives while fewer than \<open>inflight_max\<close> are counted gets a permit.
\<close>

theorem load_shed_bounds_inflight:
  assumes "shed_reach n max_inflight counter slots" "n < 2 ^ 64"
  shows "card (permitted slots) \<le> unat max_inflight \<and> unat counter = card (counted slots) \<and>
    (counted slots = {} \<longrightarrow> counter = 0) \<and>
    (i < n \<and> slots i = Outside \<and> card (counted slots) < unat max_inflight \<longrightarrow>
       shed_reach n max_inflight (counter + 1) (slots(i := Permitted)))"
proof -
  note inv = shed_reach_invariant [OF assms]
  note exact = counter_exact [OF inv assms(2)]
  have "shed_reach n max_inflight (counter + 1) (slots(i := Permitted))"
    if "i < n" "slots i = Outside" "card (counted slots) < unat max_inflight"
  proof -
    have "\<not> max_inflight \<le> counter" using that(3) exact by (simp add: word_le_nat_alt)
    with shed_reach.fetch_add [OF assms(1) that(1,2)] show ?thesis by simp
  qed
  with inv exact show ?thesis by (auto simp: shed_invariant_def)
qed

lemma load_shed_bounds_inflight_witness:
  "card (permitted ((\<lambda>_. Outside)(0 := Permitted, 1 := Refused))) \<le> 1"
proof -
  have "shed_reach 2 1 (0 + 1 + 1) ((\<lambda>_. Outside)(0 := if (1 :: u64) \<le> 0 then Refused else Permitted,
      1 := if (1 :: u64) \<le> 0 + 1 then Refused else Permitted))"
    by (intro shed_reach.fetch_add shed_reach.start) auto
  from load_shed_bounds_inflight [OF this, of 0] show ?thesis by simp
qed

end
