(* ===== verification/Hot_Reload.thy ===== *)
theory Hot_Reload
  imports Server_State
begin

text \<open>
  Loading and reloading the configuration: \<open>corx-server/src/config_loader.rs\<close> and
  \<open>corx-server/src/hot_reload.rs\<close>. The merge of defaults, file and environment (crate \<open>figment\<close>)
  and the file system are the parameter \<open>S\<close>; each reload sees the \<open>S\<close> of its moment.
\<close>

subsection \<open>The loader\<close>

text \<open>
  \<open>cs_extract\<close> merges the defaults, the TOML file of the path, if any, and the \<open>CORX_\<close> variables.
\<close>

record config_sources =
  cs_env_config :: "string option"
  cs_is_file :: "string \<Rightarrow> bool"
  cs_extract :: "string option \<Rightarrow> string + config"

definition discover_config_path :: "config_sources \<Rightarrow> string option" where
  "discover_config_path S =
     (case cs_env_config S of
        Some from_env \<Rightarrow>
          if from_env \<noteq> [] then Some from_env
          else find (cs_is_file S) [''corx.toml'', ''/etc/corx/config.toml'']
      | None \<Rightarrow> find (cs_is_file S) [''corx.toml'', ''/etc/corx/config.toml''])"

definition load_raw :: "config_sources \<Rightarrow> string option \<Rightarrow> string + config" where
  "load_raw S override_path =
     cs_extract S
       (case override_path of
          Some path \<Rightarrow> Some path
        | None \<Rightarrow> discover_config_path S)"

definition load :: "config_sources \<Rightarrow> string option \<Rightarrow> string + config" where
  "load S override_path =
     bind_res (load_raw S override_path) (\<lambda>cfg.
       case vr_errors (validate_full (cs_is_file S) cfg) of
         err # _ \<Rightarrow> Inl (display_config_error err)
       | [] \<Rightarrow> Inr cfg)"

subsection \<open>The reload handle\<close>

record reload_handle =
  rh_server :: server_config
  rh_metrics_endpoint :: string
  rh_max_body_bytes :: u64
  rh_max_request_header_bytes :: u32
  rh_request_timeout :: duration
  rh_inflight_max :: u32
  rh_max_response_body_bytes :: u64

definition hot_reload :: "('m, 'gs, 'gi, 'gd, 'ms, 'mi, 'r) server_build \<Rightarrow> reload_handle" where
  "hot_reload b =
     \<lparr>rh_server = sb_immutable_server b,
      rh_metrics_endpoint = sb_immutable_metrics_endpoint b,
      rh_max_body_bytes = lm_max_request_body_bytes (sb_immutable_limits b),
      rh_max_request_header_bytes = lm_max_request_header_bytes (sb_immutable_limits b),
      rh_request_timeout = lm_request_timeout (sb_immutable_limits b),
      rh_inflight_max = lm_inflight_max (sb_immutable_limits b),
      rh_max_response_body_bytes = lm_max_response_body_bytes (sb_immutable_limits b)\<rparr>"

definition tls_eq :: "tls_config option \<Rightarrow> tls_config option \<Rightarrow> bool" where
  "tls_eq a b \<longleftrightarrow>
     (case (a, b) of
        (None, None) \<Rightarrow> True
      | (Some x, Some y) \<Rightarrow>
          tls_cert_path x = tls_cert_path y \<and> tls_key_path x = tls_key_path y \<and>
          tls_client_ca_path x = tls_client_ca_path y \<and>
          tls_alpn_protocols x = tls_alpn_protocols y
      | _ \<Rightarrow> False)"

definition show_socket :: "socket_addr \<Rightarrow> string" where
  "show_socket a =
     (case a of
        (V4 v, port) \<Rightarrow> show_ipv4 v @ '':'' @ show_nat (unat port)
      | (V6 v, port) \<Rightarrow> ''['' @ show_ipv6 v @ '']:'' @ show_nat (unat port))"

definition frozen_field :: "string \<Rightarrow> string" where
  "frozen_field name = name @ '' cannot be changed by reload''"

definition assert_immutable :: "reload_handle \<Rightarrow> config \<Rightarrow> string + unit" where
  "assert_immutable h new =
     (let frozen = rh_server h; new_server = cf_server new; limits = cf_limits new
      in if sv_bind new_server \<noteq> sv_bind frozen then
           Inl (''server.bind cannot be changed by reload (was '' @ show_socket (sv_bind frozen) @
                '', requested '' @ show_socket (sv_bind new_server) @ '')'')
         else if sv_http2 new_server \<noteq> sv_http2 frozen then Inl (frozen_field ''server.http2'')
         else if \<not> tls_eq (sv_tls new_server) (sv_tls frozen) then Inl (frozen_field ''server.tls'')
         else if lm_max_request_body_bytes limits \<noteq> rh_max_body_bytes h then
           Inl (frozen_field ''limits.max_request_body_bytes'')
         else if lm_max_request_header_bytes limits \<noteq> rh_max_request_header_bytes h then
           Inl (frozen_field ''limits.max_request_header_bytes'')
         else if lm_request_timeout limits \<noteq> rh_request_timeout h then
           Inl (frozen_field ''limits.request_timeout'')
         else if lm_inflight_max limits \<noteq> rh_inflight_max h then
           Inl (frozen_field ''limits.inflight_max'')
         else if lm_max_response_body_bytes limits \<noteq> rh_max_response_body_bytes h then
           Inl (frozen_field ''limits.max_response_body_bytes'')
         else if ob_metrics_endpoint (cf_observability new) \<noteq> rh_metrics_endpoint h then
           Inl (frozen_field ''observability.metrics_endpoint'')
         else Inr ())"

text \<open>The new snapshot is stored only when every step succeeded.\<close>

definition reload ::
  "'h header_lib \<Rightarrow> net_lib \<Rightarrow> 'm hosts_lib \<Rightarrow> ('gs, 'gi, 'gd, 'ms, 'mi, 'r) limiter_lib \<Rightarrow>
     string + unit \<Rightarrow> config_sources \<Rightarrow> reload_handle \<Rightarrow> string option \<Rightarrow>
     ('m, 'gs, 'gi, 'gd, 'ms, 'mi, 'r) live_policies \<Rightarrow>
     (string + unit) \<times> ('m, 'gs, 'gi, 'gd, 'ms, 'mi, 'r) live_policies" where
  "reload H N D L tls_roots S h path current =
     (case load S path of
        Inl err \<Rightarrow> (Inl err, current)
      | Inr cfg \<Rightarrow>
          (case assert_immutable h cfg of
             Inl err \<Rightarrow> (Inl err, current)
           | Inr _ \<Rightarrow>
               (case build_from H N D L tls_roots cfg (Some current) of
                  Inl err \<Rightarrow> (Inl err, current)
                | Inr policies \<Rightarrow> (Inr (), policies))))"

subsection \<open>The watcher\<close>

definition config_reload :: "string \<Rightarrow> metric" where
  "config_reload result = Count CONFIG_RELOAD [(''result'', result)] 1"

definition reload_result :: "string + unit \<Rightarrow> string" where
  "reload_result r =
     (case r of
        Inr _ \<Rightarrow> ''ok''
      | Inl err \<Rightarrow> if contains_str ''cannot be changed by reload'' err then ''rejected'' else ''error'')"

text \<open>
  One signal; what requests do to the snapshot between two signals is the function that comes with
  the next one. The watcher ends when the signals do.
\<close>

type_synonym 's signal = "config_sources \<times> ('s \<Rightarrow> 's)"

fun watch_sighup ::
  "'h header_lib \<Rightarrow> net_lib \<Rightarrow> 'm hosts_lib \<Rightarrow> ('gs, 'gi, 'gd, 'ms, 'mi, 'r) limiter_lib \<Rightarrow>
     string + unit \<Rightarrow> reload_handle \<Rightarrow> string option \<Rightarrow>
     ('m, 'gs, 'gi, 'gd, 'ms, 'mi, 'r) live_policies signal list \<Rightarrow>
     ('m, 'gs, 'gi, 'gd, 'ms, 'mi, 'r) live_policies \<Rightarrow>
     metric list \<times> ('m, 'gs, 'gi, 'gd, 'ms, 'mi, 'r) live_policies" where
  "watch_sighup H N D L tls_roots h path [] current = ([], current)"
| "watch_sighup H N D L tls_roots h path ((S, serve) # signals) current =
     (case reload H N D L tls_roots S h path (serve current) of
        (r, current) \<Rightarrow>
          (case watch_sighup H N D L tls_roots h path signals current of
             (ms, current) \<Rightarrow> (config_reload (reload_result r) # ms, current)))"

subsection \<open>What a reload guarantees\<close>

definition frozen_fields where
  "frozen_fields cfg =
     (sv_bind (cf_server cfg), sv_http2 (cf_server cfg), sv_tls (cf_server cfg),
      lm_max_request_body_bytes (cf_limits cfg), lm_max_request_header_bytes (cf_limits cfg),
      lm_request_timeout (cf_limits cfg), lm_inflight_max (cf_limits cfg),
      lm_max_response_body_bytes (cf_limits cfg), ob_metrics_endpoint (cf_observability cfg))"

definition handle_fields where
  "handle_fields h =
     (sv_bind (rh_server h), sv_http2 (rh_server h), sv_tls (rh_server h), rh_max_body_bytes h,
      rh_max_request_header_bytes h, rh_request_timeout h, rh_inflight_max h,
      rh_max_response_body_bytes h, rh_metrics_endpoint h)"

lemma tls_eq_iff: "tls_eq a b \<longleftrightarrow> a = b"
  by (auto simp: tls_eq_def split: option.splits)

lemma assert_immutable_Inr: "assert_immutable h cfg = Inr () \<longleftrightarrow> frozen_fields cfg = handle_fields h"
  by (auto simp: assert_immutable_def Let_def frozen_fields_def handle_fields_def tls_eq_iff)

lemma contains_frozen_field: "contains_str ''cannot be changed by reload'' (frozen_field name)"
proof -
  have "frozen_field name = (name @ '' '') @ ''cannot be changed by reload'' @ []"
    by (simp add: frozen_field_def)
  then show ?thesis unfolding contains_str_iff by blast
qed

lemma contains_bind_error:
  "contains_str ''cannot be changed by reload'' (''server.bind cannot be changed by reload (was '' @ s)"
proof -
  have "''server.bind cannot be changed by reload (was '' @ s =
      ''server.bind '' @ ''cannot be changed by reload'' @ ('' (was '' @ s)" by simp
  then show ?thesis unfolding contains_str_iff by blast
qed

lemma assert_immutable_Inl:
  "assert_immutable h cfg = Inl err \<Longrightarrow> contains_str ''cannot be changed by reload'' err"
  using contains_bind_error contains_frozen_field
  by (simp add: assert_immutable_def Let_def split: if_splits) (metis append_Cons append_Nil)+

lemma load_InrD:
  assumes "load S path = Inr cfg"
  shows "vr_errors (validate_full (cs_is_file S) cfg) = []"
proof -
  from assms obtain c where
    "(case vr_errors (validate_full (cs_is_file S) c) of
        err # _ \<Rightarrow> Inl (display_config_error err) | [] \<Rightarrow> Inr c) = Inr cfg"
    by (auto simp: load_def bind_res_eq_Inr)
  then show ?thesis by (cases "vr_errors (validate_full (cs_is_file S) c)") auto
qed

lemma reload_cases:
  assumes "reload H N D L tls_roots S h path current = (r, p)"
  obtains (failed) err where "r = Inl err" "p = current"
  | (ok) cfg where "r = Inr ()" "load S path = Inr cfg" "frozen_fields cfg = handle_fields h"
      "build_from H N D L tls_roots cfg (Some current) = Inr p"
  using assms
  by (auto simp: reload_def assert_immutable_Inr split: sum.splits
      dest!: sym [of "Inl _" "assert_immutable _ _"])

lemma reload_frozen:
  assumes "load S path = Inr cfg" "frozen_fields cfg \<noteq> handle_fields h"
  shows "\<exists>err. reload H N D L tls_roots S h path current = (Inl err, current) \<and>
    reload_result (Inl err) = ''rejected''"
proof -
  have "assert_immutable h cfg \<noteq> Inr ()" using assms(2) by (simp add: assert_immutable_Inr)
  then obtain err where err: "assert_immutable h cfg = Inl err"
    by (cases "assert_immutable h cfg") auto
  with assms(1) assert_immutable_Inl [OF err] show ?thesis
    by (simp add: reload_def reload_result_def)
qed

lemma watch_sighup_invariant:
  assumes "\<And>S serve q. (S, serve) \<in> set signals \<Longrightarrow>
      lp_config (serve q) = lp_config q \<and> (as_configured H N D L q \<longrightarrow> as_configured H N D L (serve q))"
  shows "watch_sighup H N D L tls_roots h path signals current = (ms, p) \<Longrightarrow>
    as_configured H N D L current \<Longrightarrow> frozen_fields (lp_config current) = handle_fields h \<Longrightarrow>
    as_configured H N D L p \<and> frozen_fields (lp_config p) = handle_fields h \<and>
    length ms = length signals \<and>
    (lp_config p = lp_config current \<or> (\<exists>S \<in> fst ` set signals. load S path = Inr (lp_config p)))"
  using assms
proof (induction signals arbitrary: current ms p)
  case Nil
  then show ?case by simp
next
  case (Cons sig signals)
  obtain S serve where sig: "sig = (S, serve)" by (cases sig)
  have serve: "lp_config (serve current) = lp_config current" "as_configured H N D L (serve current)"
    using Cons.prems(2) Cons.prems(4) [of S serve current] sig by auto
  obtain r q where r: "reload H N D L tls_roots S h path (serve current) = (r, q)"
    by (cases "reload H N D L tls_roots S h path (serve current)")
  obtain ms' where w: "watch_sighup H N D L tls_roots h path signals q = (ms', p)"
    and ms: "ms = config_reload (reload_result r) # ms'"
    using Cons.prems(1) sig r by (auto split: prod.splits)
  have step: "as_configured H N D L q \<and> frozen_fields (lp_config q) = handle_fields h \<and>
      (lp_config q = lp_config current \<or> load S path = Inr (lp_config q))"
    using r
  proof (cases rule: reload_cases)
    case (failed err)
    with serve Cons.prems(3) show ?thesis by simp
  next
    case (ok cfg)
    with serve build_from_as_configured [OF _ ok(4)] build_from_InrD(1) [OF ok(4)] show ?thesis by simp
  qed
  have rest: "lp_config (serve q) = lp_config q \<and> (as_configured H N D L q \<longrightarrow> as_configured H N D L (serve q))"
    if "(S, serve) \<in> set signals" for S serve q
    using Cons.prems(4) [of S serve q] that by simp
  have "as_configured H N D L p \<and> frozen_fields (lp_config p) = handle_fields h \<and>
      length ms' = length signals \<and>
      (lp_config p = lp_config q \<or> (\<exists>S \<in> fst ` set signals. load S path = Inr (lp_config p)))"
    by (rule Cons.IH [OF w]) (use step rest in auto)
  with step ms sig show ?case by auto
qed

subsection \<open>Properties\<close>

lemma valid_http2_off:
  "vr_errors (validate_full (\<lambda>_. False)
     (default_config\<lparr>cf_server := default_server_config\<lparr>sv_http2 := False\<rparr>\<rparr>)) = []"
  by (simp add: validate_full_no_errors_iff cors_safe_def target_ok_def auth_ok_def
      rate_limit_ok_def server_ok_def dimension_ok_def default_config_eval str_simps)

text \<open>
  C23. A reload is all or nothing: on every failure (loading, validation, a frozen field, building)
  the snapshot is untouched, a success installs a snapshot built from a configuration that passed
  validation and agrees with the running listener on every frozen field, and a change of a frozen
  field is always refused and counted as rejected.
\<close>

theorem reload_all_or_nothing:
  assumes "reload H N D L tls_roots S h path current = (r, p)"
  shows "(case r of
      Inl err \<Rightarrow> p = current
    | Inr _ \<Rightarrow>
        load S path = Inr (lp_config p) \<and> vr_errors (validate_full (cs_is_file S) (lp_config p)) = [] \<and>
        frozen_fields (lp_config p) = handle_fields h) \<and>
    (\<forall>cfg. load S path = Inr cfg \<and> frozen_fields cfg \<noteq> handle_fields h \<longrightarrow>
       reload_result r = ''rejected'')"
  using assms
proof (cases rule: reload_cases)
  case (failed err)
  with assms reload_frozen [of S path _ h H N D L tls_roots current] show ?thesis by fastforce
next
  case (ok cfg)
  with load_InrD [OF ok(2)] build_from_InrD(1) [OF ok(4)] show ?thesis by auto
qed

text \<open>A reload that switches HTTP/2 off.\<close>

definition example_sources :: "config \<Rightarrow> config_sources" where
  "example_sources cfg =
     \<lparr>cs_env_config = None, cs_is_file = (\<lambda>_. False), cs_extract = (\<lambda>_. Inr cfg)\<rparr>"

definition example_handle :: reload_handle where
  "example_handle =
     \<lparr>rh_server = default_server_config, rh_metrics_endpoint = ''/metrics'',
      rh_max_body_bytes = 10 * MIB, rh_max_request_header_bytes = 32 * 1024,
      rh_request_timeout = from_mins 1, rh_inflight_max = 1000,
      rh_max_response_body_bytes = 50 * MIB\<rparr>"

lemma reload_all_or_nothing_witness:
  "\<exists>p err. example_policies = Inr p \<and>
     reload list_headers plain_nets alist_dash example_limiters (Inr ())
       (example_sources (default_config\<lparr>cf_server := default_server_config\<lparr>sv_http2 := False\<rparr>\<rparr>))
       example_handle None p = (Inl err, p) \<and> reload_result (Inl err) = ''rejected''"
proof -
  let ?cfg = "default_config\<lparr>cf_server := default_server_config\<lparr>sv_http2 := False\<rparr>\<rparr>"
  obtain p where p: "example_policies = Inr p" using example_policies_Inr by blast
  obtain r q where r: "reload list_headers plain_nets alist_dash example_limiters (Inr ())
      (example_sources ?cfg) example_handle None p = (r, q)" by fastforce
  have load: "load (example_sources ?cfg) None = Inr ?cfg"
    using valid_http2_off by (simp add: load_def load_raw_def example_sources_def)
  moreover have "frozen_fields ?cfg \<noteq> handle_fields example_handle"
    by (simp add: frozen_fields_def handle_fields_def default_config_def default_server_config_def
        example_handle_def)
  ultimately have "reload_result r = ''rejected''"
    using reload_all_or_nothing [OF r] by blast
  then obtain err where "r = Inl err" by (cases r) (auto simp: reload_result_def)
  with reload_all_or_nothing [OF r] p r \<open>reload_result r = _\<close> show ?thesis by auto
qed

text \<open>
  However often the configuration is reloaded while requests are served, the snapshot in force
  always agrees with the listener that was started on the frozen fields, is compiled from its own
  configuration, and that configuration is the one the server started with or one that a reload
  loaded and validated; every signal is counted once.
\<close>

theorem reloads_keep_server:
  assumes "server_from_config H N D L tls_roots cfg = Inr b"
    "watch_sighup H N D L tls_roots (hot_reload b) path signals (sb_policies b) = (ms, p)"
    "\<forall>(S, serve) \<in> set signals. \<forall>q. lp_config (serve q) = lp_config q \<and>
       (as_configured H N D L q \<longrightarrow> as_configured H N D L (serve q))"
  shows "frozen_fields (lp_config p) = frozen_fields cfg \<and> as_configured H N D L p \<and>
    length ms = length signals \<and>
    (lp_config p = cfg \<or> (\<exists>S \<in> fst ` set signals. load S path = Inr (lp_config p)))"
proof -
  have b: "build_from H N D L tls_roots cfg None = Inr (sb_policies b)"
    and frozen: "handle_fields (hot_reload b) = frozen_fields cfg"
    using assms(1)
    by (auto simp: server_from_config_def build_policies_def bind_res_eq_Inr hot_reload_def
        handle_fields_def frozen_fields_def)
  have "as_configured H N D L (sb_policies b)" "lp_config (sb_policies b) = cfg"
    using build_from_as_configured [OF _ b] build_from_InrD(1) [OF b] by simp_all
  then show ?thesis
    using watch_sighup_invariant [OF _ assms(2)] assms(3) frozen by fastforce
qed

lemma reloads_keep_server_witness:
  "\<exists>b ms p. server_from_config list_headers plain_nets
       (alist_dash :: ((string, host_circuit) alist_map) hosts_lib) example_limiters (Inr ())
       default_config = Inr b \<and>
     watch_sighup list_headers plain_nets alist_dash example_limiters (Inr ()) (hot_reload b) None
       [(example_sources (default_config\<lparr>cf_server := default_server_config\<lparr>sv_http2 := False\<rparr>\<rparr>), \<lambda>p. p)]
       (sb_policies b) = (ms, p) \<and> sv_http2 (cf_server (lp_config p))"
proof -
  obtain b where b: "server_from_config list_headers plain_nets
      (alist_dash :: ((string, host_circuit) alist_map) hosts_lib) example_limiters (Inr ())
      default_config = Inr b"
    using example_policies_Inr by (auto simp: server_from_config_def example_policies_def)
  obtain ms p where w: "watch_sighup list_headers plain_nets alist_dash example_limiters (Inr ()) (hot_reload b) None
      [(example_sources (default_config\<lparr>cf_server := default_server_config\<lparr>sv_http2 := False\<rparr>\<rparr>), \<lambda>p. p)]
      (sb_policies b) = (ms, p)" by fastforce
  from reloads_keep_server [OF b w] have "frozen_fields (lp_config p) = frozen_fields default_config"
    by simp
  then have "sv_http2 (cf_server (lp_config p))"
    by (simp add: frozen_fields_def default_config_def default_server_config_def)
  with b w show ?thesis by blast
qed

end
