(* ===== verification/Handlers.thy ===== *)
theory Handlers
  imports Server_State Server_Error Forwarded Metering Url_Parser
begin

text \<open>
  The proxy handler: \<open>corx-server/src/handlers/outbound.rs\<close> and \<open>corx-server/src/handlers/proxy.rs\<close>.
  A handler answers the metrics it recorded before its response head was returned, the trace of what
  it did to the outside, its outcome (\<open>Dropped\<close> when its future is dropped while it waits for the
  upstream), and the world and server after it. What other tasks (other requests, a reload) do to the
  server while it waits is the parameter \<open>se_others\<close>.
\<close>

subsection \<open>Outbound shaping\<close>

definition USER_AGENT :: header_name where "USER_AGENT = ''user-agent''"
definition VIA :: header_name where "VIA = ''via''"
definition EXPOSE_URL_HEADER :: header_name where "EXPOSE_URL_HEADER = ''x-corx-target-url''"
definition VIA_HEADER_VALUE :: string where "VIA_HEADER_VALUE = ''1.1 corx''"

definition inject_default_user_agent :: "'h header_lib \<Rightarrow> string \<Rightarrow> 'h \<Rightarrow> 'h" where
  "inject_default_user_agent H default_ua headers =
     (if hm_contains H headers USER_AGENT then headers
      else (case hv_from_str H default_ua of
              Some v \<Rightarrow> hm_insert H headers USER_AGENT v
            | None \<Rightarrow> headers))"

definition set_host_from_target :: "'h header_lib \<Rightarrow> 'u url_lib \<Rightarrow> 'u target_url \<Rightarrow> 'h \<Rightarrow> 'h" where
  "set_host_from_target H U target headers =
     (let authority =
        (case url_port U (tu_url target) of
           None \<Rightarrow> tu_host target
         | Some port \<Rightarrow> tu_host target @ '':'' @ show_nat (unat port))
      in case hv_from_str H authority of
           Some v \<Rightarrow> hm_insert H headers HOST v
         | None \<Rightarrow> headers)"

definition append_via_header :: "'h header_lib \<Rightarrow> 'h \<Rightarrow> 'h" where
  "append_via_header H headers =
     (let new_value =
        (case hm_get H headers VIA of
           None \<Rightarrow> VIA_HEADER_VALUE
         | Some existing \<Rightarrow>
             (case hv_to_str H existing of
                None \<Rightarrow> VIA_HEADER_VALUE
              | Some s \<Rightarrow> s @ '', '' @ VIA_HEADER_VALUE))
      in case hv_from_str H new_value of
           Some v \<Rightarrow> hm_insert H headers VIA v
         | None \<Rightarrow> headers)"

text \<open>
  The answers a counted body gives, with its errors lifted to \<open>Internal\<close>; the counter moves while
  the client library polls them.
\<close>

fun internal_error :: "poll \<Rightarrow> poll" where
  "internal_error (ReadyErr e) = ReadyErr (Internal (display_error e))"
| "internal_error p = p"

definition axum_to_upstream_body :: "body \<Rightarrow> body" where
  "axum_to_upstream_body body =
     map internal_error
       (wrapped_body (counting_poll body_poll) (length body) (counting_new body ''request''))"

definition rewrite_location_header :: "'h header_lib \<Rightarrow> 'h \<Rightarrow> 'h" where
  "rewrite_location_header H headers =
     (case hm_get H headers LOCATION of
        None \<Rightarrow> headers
      | Some location \<Rightarrow>
          (case hv_to_str H location of
             None \<Rightarrow> headers
           | Some raw \<Rightarrow>
               if \<not> (starts_with ''http://'' raw \<or> starts_with ''https://'' raw) then headers
               else (case hv_from_str H (''/'' @ raw) of
                       Some v \<Rightarrow> hm_insert H headers LOCATION v
                     | None \<Rightarrow> headers)))"

definition shape_response ::
  "'h header_lib \<Rightarrow> 'u url_lib \<Rightarrow> 'h response \<Rightarrow>
     ('m, 'gs, 'gi, 'gd, 'ms, 'mi, 'r) server_build \<Rightarrow> 'u target_url \<Rightarrow> redirect_policy \<Rightarrow>
     'h response" where
  "shape_response H U response b target redirect_policy =
     (let headers = header_filter_apply H (lp_response_filter (sb_policies b)) (rs_headers response);
          headers =
            (case hv_from_str H (url_as_str U (tu_url target)) of
               Some v \<Rightarrow> hm_insert H headers EXPOSE_URL_HEADER v
             | None \<Rightarrow> headers);
          headers = append_via_header H headers;
          headers =
            (if redirect_policy = Rewrite then rewrite_location_header H headers else headers);
          max_response = lm_max_response_body_bytes (sb_immutable_limits b);
          counted = counting_new (rs_body response) ''response'';
          limited = limiting_new counted max_response
      in \<lparr>rs_status = rs_status response, rs_headers = headers,
          rs_body = wrapped_body (limiting_poll (counting_poll body_poll))
            (length (rs_body response)) limited\<rparr>)"

subsection \<open>The surroundings of a handler\<close>

record ('w, 'h, 'm, 'b) serve_env =
  se_client :: "('w, 'h, 'm) client_env"
  se_uuid :: "'w \<Rightarrow> string"
  se_others :: "'w \<Rightarrow> 'b \<Rightarrow> 'b"

type_synonym ('h, 'w, 'b) handled =
  "metric list \<times> 'h hop_event list \<times> 'h response res awaited \<times> 'w \<times> 'b"

definition upstream_duration :: "string \<Rightarrow> nat \<Rightarrow> metric" where
  "upstream_duration status elapsed = Observe UPSTREAM_DURATION [(''status'', status)] elapsed"

subsection \<open>Executing a proxied request\<close>

text \<open>The request that goes to the upstream client, up to its URI.\<close>

definition outbound_headers ::
  "'h header_lib \<Rightarrow> 'u url_lib \<Rightarrow> string \<Rightarrow>
     ('m, 'gs, 'gi, 'gd, 'ms, 'mi, 'r) server_build \<Rightarrow> 'h request \<Rightarrow> 'u target_url \<Rightarrow> ip_addr \<Rightarrow> 'h" where
  "outbound_headers H U fresh_id b request target client_ip =
     (let tls_on = sv_tls (sb_immutable_server b) \<noteq> None;
          local_port = snd (sv_bind (sb_immutable_server b));
          inbound_scheme =
            (case u_scheme (rq_uri request) of
               Some s \<Rightarrow> if s \<noteq> [] then s else if tls_on then ''https'' else ''http''
             | None \<Rightarrow> if tls_on then ''https'' else ''http'');
          inbound_host = Option.bind (hm_get H (rq_headers request) HOST) (hv_to_str H);
          policies = sb_policies b;
          headers = header_filter_apply H (lp_request_filter policies) (rq_headers request);
          inbound = \<lparr>ib_client_ip = Some client_ip, ib_scheme = inbound_scheme,
                     ib_host = inbound_host, ib_local_port = local_port\<rparr>;
          headers = inject H fresh_id headers inbound target (cf_forwarded (lp_config policies));
          headers = inject_default_user_agent H (user_agent (lp_upstream policies)) headers
      in set_host_from_target H U target headers)"

definition with_circuit ::
  "'m circuit_breaker \<Rightarrow> ('m, 'gs, 'gi, 'gd, 'ms, 'mi, 'r) server_build \<Rightarrow>
     ('m, 'gs, 'gi, 'gd, 'ms, 'mi, 'r) server_build" where
  "with_circuit cb b = b\<lparr>sb_policies := (sb_policies b)\<lparr>lp_circuit := cb\<rparr>\<rparr>"

definition execute_proxy ::
  "'h header_lib \<Rightarrow> 'u url_lib \<Rightarrow> 'm hosts_lib \<Rightarrow>
     ('w, 'h, 'm, ('m, 'gs, 'gi, 'gd, 'ms, 'mi, 'r) server_build) serve_env \<Rightarrow>
     'h request \<Rightarrow> 'u target_url \<Rightarrow> ip_addr \<Rightarrow> 'w \<Rightarrow> ('m, 'gs, 'gi, 'gd, 'ms, 'mi, 'r) server_build \<Rightarrow>
     ('h, 'w, ('m, 'gs, 'gi, 'gd, 'ms, 'mi, 'r) server_build) handled" where
  "execute_proxy H U D E request target client_ip w b =
     (let policies = sb_policies b;
          headers = outbound_headers H U (se_uuid E w) b request target client_ip
      in case to_uri U target of
           Inl e \<Rightarrow> ([], [], Ready (Inl e), w, b)
         | Inr uri \<Rightarrow>
             (let outbound = \<lparr>rq_method = rq_method request, rq_uri = uri, rq_headers = headers,
                              rq_body = axum_to_upstream_body (rq_body request)\<rparr>;
                  started = ce_now (se_client E) w
              in case execute H U D (se_client E) (lp_upstream policies) outbound w
                        (lp_circuit policies) of
                   (ms, ev, outcome, w, circuit) \<Rightarrow>
                     (let b = se_others E w (with_circuit circuit b);
                          elapsed = ce_now (se_client E) w - started
                      in case outcome of
                           Dropped \<Rightarrow> (ms, ev, Dropped, w, b)
                         | Ready (Inl e) \<Rightarrow>
                             (ms @ [upstream_duration (kind_as_str (error_kind_of e)) elapsed], ev,
                              Ready (Inl e), w, b)
                         | Ready (Inr response) \<Rightarrow>
                             (ms @ [upstream_duration (show_nat (rs_status response)) elapsed], ev,
                              Ready (Inr (shape_response H U response b target
                                (lm_redirect_policy (cf_limits (lp_config policies))))), w, b))))"

subsection \<open>Serving a request\<close>

definition with_guard ::
  "('gs, 'gi, 'gd, 'ms, 'mi, 'r) request_guard \<Rightarrow> ('m, 'gs, 'gi, 'gd, 'ms, 'mi, 'r) server_build \<Rightarrow>
     ('m, 'gs, 'gi, 'gd, 'ms, 'mi, 'r) server_build" where
  "with_guard g b = b\<lparr>sb_policies := (sb_policies b)\<lparr>lp_guard := g\<rparr>\<rparr>"

text \<open>The guards a preflight passes before it is answered.\<close>

definition preflight_guards ::
  "'h header_lib \<Rightarrow> 'u url_lib \<Rightarrow> net_lib \<Rightarrow> ('gs, 'gi, 'gd, 'ms, 'mi, 'r) limiter_lib \<Rightarrow> instant \<Rightarrow>
     'h request \<Rightarrow> ip_addr \<Rightarrow> ('m, 'gs, 'gi, 'gd, 'ms, 'mi, 'r) server_build \<Rightarrow>
     ('m, 'gs, 'gi, 'gd, 'ms, 'mi, 'r) server_build checked" where
  "preflight_guards H U N L now request client_ip b =
     (let policies = sb_policies b; preflight = sc_preflight (cf_security (lp_config policies))
      in if pf_mode preflight = Enforce then
           (case check_origin H (lp_guard policies) request of
              Inl e \<Rightarrow> (([], Inl e), b)
            | Inr _ \<Rightarrow>
                if pf_rate_limit preflight then
                  (let target_host =
                         (case extract_target U (rq_uri request) of
                            Inr t \<Rightarrow> Some (tu_host t) | Inl _ \<Rightarrow> None)
                   in case check_rate H N L now request client_ip target_host (lp_guard policies) of
                        (r, g) \<Rightarrow> (r, with_guard g b))
                else (([], Inr ()), b))
         else (([], Inr ()), b))"

definition serve ::
  "'h header_lib \<Rightarrow> 'u url_lib \<Rightarrow> net_lib \<Rightarrow> 'm hosts_lib \<Rightarrow>
     ('gs, 'gi, 'gd, 'ms, 'mi, 'r) limiter_lib \<Rightarrow>
     ('w, 'h, 'm, ('m, 'gs, 'gi, 'gd, 'ms, 'mi, 'r) server_build) serve_env \<Rightarrow>
     'h request \<Rightarrow> ip_addr \<Rightarrow> 'w \<Rightarrow> ('m, 'gs, 'gi, 'gd, 'ms, 'mi, 'r) server_build \<Rightarrow>
     ('h, 'w, ('m, 'gs, 'gi, 'gd, 'ms, 'mi, 'r) server_build) handled" where
  "serve H U N D L E request client_ip w b =
     (let policies = sb_policies b; now = ce_now (se_client E) w
      in if is_preflight H request then
           (case preflight_guards H U N L now request client_ip b of
              ((ms, Inl e), b) \<Rightarrow> (ms, [], Ready (Inl e), w, b)
            | ((ms, Inr _), b) \<Rightarrow>
                (ms, [], Ready (Inr (build_preflight_response H request (lp_cors policies))), w, b))
         else
           (case check_origin H (lp_guard policies) request of
              Inl e \<Rightarrow> ([], [], Ready (Inl e), w, b)
            | Inr _ \<Rightarrow>
           (case extract_target U (rq_uri request) of
              Inl e \<Rightarrow> ([], [], Ready (Inl e), w, b)
            | Inr target \<Rightarrow>
           (case check_target U (lp_target_policy policies) target of
              Inl e \<Rightarrow> ([], [], Ready (Inl e), w, b)
            | Inr _ \<Rightarrow>
           (case check_rate H N L now request client_ip (Some (tu_host target)) (lp_guard policies) of
              ((ms, Inl e), g) \<Rightarrow> (ms, [], Ready (Inl e), w, with_guard g b)
            | ((ms, Inr _), g) \<Rightarrow>
                (case execute_proxy H U D E request target client_ip w (with_guard g b) of
                   (ms', ev, outcome, w, b) \<Rightarrow> (ms @ ms', ev, outcome, w, b)))))))"

subsection \<open>The handler\<close>

definition request_duration :: "status_code \<Rightarrow> nat \<Rightarrow> metric" where
  "request_duration status elapsed =
     Observe REQUEST_DURATION [(''status'', show_nat status)] elapsed"

definition outcome_metrics :: "nat \<Rightarrow> 'h response res awaited \<Rightarrow> metric list" where
  "outcome_metrics elapsed outcome =
     (case outcome of
        Ready (Inr response) \<Rightarrow> [request_duration (rs_status response) elapsed]
      | Ready (Inl e) \<Rightarrow>
          [Count UPSTREAM_ERRORS [(''kind'', kind_as_str (server_error_kind e))] 1,
           request_duration (kind_status (server_error_kind e)) elapsed]
      | Dropped \<Rightarrow> [])"

text \<open>The gauge is decremented by the drop of the guard, whatever the outcome.\<close>

definition proxy ::
  "'h header_lib \<Rightarrow> 'u url_lib \<Rightarrow> net_lib \<Rightarrow> 'm hosts_lib \<Rightarrow>
     ('gs, 'gi, 'gd, 'ms, 'mi, 'r) limiter_lib \<Rightarrow>
     ('w, 'h, 'm, ('m, 'gs, 'gi, 'gd, 'ms, 'mi, 'r) server_build) serve_env \<Rightarrow>
     'h request \<Rightarrow> ip_addr \<Rightarrow> 'w \<Rightarrow> ('m, 'gs, 'gi, 'gd, 'ms, 'mi, 'r) server_build \<Rightarrow>
     ('h, 'w, ('m, 'gs, 'gi, 'gd, 'ms, 'mi, 'r) server_build) handled" where
  "proxy H U N D L E request peer w b =
     (let started = ce_now (se_client E) w
      in case serve H U N D L E request peer w b of
           (ms, ev, outcome, w, b) \<Rightarrow>
             (let elapsed = ce_now (se_client E) w - started
              in ([Count REQUESTS_TOTAL [] 1, Gauge INFLIGHT_REQUESTS 1] @ ms @
                  outcome_metrics elapsed outcome @ [Gauge INFLIGHT_REQUESTS (- 1)],
                  ev, outcome, w, b)))"

subsection \<open>What reaches the upstream\<close>

lemma handler_names [simp]:
  "HOST \<noteq> USER_AGENT" "USER_AGENT \<noteq> HOST"
  by (simp_all add: HOST_def USER_AGENT_def)

lemma host_visible_port: "visible host \<Longrightarrow> visible (host_with_port host port)"
  by (auto simp: host_with_port_def visible_byte_def split: option.split)

lemma request_body_whole: "axum_to_upstream_body body = map internal_error body"
  by (simp add: axum_to_upstream_body_def wrapped_whole counting_answers body_answers)

context header_map begin

lemma get_all_set_host:
  "hm_get_all H (set_host_from_target H U t h) n =
     (if n = HOST \<and> hv_from_str H (host_with_port (tu_host t) (url_port U (tu_url t))) \<noteq> None
      then [host_with_port (tu_host t) (url_port U (tu_url t))] else hm_get_all H h n)"
  by (auto simp: set_host_from_target_def host_with_port_def get_all_insert dest!: from_str_bytes
      split: option.splits)

lemma get_all_default_user_agent:
  "hm_get_all H (inject_default_user_agent H ua h) n =
     (if n = USER_AGENT \<and> hm_get_all H h n = [] \<and> hv_from_str H ua \<noteq> None then [ua]
      else hm_get_all H h n)"
  by (auto simp: inject_default_user_agent_def contains_get_all get_all_insert dest!: from_str_bytes
      split: option.splits)

lemma get_all_outbound_table:
  fixes b :: "('m, 'gs, 'gi, 'gd, 'ms, 'mi, 'r) server_build"
  assumes "visible fresh" "visible (user_agent (lp_upstream (sb_policies b)))" "visible (tu_host target)"
    "pred_option visible (u_scheme (rq_uri request))"
  shows "hm_get_all H (outbound_headers H U fresh b request target ip) n =
    (let p = sb_policies b;
         cleaned = (\<lambda>n. if n \<in> filtered_names H (lp_request_filter p) (rq_headers request) then []
                        else hm_get_all H (rq_headers request) n);
         inbound =
           \<lparr>ib_client_ip = Some ip,
            ib_scheme = (if u_scheme (rq_uri request) \<in> {None, Some []}
                         then if sv_tls (sb_immutable_server b) = None then ''http'' else ''https''
                         else the (u_scheme (rq_uri request))),
            ib_host = (case hm_get_all H (rq_headers request) HOST of
                         first # _ \<Rightarrow> if visible first then Some first else None | [] \<Rightarrow> None),
            ib_local_port = snd (sv_bind (sb_immutable_server b))\<rparr>
     in if n = HOST then [host_with_port (tu_host target) (url_port U (tu_url target))]
        else if n = USER_AGENT \<and> cleaned n = [] then [user_agent (lp_upstream p)]
        else forwarding_table (cf_forwarded (lp_config p)) fresh inbound (tu_host target) cleaned n)"
proof -
  let ?p = "sb_policies b"
  let ?s = "u_scheme (rq_uri request)"
  let ?scheme = "case ?s of Some s \<Rightarrow> if s \<noteq> [] then s else if sv_tls (sb_immutable_server b) \<noteq> None then ''https'' else ''http''
             | None \<Rightarrow> if sv_tls (sb_immutable_server b) \<noteq> None then ''https'' else ''http''"
  let ?host = "Option.bind (hm_get H (rq_headers request) HOST) (hv_to_str H)"
  let ?inbound = "\<lparr>ib_client_ip = Some ip, ib_scheme = ?scheme, ib_host = ?host, ib_local_port = snd (sv_bind (sb_immutable_server b))\<rparr>"
  have scheme: "?scheme = (if ?s \<in> {None, Some []} then if sv_tls (sb_immutable_server b) = None then ''http'' else ''https'' else the ?s)"
    by (auto split: option.split)
  have host: "?host = (case hm_get_all H (rq_headers request) HOST of
      first # _ \<Rightarrow> if visible first then Some first else None | [] \<Rightarrow> None)"
    by (simp add: get_first to_str_visible split: list.split)
  have "visible (ib_scheme ?inbound)" using assms(4) by (auto simp: visible_byte_def split: option.split)
  moreover have "pred_option visible (ib_host ?inbound)" by (auto simp: host split: list.split)
  ultimately have inj: "hm_get_all H (inject H fresh (header_filter_apply H (lp_request_filter ?p) (rq_headers request)) ?inbound target
      (cf_forwarded (lp_config ?p))) = forwarding_table (cf_forwarded (lp_config ?p)) fresh ?inbound (tu_host target)
      (hm_get_all H (header_filter_apply H (lp_request_filter ?p) (rq_headers request)))"
    using get_all_inject_table [OF _ _ assms(3,1)] by blast
  have cleaned: "hm_get_all H (header_filter_apply H (lp_request_filter ?p) (rq_headers request)) =
      (\<lambda>n. if n \<in> filtered_names H (lp_request_filter ?p) (rq_headers request) then [] else hm_get_all H (rq_headers request) n)"
    by (rule ext) (rule get_all_filter_apply)
  have ua: "forwarding_table cfg fresh inbound by_host before USER_AGENT = before USER_AGENT" for cfg inbound by_host before
    by (simp add: forwarding_table_def USER_AGENT_def forwarded_names)
  show ?thesis
    using from_str_visible [OF host_visible_port [OF assms(3)]] from_str_visible [OF assms(2)]
    unfolding outbound_headers_def Let_def get_all_set_host get_all_default_user_agent inj cleaned scheme [symmetric] host [symmetric]
    by (auto simp: ua)
qed

end

lemma execute_proxy_sent:
  assumes "header_map H"
    "execute_proxy H U D E request target ip w b = (ms, ev, r, w', b')" "sent ev \<noteq> []"
  shows "to_uri U target = Inr (rq_uri (hd (sent ev))) \<and> rq_method (hd (sent ev)) = rq_method request \<and>
    rq_headers (hd (sent ev)) = outbound_headers H U (se_uuid E w) b request target ip \<and>
    rq_body (hd (sent ev)) = map internal_error (rq_body request) \<and> well_settled ev \<and>
    (\<forall>q \<in> set (sent ev). check_uri (ups_target_policy (lp_upstream (sb_policies b))) (rq_uri q) = Inr ())"
proof (cases "to_uri U target")
  case (Inl e)
  with assms(2,3) show ?thesis by (simp add: execute_proxy_def)
next
  case (Inr uri)
  define outbound where "outbound = \<lparr>rq_method = rq_method request, rq_uri = uri,
      rq_headers = outbound_headers H U (se_uuid E w) b request target ip,
      rq_body = axum_to_upstream_body (rq_body request)\<rparr>"
  obtain ms1 ev1 r1 w1 cb1 where run: "execute H U D (se_client E) (lp_upstream (sb_policies b)) outbound w
      (lp_circuit (sb_policies b)) = (ms1, ev1, r1, w1, cb1)"
    by (cases "execute H U D (se_client E) (lp_upstream (sb_policies b)) outbound w
      (lp_circuit (sb_policies b))")
  have "ev = ev1"
    using assms(2) Inr run
    by (auto simp: execute_proxy_def Let_def outbound_def [symmetric] split: awaited.splits sum.splits)
  with execute_loop_chain [OF execute_run [OF run] _ assms(1)] execute_initial [of H outbound] assms(3) Inr
  show ?thesis by (simp add: split_initial_def outbound_def request_body_whole)
qed

text \<open>A proxied request that reached the upstream passed every guard.\<close>

lemma serve_sent:
  assumes "serve H U N D L E request ip w b = (ms, ev, r, w', b')" "sent ev \<noteq> []"
  obtains target ms1 g ms2 where "\<not> is_preflight H request"
    "check_origin H (lp_guard (sb_policies b)) request = Inr ()"
    "extract_target U (rq_uri request) = Inr target"
    "check_target U (lp_target_policy (sb_policies b)) target = Inr ()"
    "check_rate H N L (ce_now (se_client E) w) request ip (Some (tu_host target)) (lp_guard (sb_policies b)) =
       ((ms1, Inr ()), g)"
    "execute_proxy H U D E request target ip w (with_guard g b) = (ms2, ev, r, w', b')"
  using assms
  by (auto simp: serve_def Let_def split: if_splits sum.splits prod.splits)

lemma with_guard_sel [simp]:
  "lp_upstream (sb_policies (with_guard g b)) = lp_upstream (sb_policies b)"
  "lp_request_filter (sb_policies (with_guard g b)) = lp_request_filter (sb_policies b)"
  "lp_config (sb_policies (with_guard g b)) = lp_config (sb_policies b)"
  "sb_immutable_server (with_guard g b) = sb_immutable_server b"
  by (simp_all add: with_guard_def)

subsection \<open>What reaches the client\<close>

definition rewritten_location :: "header_value list \<Rightarrow> header_value list" where
  "rewritten_location vs =
     (case vs of
        [] \<Rightarrow> []
      | v # _ \<Rightarrow>
          if visible v \<and> (starts_with ''http://'' v \<or> starts_with ''https://'' v) then [''/'' @ v]
          else vs)"

lemma response_names [simp]:
  "VIA \<noteq> LOCATION" "LOCATION \<noteq> VIA" "EXPOSE_URL_HEADER \<noteq> LOCATION" "LOCATION \<noteq> EXPOSE_URL_HEADER"
  "EXPOSE_URL_HEADER \<noteq> VIA" "VIA \<noteq> EXPOSE_URL_HEADER"
  by (simp_all add: VIA_def LOCATION_def EXPOSE_URL_HEADER_def)

lemma via_value_visible [simp]: "visible VIA_HEADER_VALUE"
  by (simp add: VIA_HEADER_VALUE_def visible_byte_def)

context header_map begin

lemma get_all_rewrite_location:
  "hm_get_all H (rewrite_location_header H h) n =
     (if n = LOCATION then rewritten_location (hm_get_all H h n) else hm_get_all H h n)"
proof (cases "hm_get_all H h LOCATION")
  case Nil
  then show ?thesis by (simp add: rewrite_location_header_def rewritten_location_def get_first)
next
  case (Cons v vs)
  have "hv_from_str H (CHR ''/'' # v) = Some (CHR ''/'' # v)" if "visible v"
    using from_str_visible [of "CHR ''/'' # v"] that by (simp add: visible_byte_def)
  with Cons show ?thesis
    by (simp add: rewrite_location_header_def rewritten_location_def get_first to_str_visible
        get_all_insert)
qed

lemma get_all_append_via:
  "hm_get_all H (append_via_header H h) n =
     (if n = VIA then
        [case Option.bind (hm_get H h VIA) (hv_to_str H) of
           None \<Rightarrow> VIA_HEADER_VALUE | Some s \<Rightarrow> s @ '', '' @ VIA_HEADER_VALUE]
      else hm_get_all H h n)"
proof -
  have "hv_from_str H VIA_HEADER_VALUE = Some VIA_HEADER_VALUE"
    by (rule from_str_visible) simp
  moreover have "hv_from_str H (v @ '', '' @ VIA_HEADER_VALUE) = Some (v @ '', '' @ VIA_HEADER_VALUE)"
    if "visible v" for v
    by (rule from_str_visible) (use that in \<open>simp add: visible_byte_def\<close>)
  ultimately show ?thesis
    by (auto simp: append_via_header_def get_all_insert to_str_visible
        split: option.splits if_splits)
qed

lemma get_all_shape_response:
  fixes b :: "('m, 'gs, 'gi, 'gd, 'ms, 'mi, 'r) server_build"
  shows "hm_get_all H (rs_headers (shape_response H U resp b target pol)) n =
    (let kept = (\<lambda>n. if n \<in> filtered_names H (lp_response_filter (sb_policies b)) (rs_headers resp) then []
                      else hm_get_all H (rs_headers resp) n);
         url = url_as_str U (tu_url target)
     in if n = EXPOSE_URL_HEADER then (if hv_from_str H url = Some url then [url] else kept n)
        else if n = VIA then
          [(case kept VIA of first # _ \<Rightarrow> if visible first then first @ '', '' else [] | [] \<Rightarrow> []) @ VIA_HEADER_VALUE]
        else if n = LOCATION \<and> pol = Rewrite then rewritten_location (kept n)
        else kept n)"
proof -
  define h where "h = (case hv_from_str H (url_as_str U (tu_url target)) of
      Some v \<Rightarrow> hm_insert H (header_filter_apply H (lp_response_filter (sb_policies b)) (rs_headers resp)) EXPOSE_URL_HEADER v
    | None \<Rightarrow> header_filter_apply H (lp_response_filter (sb_policies b)) (rs_headers resp))"
  have h: "hm_get_all H h n = (if n = EXPOSE_URL_HEADER \<and> hv_from_str H (url_as_str U (tu_url target)) = Some (url_as_str U (tu_url target))
      then [url_as_str U (tu_url target)]
      else if n \<in> filtered_names H (lp_response_filter (sb_policies b)) (rs_headers resp) then []
      else hm_get_all H (rs_headers resp) n)" for n
    by (auto simp: h_def get_all_insert get_all_filter_apply
        dest!: from_str_bytes split: option.splits)
  have r: "rs_headers (shape_response H U resp b target pol) =
      (if pol = Rewrite then rewrite_location_header H (append_via_header H h) else append_via_header H h)"
    by (simp add: shape_response_def h_def Let_def)
  show ?thesis
    by (simp add: r get_all_rewrite_location get_all_append_via h Let_def
        get_first to_str_visible split: list.split)
qed

end

lemma wrapped_body_delivered:
  "sum_list (map (\<lambda>p. data_len (Some p)) (wrapped_body f n b)) = delivered (answers f n b)"
proof -
  have "sum_list (map (\<lambda>p. data_len (Some p)) (List.map_filter (\<lambda>p. p) ps)) = delivered ps" for ps
    by (induction ps) (auto simp: List.map_filter_simps delivered_def split: option.splits)
  then show ?thesis by (simp add: wrapped_body_def)
qed

lemma shape_body:
  assumes "max_bytes < - 1"
  shows "let streamed = wrapped_body (limiting_poll (counting_poll body_poll)) (length body)
        (limiting_new (counting_new body ''response'') max_bytes)
    in (max_bytes = 0 \<or> sum_list (map (\<lambda>p. data_len (Some p)) streamed) \<le> unat max_bytes) \<and>
       (max_bytes = 0 \<or> sum_list (map (\<lambda>p. data_len (Some p)) body) \<le> unat max_bytes \<longrightarrow>
          streamed = body)"
proof -
  let ?f = "limiting_poll (counting_poll body_poll)"
  let ?l = "limiting_new (counting_new body ''response'') max_bytes"
  have own: "answers (counting_poll body_poll) (length body) (counting_new body ''response'') = map Some body"
    by (simp add: counting_answers body_answers)
  have total: "delivered (map Some body) = sum_list (map (\<lambda>p. data_len (Some p)) body)"
    by (simp add: delivered_def comp_def)
  obtain k where k: "k \<le> length body"
    "answers ?f (length body) ?l =
       take k (map Some body) @ replicate (length body - k) (Some (ReadyErr PayloadTooLarge))"
    "max_bytes = 0 \<or> delivered (take k (map Some body)) \<le> unat max_bytes"
    "max_bytes = 0 \<or> delivered (map Some body) \<le> unat max_bytes \<longrightarrow> k = length body"
    using limiting_caps [OF assms, of "length body" "counting_poll body_poll"
        "counting_new body ''response''", unfolded own] by blast
  then have "max_bytes = 0 \<or> delivered (answers ?f (length body) ?l) \<le> unat max_bytes" by auto
  moreover have "wrapped_body ?f (length body) ?l = body"
    if "max_bytes = 0 \<or> sum_list (map (\<lambda>p. data_len (Some p)) body) \<le> unat max_bytes"
    using k that total by (intro wrapped_whole) auto
  ultimately show ?thesis unfolding Let_def wrapped_body_delivered by blast
qed

subsection \<open>A server to evaluate on\<close>

definition example_limiter where
  "example_limiter =
     (\<lparr>rt_enabled = False, rt_max_keys = 1, rt_origin = None, rt_ip = None, rt_host = None,
       rt_global = None\<rparr> ::
      (string list, ip_addr list, unit list,
       (string, unit) alist_map, (ip_addr, unit) alist_map, string list) rate_limiter)"

definition example_server where
  "example_server =
     \<lparr>sb_policies =
        \<lparr>lp_config = default_config,
         lp_cors = cors_from_config list_headers default_cors_config,
         lp_request_filter = \<lparr>hf_extra_deny = [''cookie'']\<rparr>,
         lp_response_filter = \<lparr>hf_extra_deny = [''set-cookie'']\<rparr>,
         lp_guard = \<lparr>rg_origin = origin_from_config list_headers default_security_config,
                     rg_rate_limit = example_limiter\<rparr>,
         lp_target_policy = target_from_config default_target_config,
         lp_circuit = example_breaker, lp_upstream = example_upstream Rewrite\<rparr>,
      sb_inflight = 0, sb_ready = True, sb_immutable_server = default_server_config,
      sb_immutable_limits = default_limits_config,
      sb_immutable_metrics_endpoint = ''/metrics''\<rparr>"

definition example_serve_env where
  "example_serve_env = \<lparr>se_client = example_env, se_uuid = (\<lambda>_. ''id''), se_others = (\<lambda>_ b. b)\<rparr>"

definition example_inbound :: "entries request" where
  "example_inbound =
     \<lparr>rq_method = ''GET'',
      rq_uri = \<lparr>u_scheme = None, u_authority = None, u_host = None, u_path = ''/a.test/v1'', u_query = None\<rparr>,
      rq_headers = [(ORIGIN, ''https://app''), (''cookie'', ''s=1'')], rq_body = []\<rparr>"

definition example_ok :: "entries response" where
  "example_ok = \<lparr>rs_status = 200, rs_headers = [(''set-cookie'', ''x'')], rs_body = full_body ''hello''\<rparr>"

abbreviation example_serve where
  "example_serve \<equiv> serve list_headers plain_urls plain_nets alist_dash example_limiters example_serve_env
     example_inbound (V4 0x01020304) [example_ok] example_server"

definition example_target :: "plain_url target_url" where
  "example_target =
     \<lparr>tu_url = \<lparr>pu_scheme = ''http'', pu_host = ''a.test'', pu_port = None, pu_path = ''/v1'',
                pu_query = None\<rparr>, tu_host = ''a.test'', tu_port = 80\<rparr>"

lemma example_extract: "extract_target plain_urls (rq_uri example_inbound) = Inr example_target"
  by (simp add: example_inbound_def example_target_def extract_target_def candidate_from_uri_def
      trim_start_char_def normalize_scheme_def validate_url_def install_host_def http_scheme_def
      MAX_HOST_LEN_def Let_def plain_urls_eval)

lemma example_guards:
  "is_preflight list_headers example_inbound = False"
  "check_origin list_headers (lp_guard (sb_policies example_server)) example_inbound = Inr ()"
  "check_target plain_urls (lp_target_policy (sb_policies example_server)) example_target = Inr ()"
proof -
  show "is_preflight list_headers example_inbound = False"
    by (simp add: is_preflight_def example_inbound_def)
  have "origin_evaluate list_headers (origin_from_config list_headers default_security_config)
      ''GET'' [(''origin'', ''https://app''), (''cookie'', ''s=1'')] = Inr ()"
    by (simp add: origin_evaluate_def origin_from_config_def default_security_config_def
        to_origin_set_def cors_names list_headers_eval List.map_filter_simps contains_name_def)
  then show "check_origin list_headers (lp_guard (sb_policies example_server)) example_inbound = Inr ()"
    by (simp add: check_origin_def example_server_def example_inbound_def cors_names)
  show "check_target plain_urls (lp_target_policy (sb_policies example_server)) example_target = Inr ()"
    by (simp add: example_server_def check_target_def check_authority_def target_from_config_def
        default_target_config_def default_schemes_def example_target_def plain_urls_eval)
qed

lemma example_rate:
  "check_rate list_headers plain_nets example_limiters now example_inbound ip host
     (lp_guard (sb_policies example_server)) = (([], Inr ()), lp_guard (sb_policies example_server))"
  by (simp add: check_rate_def rate_check_def example_server_def example_limiter_def Let_def)

lemma with_guard_same: "with_guard (lp_guard (sb_policies b)) b = b"
  by (simp add: with_guard_def)

lemma example_serve_eq:
  "example_serve = (case execute_proxy list_headers plain_urls alist_dash example_serve_env
       example_inbound example_target (V4 0x01020304) [example_ok] example_server of
     (ms, ev, outcome, w, b) \<Rightarrow> (ms, ev, outcome, w, b))"
  by (simp add: serve_def Let_def example_guards example_extract example_rate with_guard_same)

definition example_target_uri :: uri where
  "example_target_uri = (example_uri ''a.test'' ''/v1'')\<lparr>u_scheme := Some ''http''\<rparr>"

lemma example_to_uri: "to_uri plain_urls example_target = Inr example_target_uri"
  by (simp add: to_uri_def example_target_def example_target_uri_def example_uri_def host_with_port_def plain_urls_eval)

lemma execute_proxy_events:
  assumes "to_uri U target = Inr uri"
  shows "fst (snd (execute_proxy H U D E request target ip w b)) =
    fst (snd (execute H U D (se_client E) (lp_upstream (sb_policies b))
      \<lparr>rq_method = rq_method request, rq_uri = uri,
       rq_headers = outbound_headers H U (se_uuid E w) b request target ip,
       rq_body = axum_to_upstream_body (rq_body request)\<rparr> w (lp_circuit (sb_policies b))))"
  using assms by (simp add: execute_proxy_def Let_def split: prod.split awaited.split sum.split)

lemma example_execute_sends:
  "sent (fst (snd (execute list_headers plain_urls alist_dash example_env (example_upstream Rewrite)
     \<lparr>rq_method = m, rq_uri = example_target_uri, rq_headers = h, rq_body = bd\<rparr> [example_ok]
     example_breaker))) \<noteq> []"
  by (simp add: execute_eval example_target_uri_def example_ok_def str_simps)

lemma example_sent: "sent (fst (snd example_serve)) \<noteq> []"
proof -
  have "fst (snd example_serve) = fst (snd (execute_proxy list_headers plain_urls alist_dash
      example_serve_env example_inbound example_target (V4 0x01020304) [example_ok] example_server))"
    unfolding example_serve_eq by (simp split: prod.split)
  then show ?thesis
    by (simp add: execute_proxy_events [OF example_to_uri] example_serve_env_def)
       (simp add: example_server_def example_execute_sends)
qed

lemma example_served:
  obtains ms ev r w' b' where "example_serve = (ms, ev, r, w', b')" "sent ev \<noteq> []"
  using example_sent by (cases "example_serve") auto

subsection \<open>Properties\<close>

text \<open>
  C4. Nothing is sent upstream unguarded: if serving a request sent anything at all, the request was
  not a preflight, the origin guard admitted it, its target was extracted and admitted by the target
  policy, the rate limiter charged and admitted it, and every request of the chain, redirects
  included, was admitted by the hop policy and settled with the breaker.
\<close>

theorem serve_guards_upstream:
  assumes "header_map H" "serve H U N D L E request ip w b = (ms, ev, r, w', b')" "sent ev \<noteq> []"
  shows "\<not> is_preflight H request \<and>
    origin_admitted H (rg_origin (lp_guard (sb_policies b))) (rq_method request) (rq_headers request) \<and>
    (\<exists>target. extract_target U (rq_uri request) = Inr target \<and>
       check_target U (lp_target_policy (sb_policies b)) target = Inr () \<and>
       snd (fst (check_rate H N L (ce_now (se_client E) w) request ip (Some (tu_host target))
         (lp_guard (sb_policies b)))) = Inr ()) \<and>
    well_settled ev \<and>
    (\<forall>q \<in> set (sent ev). check_uri (ups_target_policy (lp_upstream (sb_policies b))) (rq_uri q) = Inr ())"
  using assms(2,3)
proof (cases rule: serve_sent)
  case (1 target ms1 g ms2)
  have "origin_admitted H (rg_origin (lp_guard (sb_policies b))) (rq_method request) (rq_headers request)"
    using 1(2) origin_evaluate_admitted [OF assms(1)] by (simp add: check_origin_def)
  with 1 execute_proxy_sent [OF assms(1) 1(6) assms(3)] show ?thesis by simp
qed

lemma serve_guards_upstream_witness:
  "origin_admitted list_headers (origin_from_config list_headers default_security_config) ''GET''
     (rq_headers example_inbound)"
proof (rule example_served)
  fix ms ev r w' b'
  assume "example_serve = (ms, ev, r, w', b')" "sent ev \<noteq> []"
  from serve_guards_upstream [OF list_hdrs.header_map_axioms this] show ?thesis
    by (simp add: example_server_def example_inbound_def)
qed

text \<open>
  C7. The first request sent upstream, whole. Its URI is the admitted target's, its method and its body
  are the client's (a failing body fails as an internal error). Its headers, name by name: \<open>Host\<close> is the
  target's; a missing \<open>User-Agent\<close> is filled in and the client's is kept; the forwarding headers and the
  request id are those of \<open>forwarding_table\<close> for the peer, the scheme and the \<open>Host\<close> the client used and
  the port of the listener; every other header is the client's with all its values, unless it is
  hop-by-hop, configured to be removed, or listed by \<open>Connection\<close>. The texts that go into
  headers (the id, the agent, the scheme, the extracted host) are assumed to be visible ASCII.
\<close>

theorem serve_outbound_request:
  assumes "header_map H" "serve H U N D L E request ip w b = (ms, ev, r, w', b')" "sent ev \<noteq> []"
    "visible (se_uuid E w)" "visible (user_agent (lp_upstream (sb_policies b)))"
    "pred_option visible (u_scheme (rq_uri request))"
    "\<And>target. extract_target U (rq_uri request) = Inr target \<Longrightarrow> visible (tu_host target)"
  shows "\<exists>target. extract_target U (rq_uri request) = Inr target \<and>
    (let q = hd (sent ev); p = sb_policies b;
         cleaned = (\<lambda>n. if n \<in> filtered_names H (lp_request_filter p) (rq_headers request) then []
                        else hm_get_all H (rq_headers request) n);
         inbound =
           \<lparr>ib_client_ip = Some ip,
            ib_scheme = (if u_scheme (rq_uri request) \<in> {None, Some []}
                         then if sv_tls (sb_immutable_server b) = None then ''http'' else ''https''
                         else the (u_scheme (rq_uri request))),
            ib_host = (case hm_get_all H (rq_headers request) HOST of
                         first # _ \<Rightarrow> if visible first then Some first else None | [] \<Rightarrow> None),
            ib_local_port = snd (sv_bind (sb_immutable_server b))\<rparr>
     in to_uri U target = Inr (rq_uri q) \<and> rq_method q = rq_method request \<and>
        rq_body q = map internal_error (rq_body request) \<and>
        hm_get_all H (rq_headers q) n =
          (if n = HOST then [host_with_port (tu_host target) (url_port U (tu_url target))]
           else if n = USER_AGENT \<and> cleaned n = [] then [user_agent (lp_upstream p)]
           else forwarding_table (cf_forwarded (lp_config p)) (se_uuid E w) inbound (tu_host target) cleaned n))"
  using assms(2,3)
proof (cases rule: serve_sent)
  case (1 target ms1 g ms2)
  note q = execute_proxy_sent [OF assms(1) 1(6) assms(3)]
  have ua: "visible (user_agent (lp_upstream (sb_policies (with_guard g b))))" using assms(5) by simp
  note table = header_map.get_all_outbound_table [OF assms(1,4) ua assms(7) [OF 1(3)] assms(6), of U ip n]
  show ?thesis
    using q 1(3) table [unfolded with_guard_sel Let_def]
    unfolding Let_def by (intro exI [of _ target] conjI) (simp_all only: simp_thms)
qed

lemma serve_outbound_request_witness:
  "\<exists>q :: entries request.
     hm_get_all list_headers (rq_headers q) FORWARDED = [''for=1.2.3.4;proto=http;by=a.test''] \<and>
     rq_body q = []"
proof (rule example_served)
  fix ms ev r w' b'
  assume run: "example_serve = (ms, ev, r, w', b')" and sent: "sent ev \<noteq> []"
  have v: "visible (se_uuid example_serve_env [example_ok])"
    "visible (user_agent (lp_upstream (sb_policies example_server)))"
    "pred_option visible (u_scheme (rq_uri example_inbound))" "visible (tu_host example_target)"
    by (simp_all add: example_serve_env_def example_server_def example_upstream_def example_inbound_def
        example_target_def user_agent_def str_simps)
  have "visible (tu_host t)" if "extract_target plain_urls (rq_uri example_inbound) = Inr t" for t
    using that v(4) by (simp add: example_extract)
  from serve_outbound_request [OF list_hdrs.header_map_axioms run sent v(1-3) this, of FORWARDED, unfolded example_extract]
  have "hm_get_all list_headers (rq_headers (hd (sent ev))) FORWARDED = [''for=1.2.3.4;proto=http;by=a.test''] \<and>
    rq_body (hd (sent ev)) = []"
    by (auto simp: example_extract Let_def forwarding_table_def forwarded_text_def is_ipv6_def forwarded_names
        example_server_def default_config_def default_forwarded_config_def example_inbound_def list_headers_eval
        HOST_def USER_AGENT_def ORIGIN_def default_server_config_def example_target_def filtered_names_def
        show_ip_eval)
  then show ?thesis by blast
qed

text \<open>
  C29. What the client is given of an upstream response: its status; at most
  \<open>max_response_body_bytes\<close> bytes of its body, and the body unchanged when it fits; and of its headers,
  name by name: the URL that was asked for in \<open>X-Corx-Target-Url\<close>; one \<open>Via\<close> line, the upstream's first
  with the proxy's token behind it (further lines are dropped); under the rewrite policy a
  \<open>Location\<close> that points back through the proxy when the first one is an absolute HTTP URL; and every
  other header as the upstream sent it, unless the response filter takes it out. The text of the URL
  is assumed to be visible ASCII.
\<close>

theorem shape_response_delivers:
  fixes b :: "('m, 'gs, 'gi, 'gd, 'ms, 'mi, 'r) server_build"
  assumes "header_map H" "lm_max_response_body_bytes (sb_immutable_limits b) < - 1" "visible (url_as_str U (tu_url target))"
  shows "let r = shape_response H U resp b target pol;
      kept = (\<lambda>n. if n \<in> filtered_names H (lp_response_filter (sb_policies b)) (rs_headers resp) then []
                   else hm_get_all H (rs_headers resp) n);
      max_bytes = lm_max_response_body_bytes (sb_immutable_limits b);
      bytes = (\<lambda>body. sum_list (map (\<lambda>p. data_len (Some p)) body))
    in rs_status r = rs_status resp \<and>
       (max_bytes = 0 \<or> bytes (rs_body r) \<le> unat max_bytes) \<and>
       (max_bytes = 0 \<or> bytes (rs_body resp) \<le> unat max_bytes \<longrightarrow> rs_body r = rs_body resp) \<and>
       hm_get_all H (rs_headers r) n =
         (if n = EXPOSE_URL_HEADER then [url_as_str U (tu_url target)]
          else if n = VIA then
            [(case kept VIA of first # _ \<Rightarrow> if visible first then first @ '', '' else [] | [] \<Rightarrow> []) @ VIA_HEADER_VALUE]
          else if n = LOCATION \<and> pol = Rewrite then
            (case kept LOCATION of
               [] \<Rightarrow> []
             | first # further \<Rightarrow>
                 if visible first \<and> (starts_with ''http://'' first \<or> starts_with ''https://'' first)
                 then [''/'' @ first] else first # further)
          else kept n)"
proof -
  let ?r = "shape_response H U resp b target pol"
  have "rs_body ?r = wrapped_body (limiting_poll (counting_poll body_poll)) (length (rs_body resp))
      (limiting_new (counting_new (rs_body resp) ''response'') (lm_max_response_body_bytes (sb_immutable_limits b)))"
    "rs_status ?r = rs_status resp"
    by (simp_all add: shape_response_def Let_def)
  moreover note shape_body [OF assms(2), of "rs_body resp"]
  moreover have "hv_from_str H (url_as_str U (tu_url target)) = Some (url_as_str U (tu_url target))"
    by (rule header_map.from_str_visible [OF assms(1,3)])
  ultimately show ?thesis
    unfolding Let_def header_map.get_all_shape_response [OF assms(1)] by (auto simp: rewritten_location_def split: list.split)
qed

lemma shape_response_delivers_witness:
  "rs_body (shape_response list_headers plain_urls example_ok example_server example_target Rewrite) =
     full_body ''hello'' \<and>
   hm_get_all list_headers (rs_headers
     (shape_response list_headers plain_urls example_ok example_server example_target Rewrite)) EXPOSE_URL_HEADER =
     [''http://a.test/v1'']"
proof -
  have "unat (50 * MIB) = 52428800" by (simp add: MIB_def)
  moreover have "(50 * MIB :: u64) < - 1" by (simp add: MIB_def word_less_nat_alt unat_max64)
  moreover have url: "url_as_str plain_urls (tu_url example_target) = ''http://a.test/v1''"
    by (simp add: example_target_def plain_urls_eval)
  moreover have "visible (url_as_str plain_urls (tu_url example_target))" by (simp add: url str_simps)
  ultimately show ?thesis
    using shape_response_delivers [OF list_hdrs.header_map_axioms, of example_server plain_urls example_target
        example_ok Rewrite EXPOSE_URL_HEADER]
    by (simp add: Let_def example_server_def default_limits_config_def
        default_max_response_body_bytes_def example_ok_def full_body_def)
qed

end
