(* ===== verification/Router.thy ===== *)
theory Router
  imports Handlers Auth Load_Shed
begin

text \<open>
  The router and its layers: \<open>corx-server/src/router.rs\<close> with \<open>middleware/header_limit.rs\<close>,
  \<open>middleware/auth.rs\<close> (the layer), \<open>middleware/cors.rs\<close> and \<open>middleware/access_log.rs\<close>. Matching a
  path is the exact match of the crate \<open>axum\<close> for these routes; a \<open>get\<close> route also answers \<open>HEAD\<close>,
  without a body. Three layers add nothing to the model: tracing, the panic catcher (nothing here
  panics) and \<open>DefaultBodyLimit\<close>, which only limits the extractors that buffer a body, while the
  proxy handler takes the raw request.
\<close>

subsection \<open>The header limit\<close>

definition header_map_bytes :: "'h header_lib \<Rightarrow> 'h \<Rightarrow> u64" where
  "header_map_bytes H headers =
     foldl (\<lambda>total (name, value).
       sat_add (sat_add total (of_nat (length name))) (of_nat (length value))) 0 (hm_entries H headers)"

definition header_limit_layer ::
  "'h header_lib \<Rightarrow> ('h, 'w, ('m, 'gs, 'gi, 'gd, 'ms, 'mi, 'r) server_build) service \<Rightarrow>
     ('h, 'w, ('m, 'gs, 'gi, 'gd, 'ms, 'mi, 'r) server_build) service" where
  "header_limit_layer H next_service request w b =
     (if (ucast (lm_max_request_header_bytes (sb_immutable_limits b)) :: u64)
          < header_map_bytes H (rq_headers request)
      then ([], [], Ready (text_response H 431 ''request header fields too large''), w, b)
      else next_service request w b)"

subsection \<open>Authentication\<close>

definition auth_layer ::
  "'h header_lib \<Rightarrow> ('h, 'w, ('m, 'gs, 'gi, 'gd, 'ms, 'mi, 'r) server_build) service \<Rightarrow>
     ('h, 'w, ('m, 'gs, 'gi, 'gd, 'ms, 'mi, 'r) server_build) service" where
  "auth_layer H next_service request w b =
     (if rq_method request = ''OPTIONS'' \<or>
         is_ops_path (sb_immutable_metrics_endpoint b) (u_path (rq_uri request))
      then next_service request w b
      else
        (let auth = sc_auth (cf_security (lp_config (sb_policies b)))
         in if au_mode auth \<noteq> Bearer then next_service request w b
            else (case check_bearer H (rq_headers request) (au_bearer_tokens auth) of
                    Inr _ \<Rightarrow> next_service request w b
                  | Inl err \<Rightarrow> ([], [], Ready (into_response H err), w, b))))"

subsection \<open>Timeout, CORS and the access log\<close>

text \<open>
  The timer drops the future behind it and answers for it; \<open>timed_out\<close> tells a drop by the timer
  from one by a client that is gone.
\<close>

definition timeout_layer ::
  "'h header_lib \<Rightarrow> ('w \<Rightarrow> bool) \<Rightarrow> ('h, 'w, 'b) service \<Rightarrow> ('h, 'w, 'b) service" where
  "timeout_layer H timed_out next_service request w b =
     (case next_service request w b of
        (ms, ev, Dropped, w, b) \<Rightarrow>
          (if timed_out w
           then (ms, ev, Ready \<lparr>rs_status = 504, rs_headers = hm_new H, rs_body = []\<rparr>, w, b)
           else (ms, ev, Dropped, w, b))
      | (ms, ev, Ready r, w, b) \<Rightarrow> (ms, ev, Ready r, w, b))"

definition cors_layer ::
  "'h header_lib \<Rightarrow> ('h, 'w, ('m, 'gs, 'gi, 'gd, 'ms, 'mi, 'r) server_build) service \<Rightarrow>
     ('h, 'w, ('m, 'gs, 'gi, 'gd, 'ms, 'mi, 'r) server_build) service" where
  "cors_layer H next_service request w b =
     (let request_headers = rq_headers request
      in case next_service request w b of
           (ms, ev, Dropped, w, b) \<Rightarrow> (ms, ev, Dropped, w, b)
         | (ms, ev, Ready response, w, b) \<Rightarrow>
             (ms, ev,
              Ready (apply_to_response H response request_headers (lp_cors (sb_policies b))), w, b))"

text \<open>The line the access log writes for a request that got a response (its duration left out).\<close>

record access_entry =
  ac_method :: string
  ac_path :: string
  ac_status :: nat
  ac_client_ip :: string
  ac_origin :: string
  ac_request_id :: string
  ac_error_kind :: string

definition text_header :: "'h header_lib \<Rightarrow> 'h \<Rightarrow> header_name \<Rightarrow> string" where
  "text_header H headers n =
     (case Option.bind (hm_get H headers n) (hv_to_str H) of Some s \<Rightarrow> s | None \<Rightarrow> [])"

definition access_log_layer ::
  "'h header_lib \<Rightarrow> ip_addr \<Rightarrow> ('h, 'w, 'b) service \<Rightarrow> 'h request \<Rightarrow> 'w \<Rightarrow> 'b \<Rightarrow>
     access_entry option \<times> metric list \<times> 'h hop_event list \<times> 'h response awaited \<times> 'w \<times> 'b" where
  "access_log_layer H peer next_service request w b =
     (case next_service request w b of
        (ms, ev, Dropped, w, b) \<Rightarrow> (None, ms, ev, Dropped, w, b)
      | (ms, ev, Ready response, w, b) \<Rightarrow>
          (Some \<lparr>ac_method = rq_method request, ac_path = u_path (rq_uri request),
                 ac_status = rs_status response, ac_client_ip = show_ip peer,
                 ac_origin = text_header H (rq_headers request) ORIGIN,
                 ac_request_id = text_header H (rq_headers request) REQUEST_ID_HEADER,
                 ac_error_kind = text_header H (rs_headers response) STATUS_HEADER\<rparr>,
           ms, ev, Ready response, w, b))"

subsection \<open>Routes\<close>

definition ops_route ::
  "'h header_lib \<Rightarrow> string \<Rightarrow> ('m, 'gs, 'gi, 'gd, 'ms, 'mi, 'r) server_build \<Rightarrow> string \<Rightarrow>
     'h response option" where
  "ops_route H rendered b path =
     (if path = ''/'' then Some (usage H)
      else if path = ''/livez'' then Some (livez H)
      else if path = ''/readyz'' then Some (readyz H (sb_ready b))
      else if path = ''/healthz'' then Some (healthz H (sb_ready b))
      else if path = ''/iscorsneeded'' then Some (is_cors_needed H)
      else if sb_immutable_metrics_endpoint b \<noteq> [] \<and> path = sb_immutable_metrics_endpoint b
      then Some (prometheus_metrics H rendered)
      else None)"

definition respond :: "'h header_lib \<Rightarrow> 'h response res awaited \<Rightarrow> 'h response awaited" where
  "respond H outcome =
     (case outcome of
        Ready (Inr r) \<Rightarrow> Ready r
      | Ready (Inl e) \<Rightarrow> Ready (into_response H e)
      | Dropped \<Rightarrow> Dropped)"

definition route_service ::
  "'h header_lib \<Rightarrow> 'u url_lib \<Rightarrow> net_lib \<Rightarrow> 'm hosts_lib \<Rightarrow>
     ('gs, 'gi, 'gd, 'ms, 'mi, 'r) limiter_lib \<Rightarrow>
     ('w, 'h, 'm, ('m, 'gs, 'gi, 'gd, 'ms, 'mi, 'r) server_build) serve_env \<Rightarrow> ('w \<Rightarrow> string) \<Rightarrow>
     ip_addr \<Rightarrow> ('h, 'w, ('m, 'gs, 'gi, 'gd, 'ms, 'mi, 'r) server_build) service" where
  "route_service H U N D L E render peer request w b =
     (case ops_route H (render w) b (u_path (rq_uri request)) of
        Some response \<Rightarrow>
          ([], [],
           Ready (if rq_method request = ''GET'' then response
                  else if rq_method request = ''HEAD'' then response\<lparr>rs_body := []\<rparr>
                  else not_found H), w, b)
      | None \<Rightarrow>
          (case proxy H U N D L E request peer w b of
             (ms, ev, outcome, w, b) \<Rightarrow> (ms, ev, respond H outcome, w, b)))"

definition build_router ::
  "'h header_lib \<Rightarrow> 'u url_lib \<Rightarrow> net_lib \<Rightarrow> 'm hosts_lib \<Rightarrow>
     ('gs, 'gi, 'gd, 'ms, 'mi, 'r) limiter_lib \<Rightarrow>
     ('w, 'h, 'm, ('m, 'gs, 'gi, 'gd, 'ms, 'mi, 'r) server_build) serve_env \<Rightarrow> ('w \<Rightarrow> string) \<Rightarrow>
     ('w \<Rightarrow> bool) \<Rightarrow> ip_addr \<Rightarrow> 'h request \<Rightarrow> 'w \<Rightarrow>
     ('m, 'gs, 'gi, 'gd, 'ms, 'mi, 'r) server_build \<Rightarrow>
     access_entry option \<times> metric list \<times> 'h hop_event list \<times> 'h response awaited \<times> 'w \<times>
     ('m, 'gs, 'gi, 'gd, 'ms, 'mi, 'r) server_build" where
  "build_router H U N D L E render timed_out peer =
     access_log_layer H peer
       (cors_layer H
         (timeout_layer H timed_out
           (header_limit_layer H
             (load_shed_layer H
               (auth_layer H
                 (route_service H U N D L E render peer))))))"

subsection \<open>The layers around a service\<close>

text \<open>What each layer answers when the service behind it is not reached, or is.\<close>

lemma header_limit_cases:
  assumes "header_limit_layer H next_service request w b = (ms, ev, r, w', b')"
  obtains (refused) "ev = []" "w' = w" "b' = b"
      "r = Ready (text_response H 431 ''request header fields too large'')"
  | (passed) "next_service request w b = (ms, ev, r, w', b')"
  using assms by (auto simp: header_limit_layer_def split: if_splits)

lemma load_shed_cases:
  assumes "load_shed_layer H next_service request w b = (ms, ev, r, w', b')"
  obtains (refused) "ev = []" "w' = w" "b' = b" "r = Ready (shed_response H)"
  | (off) "next_service request w b = (ms, ev, r, w', b')"
  | (permit) b'' where
      "next_service request w (b\<lparr>sb_inflight := sb_inflight b + 1\<rparr>) = (ms, ev, r, w', b'')"
      "b' = permit_drop b''"
  using assms by (auto simp: load_shed_layer_def Let_def split: if_splits prod.splits)

lemma auth_cases:
  assumes "auth_layer H next_service request w b = (ms, ev, r, w', b')"
  obtains (refused) e where "ev = []" "w' = w" "b' = b" "r = Ready (into_response H e)"
      "check_bearer H (rq_headers request)
         (au_bearer_tokens (sc_auth (cf_security (lp_config (sb_policies b))))) = Inl e"
  | (passed) "next_service request w b = (ms, ev, r, w', b')"
      "au_mode (sc_auth (cf_security (lp_config (sb_policies b)))) = Bearer \<Longrightarrow>
       rq_method request \<noteq> ''OPTIONS'' \<Longrightarrow>
       \<not> is_ops_path (sb_immutable_metrics_endpoint b) (u_path (rq_uri request)) \<Longrightarrow>
       check_bearer H (rq_headers request)
         (au_bearer_tokens (sc_auth (cf_security (lp_config (sb_policies b))))) = Inr ()"
  using assms by (auto simp: auth_layer_def Let_def split: if_splits sum.splits)

lemma timeout_cases:
  assumes "timeout_layer H timed_out next_service request w b = (ms, ev, Ready r, w', b')"
  obtains (fired) "next_service request w b = (ms, ev, Dropped, w', b')"
      "r = \<lparr>rs_status = 504, rs_headers = hm_new H, rs_body = []\<rparr>"
  | (passed) "next_service request w b = (ms, ev, Ready r, w', b')"
  using assms by (auto simp: timeout_layer_def split: prod.splits awaited.splits if_splits)

lemma router_cases:
  assumes "build_router H U N D L E render timed_out peer request w b = (entry, ms, ev, Ready r, w', b')"
  obtains r0 where
    "timeout_layer H timed_out (header_limit_layer H (load_shed_layer H (auth_layer H
       (route_service H U N D L E render peer)))) request w b = (ms, ev, Ready r0, w', b')"
    "r = apply_to_response H r0 (rq_headers request) (lp_cors (sb_policies b'))"
  using assms
  by (auto simp: build_router_def access_log_layer_def cors_layer_def Let_def
      split: prod.splits awaited.splits)

lemma check_bearer_error: "check_bearer H headers tokens = Inl e \<Longrightarrow> error_kind_of e = UnauthorizedKind"
  by (auto simp: check_bearer_def Let_def split: option.splits if_splits)

lemma inflight_restored [simp]: "permit_drop (b\<lparr>sb_inflight := sb_inflight b + 1\<rparr>) = b"
  by (simp add: permit_drop_def)

subsection \<open>Responses the server makes itself\<close>

definition cors_lines :: "'h header_lib \<Rightarrow> 'h response \<Rightarrow> header_value list \<times> header_value list" where
  "cors_lines H r = (hm_get_all H (rs_headers r) ACAO, hm_get_all H (rs_headers r) ACAC)"

text \<open>The two lines a policy gives a request, and a response that carries none or exactly those.\<close>

definition policy_lines :: "'h header_lib \<Rightarrow> cors_policy \<Rightarrow> 'h \<Rightarrow> header_value list \<times> header_value list" where
  "policy_lines H p rq =
     (case resolve_allow_origin H p (hm_get H rq ORIGIN) of
        None \<Rightarrow> ([], [])
      | Some a \<Rightarrow> ([a], if cp_allow_credentials p then [''true''] else []))"

definition own_lines :: "'h header_lib \<Rightarrow> cors_policy \<Rightarrow> 'h \<Rightarrow> 'h response \<Rightarrow> bool" where
  "own_lines H p rq r \<longleftrightarrow> cors_lines H r \<in> {([], []), policy_lines H p rq}"

lemma own_names [simp]:
  "CONTENT_TYPE \<noteq> ACAO" "CONTENT_TYPE \<noteq> ACAC" "ACAO \<noteq> CONTENT_TYPE" "ACAC \<noteq> CONTENT_TYPE"
  "ACAO \<noteq> STATUS_HEADER" "ACAC \<noteq> STATUS_HEADER" "ACAO \<noteq> RETRY_AFTER" "ACAC \<noteq> RETRY_AFTER"
  by (simp_all add: CONTENT_TYPE_def STATUS_HEADER_def RETRY_AFTER_def cors_names)

context header_map begin

lemma cors_lines_own:
  "cors_lines H (typed_response H s t x) = ([], [])"
  "cors_lines H (text_response H s x) = ([], [])"
  "cors_lines H (json_response H s m) = ([], [])"
  "cors_lines H (shed_response H) = ([], [])"
  "cors_lines H (into_response H e) = ([], [])"
  "cors_lines H \<lparr>rs_status = n, rs_headers = hm_new H, rs_body = bd\<rparr> = ([], [])"
  by (simp_all add: cors_lines_def typed_response_def text_response_def json_response_def
      shed_response_def into_response_parts hm_simps Let_def)

lemma cors_lines_ops: "ops_route H rendered b path = Some r \<Longrightarrow> cors_lines H r = ([], [])"
  by (auto simp: ops_route_def usage_def livez_def readyz_def healthz_def is_cors_needed_def
      prometheus_metrics_def cors_lines_own split: if_splits)

lemma cors_lines_preflight:
  "cors_lines H (build_preflight_response H req p) = policy_lines H p (rq_headers req)"
  by (auto simp: cors_lines_def policy_lines_def get_all_preflight get_all_preflight_base
      get_all_cors_base get_all_new Let_def split: option.split)

lemma cors_lines_stamped:
  "cors_lines H (apply_to_response H r rq p) =
     (case resolve_allow_origin H p (hm_get H rq ORIGIN) of
        None \<Rightarrow> cors_lines H r
      | Some a \<Rightarrow> ([a], if cp_allow_credentials p then [''true''] else snd (cors_lines H r)))"
  by (auto simp: cors_lines_def get_all_response split: option.split)

lemma own_lines_stamped:
  "own_lines H p rq r \<Longrightarrow> cors_lines H (apply_to_response H r rq p) = policy_lines H p rq"
  by (auto simp: own_lines_def cors_lines_stamped policy_lines_def split: option.splits)

end

text \<open>A request that sent nothing upstream was answered by the server itself.\<close>

lemma execute_silent:
  assumes "execute H U D E u request w cb = (ms, [], r, w', cb')"
  shows "\<exists>e. r = Ready (Inl e)"
proof -
  let ?st = "from_initial (rq_method request) (rq_uri request) (rq_headers request)"
  obtain ms1 ev1 t w1 cb1 where
    turn: "hop_turn H U D E u (host_of (rq_uri request)) ?st 0 request w cb = (ms1, ev1, t, w1, cb1)"
    by (cases "hop_turn H U D E u (host_of (rq_uri request)) ?st 0 request w cb")
  note run = execute_run [OF assms, unfolded execute_loop.simps
      [of H U D E u "host_of (rq_uri request)" ?st 0 request w cb] turn]
  from turn show ?thesis
  proof (cases rule: hop_turn_events)
    case (refused e)
    with run show ?thesis by auto
  next
    case (hop e)
    with run have False by (auto simp: hop_events_def split: turn.splits prod.splits)
    then show ?thesis ..
  qed
qed

lemma execute_proxy_silent:
  assumes "execute_proxy H U D E request target ip w b = (ms, [], r, w', b')"
  shows "\<exists>e. r = Ready (Inl e)"
  using assms
  by (auto simp: execute_proxy_def Let_def dest!: execute_silent
      split: sum.splits prod.splits awaited.splits)

lemma preflight_guards_cors:
  "lp_cors (sb_policies (snd (preflight_guards H U N L now request ip b))) = lp_cors (sb_policies b)"
  by (simp add: preflight_guards_def Let_def with_guard_def split: sum.split prod.split)

lemma serve_silent:
  assumes "serve H U N D L E request ip w b = (ms, [], r, w', b')"
  shows "(\<exists>e. r = Ready (Inl e)) \<or>
    r = Ready (Inr (build_preflight_response H request (lp_cors (sb_policies b'))))"
proof (cases "is_preflight H request")
  case True
  with assms preflight_guards_cors [of H U N L "ce_now (se_client E) w" request ip b] show ?thesis
    by (auto simp: serve_def Let_def split: prod.splits sum.splits)
next
  case False
  with assms show ?thesis
    by (auto simp: serve_def Let_def dest: execute_proxy_silent split: prod.splits sum.splits)
qed

lemma route_silent:
  assumes "header_map H" "route_service H U N D L E render peer request w b = (ms, [], Ready r, w', b')"
  shows "own_lines H (lp_cors (sb_policies b')) (rq_headers request) r"
proof (cases "ops_route H (render w) b (u_path (rq_uri request))")
  case (Some resp)
  have "cors_lines H (resp\<lparr>rs_body := []\<rparr>) = cors_lines H resp" by (simp add: cors_lines_def)
  with Some assms(2) header_map.cors_lines_ops [OF assms(1) Some] header_map.cors_lines_own [OF assms(1)]
  show ?thesis by (auto simp: route_service_def own_lines_def not_found_def)
next
  case None
  obtain ms0 outcome where p: "proxy H U N D L E request peer w b = (ms0, [], outcome, w', b')"
    and r: "respond H outcome = Ready r"
    using None assms(2) by (auto simp: route_service_def split: prod.splits)
  from p obtain ms1 where "serve H U N D L E request peer w b = (ms1, [], outcome, w', b')"
    by (auto simp: proxy_def Let_def split: prod.splits)
  from serve_silent [OF this] r header_map.cors_lines_own [OF assms(1)]
    header_map.cors_lines_preflight [OF assms(1)]
  show ?thesis by (auto simp: respond_def own_lines_def)
qed

lemma own_lines_plain: "cors_lines H r = ([], []) \<Longrightarrow> own_lines H p rq r"
  by (simp add: own_lines_def)

lemma permit_drop_policies [simp]: "sb_policies (permit_drop b) = sb_policies b"
  by (simp add: permit_drop_def)

lemma auth_silent:
  assumes "header_map H"
    "auth_layer H (route_service H U N D L E render peer) request w b = (ms, [], Ready r, w', b')"
  shows "own_lines H (lp_cors (sb_policies b')) (rq_headers request) r"
  using assms(2)
proof (cases rule: auth_cases)
  case (refused e)
  then show ?thesis
    using header_map.cors_lines_own [OF assms(1)] by (simp add: own_lines_plain)
next
  case passed
  show ?thesis by (rule route_silent [OF assms(1) passed(1)])
qed

lemma load_shed_silent:
  assumes "header_map H"
    "load_shed_layer H (auth_layer H (route_service H U N D L E render peer)) request w b =
       (ms, [], Ready r, w', b')"
  shows "own_lines H (lp_cors (sb_policies b')) (rq_headers request) r"
  using assms(2)
proof (cases rule: load_shed_cases)
  case refused
  then show ?thesis
    using header_map.cors_lines_own [OF assms(1)] by (simp add: own_lines_plain)
next
  case off
  show ?thesis by (rule auth_silent [OF assms(1) off])
next
  case (permit b'')
  from auth_silent [OF assms(1) permit(1)] permit(2) show ?thesis by simp
qed

lemma stack_silent:
  assumes "header_map H"
    "timeout_layer H timed_out (header_limit_layer H (load_shed_layer H (auth_layer H
       (route_service H U N D L E render peer)))) request w b = (ms, [], Ready r, w', b')"
  shows "own_lines H (lp_cors (sb_policies b')) (rq_headers request) r"
  using assms(2)
proof (cases rule: timeout_cases)
  case fired
  then show ?thesis
    using header_map.cors_lines_own [OF assms(1)] by (simp add: own_lines_plain)
next
  case passed
  then show ?thesis
  proof (cases rule: header_limit_cases)
    case refused
    then show ?thesis
      using header_map.cors_lines_own [OF assms(1)] by (auto simp: own_lines_plain)
  next
    case passed
    show ?thesis by (rule load_shed_silent [OF assms(1) passed])
  qed
qed

text \<open>With credentials a validated policy never answers an origin that is not listed.\<close>

lemma validated_credentials:
  assumes "header_map H" "cors_safe cfg" "cc_allow_credentials (cf_cors cfg)"
    "resolve_allow_origin H (cors_from_config H (cf_cors cfg)) org = Some a"
  shows "org = Some a \<and> a \<in> set (cc_origins (cf_cors cfg))"
  using assms(2,3) assms(4) [unfolded header_map.resolve_iff [OF assms(1)]]
  by (cases "cc_policy (cf_cors cfg)")
     (auto simp: cors_safe_def admits_origin_def cors_from_config_def compile_mode_def to_origin_set_def
       split: if_splits)

text \<open>
  Two consequences of the routing: \<open>OPTIONS\<close> is never authenticated, preflight or not, and a
  \<open>GET\<close> of the root path is answered by the usage text whatever its query names.
\<close>

lemma options_not_authenticated:
  "rq_method request = ''OPTIONS'' \<Longrightarrow> auth_layer H next_service request w b = next_service request w b"
  by (simp add: auth_layer_def)

lemma root_query_is_usage:
  "u_path (rq_uri request) = ''/'' \<Longrightarrow> rq_method request = ''GET'' \<Longrightarrow>
     route_service H U N D L E render peer request w b = ([], [], Ready (usage H), w, b)"
  by (simp add: route_service_def ops_route_def)

subsection \<open>Properties\<close>

text \<open>
  C8. Without a valid token nothing happens: when bearer authentication is on, a request that is not
  \<open>OPTIONS\<close>, not for an operational path and without a configured token is answered 401 (or 431 or
  503 by the layers before), nothing is sent upstream, and no budget, breaker, counter or other
  state of the server changes.
\<close>

theorem router_requires_token:
  assumes "au_mode (sc_auth (cf_security (lp_config (sb_policies b)))) = Bearer"
    "check_bearer H (rq_headers request)
       (au_bearer_tokens (sc_auth (cf_security (lp_config (sb_policies b))))) \<noteq> Inr ()"
    "rq_method request \<noteq> ''OPTIONS''"
    "\<not> is_ops_path (sb_immutable_metrics_endpoint b) (u_path (rq_uri request))"
  shows "\<exists>entry ms resp. build_router H U N D L E render timed_out peer request w b =
      (Some entry, ms, [], Ready resp, w, b) \<and> rs_status resp \<in> {401, 431, 503}"
proof -
  obtain e where e: "check_bearer H (rq_headers request)
      (au_bearer_tokens (sc_auth (cf_security (lp_config (sb_policies b))))) = Inl e"
    using assms(2) by (cases "check_bearer H (rq_headers request)
      (au_bearer_tokens (sc_auth (cf_security (lp_config (sb_policies b)))))") auto
  have auth: "auth_layer H (route_service H U N D L E render peer) request w b' =
      ([], [], Ready (into_response H e), w, b')"
    if "sb_policies b' = sb_policies b" "sb_immutable_metrics_endpoint b' = sb_immutable_metrics_endpoint b" for b'
    using assms(1,3,4) e that by (simp add: auth_layer_def)
  have status: "rs_status (into_response H e) = 401"
    using check_bearer_error [OF e]
    by (simp add: into_response_def to_payload_def Let_def json_response_def typed_response_def
        split: option.split)
  have shed: "\<exists>ms r. load_shed_layer H (auth_layer H (route_service H U N D L E render peer)) request w b =
      (ms, [], Ready r, w, b) \<and> rs_status r \<in> {401, 503}"
    by (simp add: load_shed_layer_def Let_def auth status)
       (simp add: shed_response_def text_response_def typed_response_def Let_def)
  then have "\<exists>ms r. header_limit_layer H (load_shed_layer H (auth_layer H
      (route_service H U N D L E render peer))) request w b = (ms, [], Ready r, w, b) \<and>
      rs_status r \<in> {401, 431, 503}"
    by (auto simp: header_limit_layer_def text_response_def typed_response_def)
  then show ?thesis
    by (auto simp: build_router_def access_log_layer_def cors_layer_def timeout_layer_def Let_def
        apply_to_response_def)
qed

definition example_bearer_server where
  "example_bearer_server = example_server
     \<lparr>sb_policies := (sb_policies example_server)
        \<lparr>lp_config := default_config
           \<lparr>cf_security := default_security_config
              \<lparr>sc_auth := \<lparr>au_mode = Bearer, au_bearer_tokens = [''s3cret'']\<rparr>\<rparr>\<rparr>\<rparr>\<rparr>"

lemma router_requires_token_witness:
  "\<exists>entry ms resp. build_router list_headers plain_urls plain_nets alist_dash example_limiters
       example_serve_env (\<lambda>_. []) (\<lambda>_. False) (V4 1) example_inbound [example_ok] example_bearer_server =
     (Some entry, ms, [], Ready resp, [example_ok], example_bearer_server) \<and>
     rs_status resp \<in> {401, 431, 503}"
proof (rule router_requires_token)
  show "check_bearer list_headers (rq_headers example_inbound)
      (au_bearer_tokens (sc_auth (cf_security (lp_config (sb_policies example_bearer_server))))) \<noteq> Inr ()"
    by (simp add: check_bearer_def example_inbound_def list_headers_sel ORIGIN_def AUTHORIZATION_def)
qed (simp_all add: example_bearer_server_def example_server_def example_inbound_def is_ops_path_def)

text \<open>
  C9. Every response leaves through the CORS layer, also 401, 431, 503 and 504. If the policy admits the
  request's origin the response carries exactly that \<open>Access-Control-Allow-Origin\<close>, and
  \<open>Access-Control-Allow-Credentials\<close> when the policy allows credentials; a validated configuration
  grants them to origins of its list only, never by the wildcard. A response the server made itself
  carries nothing else. On a proxied response the two lines the upstream sent survive wherever the
  policy sets none: both for an origin that is not admitted, and the upstream's grant of credentials
  for an admitted origin when the policy allows no credentials.
\<close>

theorem router_stamps_cors:
  assumes "header_map H"
    "build_router H U N D L E render timed_out peer request w b = (entry, ms, ev, Ready r, w', b')"
    "lp_cors (sb_policies b') = cors_from_config H (cf_cors cfg)" "cors_safe cfg"
  shows "\<exists>behind.
    timeout_layer H timed_out (header_limit_layer H (load_shed_layer H (auth_layer H
      (route_service H U N D L E render peer)))) request w b = (ms, ev, Ready behind, w', b') \<and>
    (let org = hm_get H (rq_headers request) ORIGIN;
         decision = resolve_allow_origin H (lp_cors (sb_policies b')) org;
         granted = (decision \<noteq> None \<and> cc_allow_credentials (cf_cors cfg));
         acao = hm_get_all H (rs_headers r) ACAO; acac = hm_get_all H (rs_headers r) ACAC
     in acao = (case decision of Some a \<Rightarrow> [a] | None \<Rightarrow> if ev = [] then [] else hm_get_all H (rs_headers behind) ACAO) \<and>
        acac = (if granted then [''true''] else if ev = [] then [] else hm_get_all H (rs_headers behind) ACAC) \<and>
        (granted \<longrightarrow> (\<exists>a. org = Some a \<and> acao = [a] \<and> a \<in> set (cc_origins (cf_cors cfg)))))"
  using assms(2)
proof (cases rule: router_cases)
  case (1 r0)
  let ?p = "lp_cors (sb_policies b')" and ?org = "hm_get H (rq_headers request) ORIGIN"
  note stamped = header_map.cors_lines_stamped [OF assms(1), of r0 "rq_headers request" ?p]
  have creds: "cp_allow_credentials ?p = cc_allow_credentials (cf_cors cfg)"
    using assms(3) by (simp add: cors_from_config_def)
  have own: "cors_lines H r = policy_lines H ?p (rq_headers request)" if "ev = []"
    using stack_silent [OF assms(1), of timed_out U N D L E render peer request w b ms r0 w' b'] 1 that
      header_map.own_lines_stamped [OF assms(1)] by simp
  show ?thesis
  proof (intro exI [of _ r0] conjI)
    show "timeout_layer H timed_out (header_limit_layer H (load_shed_layer H (auth_layer H
        (route_service H U N D L E render peer)))) request w b = (ms, ev, Ready r0, w', b')"
      by (rule 1(1))
  next
    show "let org = ?org; decision = resolve_allow_origin H ?p org; granted = (decision \<noteq> None \<and> cc_allow_credentials (cf_cors cfg));
         acao = hm_get_all H (rs_headers r) ACAO; acac = hm_get_all H (rs_headers r) ACAC
     in acao = (case decision of Some a \<Rightarrow> [a] | None \<Rightarrow> if ev = [] then [] else hm_get_all H (rs_headers r0) ACAO) \<and>
        acac = (if granted then [''true''] else if ev = [] then [] else hm_get_all H (rs_headers r0) ACAC) \<and>
        (granted \<longrightarrow> (\<exists>a. org = Some a \<and> acao = [a] \<and> a \<in> set (cc_origins (cf_cors cfg))))"
    proof (cases "resolve_allow_origin H ?p ?org")
      case None
      with own stamped 1(2) show ?thesis by (auto simp: policy_lines_def cors_lines_def Let_def)
    next
      case (Some a)
      with validated_credentials [OF assms(1,4), of ?org a] assms(3)
      have "cc_allow_credentials (cf_cors cfg) \<Longrightarrow> ?org = Some a \<and> a \<in> set (cc_origins (cf_cors cfg))"
        by simp
      with Some own stamped 1(2) creds show ?thesis
        by (auto simp: policy_lines_def cors_lines_def Let_def split: if_splits)
    qed
  qed
qed

definition example_cors_server where
  "example_cors_server = example_server
     \<lparr>sb_policies := (sb_policies example_server)
        \<lparr>lp_cors := cors_from_config list_headers
           (default_cors_config\<lparr>cc_origins := [''https://app''], cc_allow_credentials := True\<rparr>)\<rparr>\<rparr>"

definition example_probe :: "entries request" where
  "example_probe = example_inbound\<lparr>rq_uri := (rq_uri example_inbound)\<lparr>u_path := ''/livez''\<rparr>\<rparr>"

lemma example_probe_served:
  "\<exists>entry ms r. build_router list_headers plain_urls plain_nets alist_dash example_limiters
     example_serve_env (\<lambda>_. []) (\<lambda>_. False) (V4 1) example_probe [example_ok] example_cors_server =
   (entry, ms, [], Ready r, [example_ok], example_cors_server)"
  by (simp add: build_router_def access_log_layer_def cors_layer_def timeout_layer_def
      header_limit_layer_def load_shed_layer_def auth_layer_def is_ops_path_def route_service_def
      ops_route_def example_probe_def example_inbound_def example_cors_server_def example_server_def
      default_limits_config_def default_inflight_max_def permit_drop_def header_map_bytes_def
      list_headers_sel ORIGIN_def sat_add_def Let_def)

lemma router_stamps_cors_witness:
  "\<exists>entry ms r. build_router list_headers plain_urls plain_nets alist_dash example_limiters
       example_serve_env (\<lambda>_. []) (\<lambda>_. False) (V4 1) example_probe [example_ok] example_cors_server =
     (entry, ms, [], Ready r, [example_ok], example_cors_server) \<and>
     hm_get_all list_headers (rs_headers r) ACAO = [''https://app'']"
proof -
  obtain entry ms r where run: "build_router list_headers plain_urls plain_nets alist_dash example_limiters
      example_serve_env (\<lambda>_. []) (\<lambda>_. False) (V4 1) example_probe [example_ok] example_cors_server =
      (entry, ms, [], Ready r, [example_ok], example_cors_server)"
    using example_probe_served by blast
  let ?cfg = "default_config\<lparr>cf_cors := default_cors_config
      \<lparr>cc_origins := [''https://app''], cc_allow_credentials := True\<rparr>\<rparr>"
  have "lp_cors (sb_policies example_cors_server) = cors_from_config list_headers (cf_cors ?cfg)"
    by (simp add: example_cors_server_def)
  moreover have "cors_safe ?cfg" by (simp add: cors_safe_def default_cors_config_def)
  moreover have "resolve_allow_origin list_headers (lp_cors (sb_policies example_cors_server))
      (hm_get list_headers (rq_headers example_probe) ORIGIN) = Some ''https://app''"
    by (simp add: example_cors_server_def example_probe_def example_inbound_def
        resolve_allow_origin_def cors_from_config_def compile_mode_def to_origin_set_def
        default_cors_config_def list_headers_sel ORIGIN_def visible_byte_def)
  ultimately show ?thesis
    using router_stamps_cors [OF list_hdrs.header_map_axioms run, of ?cfg] run by (simp add: Let_def)
qed

end
