(* ===== verification/Metrics.thy ===== *)
theory Metrics
  imports Telemetry Config
begin

text \<open>
  The Prometheus recorder: \<open>corx-server/src/observability/metrics.rs\<close>. The exporter (crates
  \<open>metrics\<close> and \<open>metrics-exporter-prometheus\<close>) is a parameter: a builder \<open>'p\<close>, a handle \<open>'t\<close> and
  the recorder slot of the process \<open>'g\<close>, in which descriptions and gauges are kept. The bounds of
  histogram buckets (\<open>f64\<close>) are given in thousandths.
\<close>

subsection \<open>Build features\<close>

text \<open>The Cargo features a binary is built with; \<open>mtls\<close> implies \<open>tls\<close>.\<close>

record build_features =
  ft_tls :: bool
  ft_mtls :: bool
  ft_fips :: bool
  ft_otel :: bool

definition active_features :: "build_features \<Rightarrow> string" where
  "active_features F =
     (let candidates =
            [(ft_tls F, ''tls''), (ft_mtls F, ''mtls''), (ft_fips F, ''fips''), (ft_otel F, ''otel'')];
          active = List.map_filter (\<lambda>(on, name). if on then Some name else None) candidates
      in if active = [] then ''none'' else join '','' active)"

subsection \<open>The exporter\<close>

datatype metric_kind = Counter | Histogram | Gauge_Kind

datatype metric_unit = Unit_Count | Unit_Seconds | Unit_Bytes

record description =
  de_kind :: metric_kind
  de_name :: string
  de_unit :: metric_unit
  de_text :: string

record ('p, 't, 'g) prometheus_lib =
  pl_new :: 'p
  pl_set_buckets :: "'p \<Rightarrow> string \<Rightarrow> nat list \<Rightarrow> string + 'p"
  pl_install :: "'p \<Rightarrow> 'g \<Rightarrow> (string + 't) \<times> 'g"
  pl_describe :: "description \<Rightarrow> 'g \<Rightarrow> 'g"
  pl_set_gauge :: "string \<Rightarrow> (string \<times> string) list \<Rightarrow> nat \<Rightarrow> 'g \<Rightarrow> 'g"
  pl_render :: "'t \<Rightarrow> 'g \<Rightarrow> string"

record 't metrics_handle =
  mh_inner :: "'t option"

definition render_metrics :: "('p, 't, 'g) prometheus_lib \<Rightarrow> 't metrics_handle \<Rightarrow> 'g \<Rightarrow> string" where
  "render_metrics P h g = (case mh_inner h of None \<Rightarrow> [] | Some t \<Rightarrow> pl_render P t g)"

definition for_test :: "'t metrics_handle" where
  "for_test = \<lparr>mh_inner = None\<rparr>"

subsection \<open>Installation\<close>

definition LATENCY_BUCKETS :: "nat list" where
  "LATENCY_BUCKETS = [1, 5, 10, 25, 50, 100, 250, 500, 1000, 2500, 5000, 10000]"

definition REDIRECT_HOP_BUCKETS :: "nat list" where
  "REDIRECT_HOP_BUCKETS = [0, 1000, 2000, 3000, 5000, 8000, 13000]"

definition descriptions :: "description list" where
  "descriptions =
     [\<lparr>de_kind = Counter, de_name = REQUESTS_TOTAL, de_unit = Unit_Count,
       de_text = ''Total inbound requests handled''\<rparr>,
      \<lparr>de_kind = Histogram, de_name = REQUEST_DURATION, de_unit = Unit_Seconds,
       de_text = ''End-to-end request duration as measured at the inbound listener''\<rparr>,
      \<lparr>de_kind = Histogram, de_name = UPSTREAM_DURATION, de_unit = Unit_Seconds,
       de_text = ''Duration of the upstream request leg only''\<rparr>,
      \<lparr>de_kind = Counter, de_name = UPSTREAM_ERRORS, de_unit = Unit_Count,
       de_text = ''Upstream failures, broken down by error kind''\<rparr>,
      \<lparr>de_kind = Gauge_Kind, de_name = INFLIGHT_REQUESTS, de_unit = Unit_Count,
       de_text = ''Currently in-flight requests''\<rparr>,
      \<lparr>de_kind = Counter, de_name = BYTES_TRANSFERRED, de_unit = Unit_Bytes,
       de_text = ''Bytes transferred through the proxy, keyed by direction''\<rparr>,
      \<lparr>de_kind = Counter, de_name = RATE_LIMITED, de_unit = Unit_Count,
       de_text = ''Rate-limited request rejections, keyed by dimension''\<rparr>,
      \<lparr>de_kind = Counter, de_name = SSRF_BLOCKS, de_unit = Unit_Count,
       de_text = ''SSRF policy interceptions, keyed by the matching CIDR''\<rparr>,
      \<lparr>de_kind = Counter, de_name = DNS_LOOKUPS, de_unit = Unit_Count,
       de_text = ''DNS lookup outcomes, keyed by result''\<rparr>,
      \<lparr>de_kind = Histogram, de_name = REDIRECT_HOPS, de_unit = Unit_Count,
       de_text = ''Number of redirect hops followed per request, keyed by target host''\<rparr>,
      \<lparr>de_kind = Counter, de_name = CONFIG_RELOAD, de_unit = Unit_Count,
       de_text = ''Configuration reload attempts, keyed by result''\<rparr>,
      \<lparr>de_kind = Counter, de_name = CIRCUIT_OPENS, de_unit = Unit_Count,
       de_text = ''Circuit breaker transitions to Open''\<rparr>,
      \<lparr>de_kind = Counter, de_name = CIRCUIT_REJECTS, de_unit = Unit_Count,
       de_text = ''Requests rejected because a circuit is open''\<rparr>,
      \<lparr>de_kind = Gauge_Kind, de_name = BUILD_INFO, de_unit = Unit_Count,
       de_text = ''Build information watermark; always reported as 1''\<rparr>]"

text \<open>The toolchain the workspace requires, substituted for \<open>CARGO_PKG_RUST_VERSION\<close>.\<close>

definition cargo_pkg_rust_version :: string where
  "cargo_pkg_rust_version = ''1.94''"

definition init_metrics ::
  "('p, 't, 'g) prometheus_lib \<Rightarrow> build_features \<Rightarrow> 'g \<Rightarrow> (string + 't metrics_handle) \<times> 'g" where
  "init_metrics P F g =
     (case bind_res (pl_set_buckets P (pl_new P) REQUEST_DURATION LATENCY_BUCKETS) (\<lambda>builder.
             bind_res (pl_set_buckets P builder UPSTREAM_DURATION LATENCY_BUCKETS) (\<lambda>builder.
               pl_set_buckets P builder REDIRECT_HOPS REDIRECT_HOP_BUCKETS)) of
        Inl err \<Rightarrow> (Inl err, g)
      | Inr builder \<Rightarrow>
          (case pl_install P builder g of
             (Inl err, g) \<Rightarrow> (Inl err, g)
           | (Inr handle, g) \<Rightarrow>
               (let g = fold (pl_describe P) descriptions g;
                    g = pl_set_gauge P BUILD_INFO
                          [(''version'', cargo_pkg_version),
                           (''rust_version'', cargo_pkg_rust_version),
                           (''features'', active_features F)] 1 g
                in (Inr \<lparr>mh_inner = Some handle\<rparr>, g))))"

subsection \<open>What is described\<close>

text \<open>
  The labels each metric is keyed by, and the shape of an event: the kind of instrument it moves, the
  metric, and its label names. The recorder is told no labels when a metric is described, so the table
  is a specification: it gives each counter and the redirect histogram the label its text says it is
  keyed by, and the two durations the \<open>status\<close> label, which no text mentions.
\<close>

definition label_keys :: "string \<Rightarrow> string list" where
  "label_keys name =
     (if name \<in> {REQUEST_DURATION, UPSTREAM_DURATION} then [''status'']
      else if name = UPSTREAM_ERRORS then [''kind'']
      else if name = BYTES_TRANSFERRED then [''direction'']
      else if name = RATE_LIMITED then [''dimension'']
      else if name = SSRF_BLOCKS then [''cidr'']
      else if name \<in> {DNS_LOOKUPS, CONFIG_RELOAD} then [''result'']
      else if name = REDIRECT_HOPS then [''target_host'']
      else [])"

fun metric_shape :: "metric \<Rightarrow> metric_kind \<times> string \<times> string list" where
  "metric_shape (Count name labels n) = (Counter, name, map fst labels)"
| "metric_shape (Observe name labels n) = (Histogram, name, map fst labels)"
| "metric_shape (Gauge name n) = (Gauge_Kind, name, [])"

definition conforms :: "description list \<Rightarrow> metric \<Rightarrow> bool" where
  "conforms ds m \<longleftrightarrow>
     list_ex (\<lambda>d. metric_shape m = (de_kind d, de_name d, label_keys (de_name d))) ds"

lemmas metric_names =
  REQUESTS_TOTAL_def REQUEST_DURATION_def UPSTREAM_DURATION_def UPSTREAM_ERRORS_def
  INFLIGHT_REQUESTS_def BYTES_TRANSFERRED_def RATE_LIMITED_def SSRF_BLOCKS_def DNS_LOOKUPS_def
  REDIRECT_HOPS_def CONFIG_RELOAD_def CIRCUIT_OPENS_def CIRCUIT_REJECTS_def BUILD_INFO_def

lemma conforms_all [simp]:
  "conforms descriptions (Count REQUESTS_TOTAL [] n)"
  "conforms descriptions (Observe REQUEST_DURATION [(''status'', s)] n)"
  "conforms descriptions (Observe UPSTREAM_DURATION [(''status'', s)] n)"
  "conforms descriptions (Count UPSTREAM_ERRORS [(''kind'', s)] n)"
  "conforms descriptions (Gauge INFLIGHT_REQUESTS i)"
  "conforms descriptions (Count BYTES_TRANSFERRED [(''direction'', s)] n)"
  "conforms descriptions (Count RATE_LIMITED [(''dimension'', s)] n)"
  "conforms descriptions (Count SSRF_BLOCKS [(''cidr'', s)] n)"
  "conforms descriptions (Count DNS_LOOKUPS [(''result'', s)] n)"
  "conforms descriptions (Observe REDIRECT_HOPS [(''target_host'', s)] n)"
  "conforms descriptions (Count CONFIG_RELOAD [(''result'', s)] n)"
  "conforms descriptions (Count CIRCUIT_OPENS [] n)"
  "conforms descriptions (Count CIRCUIT_REJECTS [] n)"
  by (simp_all add: conforms_def descriptions_def label_keys_def metric_names)

lemma conforms_append: "conforms ds m \<Longrightarrow> conforms (ds' @ ds) m"
  by (auto simp: conforms_def)

text \<open>No feature name holds a comma, so the label is read back by splitting it.\<close>

lemma active_features_roundtrip:
  "ft_tls F \<longleftrightarrow> ''tls'' \<in> set (split_on CHR '','' (active_features F))"
  "ft_mtls F \<longleftrightarrow> ''mtls'' \<in> set (split_on CHR '','' (active_features F))"
  "ft_fips F \<longleftrightarrow> ''fips'' \<in> set (split_on CHR '','' (active_features F))"
  "ft_otel F \<longleftrightarrow> ''otel'' \<in> set (split_on CHR '','' (active_features F))"
  by (cases "ft_tls F"; cases "ft_mtls F"; cases "ft_fips F"; cases "ft_otel F";
      simp add: active_features_def List.map_filter_simps)+

subsection \<open>Installing once\<close>

text \<open>
  The documented behaviour of the exporter: a non-empty list of buckets is accepted, the recorder
  slot of a process is filled at most once, and a description or a gauge is kept by the recorder in
  the slot.
\<close>

locale prometheus =
  fixes P :: "('p, 't, 'g) prometheus_lib"
    and taken :: "'g \<Rightarrow> bool"
    and described :: "'g \<Rightarrow> description list"
  assumes buckets_accepted: "bounds \<noteq> [] \<Longrightarrow> \<exists>p'. pl_set_buckets P p name bounds = Inr p'"
    and install_free: "\<not> taken g \<Longrightarrow>
      \<exists>t g'. pl_install P p g = (Inr t, g') \<and> taken g' \<and> described g' = described g"
    and install_taken: "taken g \<Longrightarrow> \<exists>err. pl_install P p g = (Inl err, g)"
    and describe_kept: "described (pl_describe P d g) = described g @ [d]"
      "taken (pl_describe P d g) = taken g"
    and gauge_kept: "described (pl_set_gauge P n ls v g) = described g"
      "taken (pl_set_gauge P n ls v g) = taken g"
begin

lemma describe_all: "described (fold (pl_describe P) ds g) = described g @ ds"
  "taken (fold (pl_describe P) ds g) = taken g"
  by (induction ds arbitrary: g) (simp_all add: describe_kept)

lemma builder_ok:
  "\<exists>p. bind_res (pl_set_buckets P (pl_new P) REQUEST_DURATION LATENCY_BUCKETS) (\<lambda>builder.
      bind_res (pl_set_buckets P builder UPSTREAM_DURATION LATENCY_BUCKETS) (\<lambda>builder.
        pl_set_buckets P builder REDIRECT_HOPS REDIRECT_HOP_BUCKETS)) = Inr p"
proof -
  obtain p1 where p1: "pl_set_buckets P (pl_new P) REQUEST_DURATION LATENCY_BUCKETS = Inr p1"
    using buckets_accepted by (fastforce simp: LATENCY_BUCKETS_def)
  obtain p2 where p2: "pl_set_buckets P p1 UPSTREAM_DURATION LATENCY_BUCKETS = Inr p2"
    using buckets_accepted by (fastforce simp: LATENCY_BUCKETS_def)
  obtain p3 where "pl_set_buckets P p2 REDIRECT_HOPS REDIRECT_HOP_BUCKETS = Inr p3"
    using buckets_accepted by (fastforce simp: REDIRECT_HOP_BUCKETS_def)
  with p1 p2 show ?thesis by simp
qed

lemma init_metrics_free:
  assumes "\<not> taken g"
  shows "\<exists>h g'. init_metrics P F g = (Inr h, g') \<and> mh_inner h \<noteq> None \<and> taken g' \<and>
    described g' = described g @ descriptions"
proof -
  obtain p where p: "bind_res (pl_set_buckets P (pl_new P) REQUEST_DURATION LATENCY_BUCKETS) (\<lambda>builder.
      bind_res (pl_set_buckets P builder UPSTREAM_DURATION LATENCY_BUCKETS) (\<lambda>builder.
        pl_set_buckets P builder REDIRECT_HOPS REDIRECT_HOP_BUCKETS)) = Inr p"
    using builder_ok by blast
  obtain t g1 where "pl_install P p g = (Inr t, g1)" "taken g1" "described g1 = described g"
    using install_free [OF assms] by blast
  with p show ?thesis
    by (simp add: init_metrics_def gauge_kept describe_all)
qed

lemma init_metrics_taken:
  assumes "taken g"
  shows "\<exists>err. init_metrics P F g = (Inl err, g)"
proof -
  obtain p where p: "bind_res (pl_set_buckets P (pl_new P) REQUEST_DURATION LATENCY_BUCKETS) (\<lambda>builder.
      bind_res (pl_set_buckets P builder UPSTREAM_DURATION LATENCY_BUCKETS) (\<lambda>builder.
        pl_set_buckets P builder REDIRECT_HOPS REDIRECT_HOP_BUCKETS)) = Inr p"
    using builder_ok by blast
  obtain err where "pl_install P p g = (Inl err, g)" using install_taken [OF assms] by blast
  with p show ?thesis by (simp add: init_metrics_def)
qed

end

text \<open>A recorder that keeps what it is told.\<close>

record plain_recorder =
  pr_taken :: bool
  pr_described :: "description list"
  pr_gauges :: "(string \<times> (string \<times> string) list \<times> nat) list"

definition plain_prometheus :: "((string \<times> nat list) list, unit, plain_recorder) prometheus_lib" where
  "plain_prometheus =
     \<lparr>pl_new = [],
      pl_set_buckets = (\<lambda>p name bounds. if bounds = [] then Inl ''empty buckets'' else Inr (p @ [(name, bounds)])),
      pl_install = (\<lambda>p g. if pr_taken g then (Inl ''recorder already installed'', g)
                          else (Inr (), g\<lparr>pr_taken := True\<rparr>)),
      pl_describe = (\<lambda>d g. g\<lparr>pr_described := pr_described g @ [d]\<rparr>),
      pl_set_gauge = (\<lambda>n ls v g. g\<lparr>pr_gauges := pr_gauges g @ [(n, ls, v)]\<rparr>),
      pl_render = (\<lambda>_ g. join [CHR 0x0A] (map de_name (pr_described g)))\<rparr>"

definition fresh_recorder :: plain_recorder where
  "fresh_recorder = \<lparr>pr_taken = False, pr_described = [], pr_gauges = []\<rparr>"

interpretation plain_prom: prometheus plain_prometheus pr_taken pr_described
  by unfold_locales (simp_all add: plain_prometheus_def)

end
