(* ===== verification/Tls.thy ===== *)
theory Tls
  imports Metrics
begin

text \<open>
  The TLS listener's configuration: \<open>build_server_config\<close> of \<open>corx-server/src/tls.rs\<close> and the
  loaders it uses. Files, the PEM parser (crate \<open>rustls-pemfile\<close>) and \<open>rustls\<close> are the parameter
  \<open>T\<close>: a file is bytes or an error, a PEM file the sequence of results its iterator yields, the trust
  store the list of anchors it holds. An \<open>anyhow\<close> error is the text it displays.
\<close>

subsection \<open>Files, PEM and rustls\<close>

record ('c, 'k, 'v) tls_lib =
  tl_open :: "string \<Rightarrow> string + string"
  tl_certs :: "string \<Rightarrow> (string + 'c) list"
  tl_private_key :: "string \<Rightarrow> string + 'k option"
  tl_root_add :: "'c \<Rightarrow> 'c list \<Rightarrow> string + 'c list"
  tl_verifier :: "'c list \<Rightarrow> string + 'v"
  tl_single_cert :: "'c list \<Rightarrow> 'k \<Rightarrow> string option"

text \<open>
  A \<open>rustls::ServerConfig\<close>: whether a client must present a certificate, the identity of the server,
  and the protocols offered by ALPN.
\<close>

record ('c, 'k, 'v) rustls_config =
  rc_client_auth :: "'v option"
  rc_chain :: "'c list"
  rc_key :: 'k
  rc_alpn :: "string list"

text \<open>\<open>Iterator::collect\<close> into a \<open>Result\<close>: the first error ends it.\<close>

fun collect_res :: "('e + 'a) list \<Rightarrow> 'e + 'a list" where
  "collect_res [] = Inr []"
| "collect_res (r # rs) = bind_res r (\<lambda>x. bind_res (collect_res rs) (\<lambda>xs. Inr (x # xs)))"

text \<open>\<open>with_context\<close>: the error displays the context.\<close>

definition with_context :: "string \<Rightarrow> string + 'a \<Rightarrow> string + 'a" where
  "with_context ctx r = (case r of Inl _ \<Rightarrow> Inl ctx | Inr x \<Rightarrow> Inr x)"

subsection \<open>Loading\<close>

definition load_certs :: "('c, 'k, 'v) tls_lib \<Rightarrow> string \<Rightarrow> string + 'c list" where
  "load_certs T path =
     bind_res (tl_open T path) (\<lambda>file.
       bind_res (collect_res (tl_certs T file)) (\<lambda>chain.
         if chain = [] then Inl (''no PEM-encoded certificates found in '' @ path)
         else Inr chain))"

definition load_private_key :: "('c, 'k, 'v) tls_lib \<Rightarrow> string \<Rightarrow> string + 'k" where
  "load_private_key T path =
     bind_res (tl_open T path) (\<lambda>file.
       bind_res (tl_private_key T file) (\<lambda>key.
         case key of
           Some k \<Rightarrow> Inr k
         | None \<Rightarrow> Inl (''no PEM-encoded private key found in '' @ path)))"

fun add_roots :: "('c, 'k, 'v) tls_lib \<Rightarrow> 'c list \<Rightarrow> 'c list \<Rightarrow> string + 'c list" where
  "add_roots T [] roots = Inr roots"
| "add_roots T (cert # certs) roots =
     (case tl_root_add T cert roots of
        Inl err \<Rightarrow> Inl (''trust anchor rejected: '' @ err)
      | Inr roots \<Rightarrow> add_roots T certs roots)"

definition load_client_roots :: "('c, 'k, 'v) tls_lib \<Rightarrow> string \<Rightarrow> string + 'c list" where
  "load_client_roots T path =
     bind_res (with_context (''loading mTLS root CAs from '' @ path) (load_certs T path)) (\<lambda>certs.
       bind_res (add_roots T certs []) (\<lambda>roots.
         if roots = [] then Inl ''mTLS trust anchor file produced zero usable certificates''
         else Inr roots))"

subsection \<open>Building\<close>

definition with_single_cert ::
  "('c, 'k, 'v) tls_lib \<Rightarrow> 'v option \<Rightarrow> 'c list \<Rightarrow> 'k \<Rightarrow> string + ('c, 'k, 'v) rustls_config" where
  "with_single_cert T client_auth chain key =
     (case tl_single_cert T chain key of
        Some err \<Rightarrow> Inl (''with_single_cert failed: '' @ err)
      | None \<Rightarrow> Inr \<lparr>rc_client_auth = client_auth, rc_chain = chain, rc_key = key, rc_alpn = []\<rparr>)"

definition build_server_config_inner ::
  "('c, 'k, 'v) tls_lib \<Rightarrow> build_features \<Rightarrow> tls_config \<Rightarrow> 'c list \<Rightarrow> 'k \<Rightarrow>
     string + ('c, 'k, 'v) rustls_config" where
  "build_server_config_inner T F cfg cert_chain key =
     (case tls_client_ca_path cfg of
        Some path \<Rightarrow>
          if ft_mtls F then
            bind_res (load_client_roots T path) (\<lambda>roots.
              case tl_verifier T roots of
                Inl err \<Rightarrow> Inl (''building mTLS verifier failed: '' @ err)
              | Inr verifier \<Rightarrow> with_single_cert T (Some verifier) cert_chain key)
          else Inl ''tls.client_ca_path is set but the binary was built without the `mtls` feature''
      | None \<Rightarrow> with_single_cert T None cert_chain key)"

definition build_server_config ::
  "('c, 'k, 'v) tls_lib \<Rightarrow> build_features \<Rightarrow> tls_config \<Rightarrow> string + ('c, 'k, 'v) rustls_config" where
  "build_server_config T F cfg =
     bind_res (with_context (''loading certificate chain from '' @ tls_cert_path cfg)
         (load_certs T (tls_cert_path cfg))) (\<lambda>cert_chain.
       bind_res (with_context (''loading private key from '' @ tls_key_path cfg)
           (load_private_key T (tls_key_path cfg))) (\<lambda>key.
         bind_res (build_server_config_inner T F cfg cert_chain key) (\<lambda>server_config.
           Inr (server_config\<lparr>rc_alpn := tls_alpn_protocols cfg\<rparr>))))"

subsection \<open>What is loaded\<close>

lemma collect_res_Inr: "collect_res rs = Inr xs \<longleftrightarrow> rs = map Inr xs"
proof (induction rs arbitrary: xs)
  case Nil
  then show ?case by auto
next
  case (Cons r rs)
  then show ?case by (cases xs) (auto simp: bind_res_eq_Inr)
qed

lemma with_context_Inr [simp]: "with_context ctx r = Inr x \<longleftrightarrow> r = Inr x"
  by (cases r) (simp_all add: with_context_def)

lemma load_certs_Inr:
  "load_certs T path = Inr chain \<longleftrightarrow>
     chain \<noteq> [] \<and> (\<exists>file. tl_open T path = Inr file \<and> tl_certs T file = map Inr chain)"
  by (auto simp: load_certs_def bind_res_eq_Inr collect_res_Inr)

lemma load_private_key_Inr:
  "load_private_key T path = Inr key \<longleftrightarrow>
     (\<exists>file. tl_open T path = Inr file \<and> tl_private_key T file = Inr (Some key))"
  by (auto simp: load_private_key_def bind_res_eq_Inr split: option.splits)

text \<open>
  The documented behaviour of a trust store: \<open>add\<close> either refuses a certificate or appends it as an
  anchor.
\<close>

locale trust_store =
  fixes T :: "('c, 'k, 'v) tls_lib"
  assumes root_added: "tl_root_add T cert roots = Inr roots' \<Longrightarrow> roots' = roots @ [cert]"
begin

lemma add_roots_Inr: "add_roots T certs roots = Inr roots' \<Longrightarrow> roots' = roots @ certs"
proof (induction certs arbitrary: roots)
  case Nil
  then show ?case by simp
next
  case (Cons cert certs)
  then obtain r where "tl_root_add T cert roots = Inr r" "add_roots T certs r = Inr roots'"
    by (auto split: sum.splits)
  with Cons.IH [of r] root_added show ?case by fastforce
qed

text \<open>The check for an empty store is redundant: an empty file was refused before.\<close>

lemma load_client_roots_eq:
  "load_client_roots T path =
     bind_res (with_context (''loading mTLS root CAs from '' @ path) (load_certs T path))
       (\<lambda>certs. add_roots T certs [])"
proof (cases "load_certs T path")
  case (Inr certs)
  then have "certs \<noteq> []" by (simp add: load_certs_Inr)
  with Inr show ?thesis
    by (cases "add_roots T certs []") (auto simp: load_client_roots_def with_context_def dest: add_roots_Inr)
qed (simp add: load_client_roots_def with_context_def)

lemma load_client_roots_Inr:
  "load_client_roots T path = Inr roots \<longleftrightarrow> load_certs T path = Inr roots \<and> add_roots T roots [] = Inr roots"
  using add_roots_Inr by (fastforce simp: load_client_roots_eq bind_res_eq_Inr)

end

lemma case_sum_Inr:
  "(case r of Inl err \<Rightarrow> Inl (g err) | Inr x \<Rightarrow> f x) = Inr y \<longleftrightarrow> (\<exists>x. r = Inr x \<and> f x = Inr y)"
  by (cases r) simp_all

lemma with_single_cert_Inr:
  "with_single_cert T auth chain key = Inr rc \<longleftrightarrow>
     tl_single_cert T chain key = None \<and>
     rc = \<lparr>rc_client_auth = auth, rc_chain = chain, rc_key = key, rc_alpn = []\<rparr>"
  by (auto simp: with_single_cert_def split: option.splits)

text \<open>A certificate file: readable, every block a certificate, at least one of them.\<close>

definition cert_file :: "('c, 'k, 'v) tls_lib \<Rightarrow> string \<Rightarrow> 'c list \<Rightarrow> bool" where
  "cert_file T path certs \<longleftrightarrow>
     certs \<noteq> [] \<and> (\<exists>file. tl_open T path = Inr file \<and> tl_certs T file = map Inr certs)"

definition key_file :: "('c, 'k, 'v) tls_lib \<Rightarrow> string \<Rightarrow> 'k \<Rightarrow> bool" where
  "key_file T path key \<longleftrightarrow>
     (\<exists>file. tl_open T path = Inr file \<and> tl_private_key T file = Inr (Some key))"

text \<open>What is demanded of clients: nothing without a client CA, else a certificate under its anchors.\<close>

definition client_auth ::
  "('c, 'k, 'v) tls_lib \<Rightarrow> build_features \<Rightarrow> string option \<Rightarrow> 'v option \<Rightarrow> bool" where
  "client_auth T F ca_path auth \<longleftrightarrow>
     (case ca_path of
        None \<Rightarrow> auth = None
      | Some ca \<Rightarrow> ft_mtls F \<and> (\<exists>roots v. cert_file T ca roots \<and> add_roots T roots [] = Inr roots \<and>
          tl_verifier T roots = Inr v \<and> auth = Some v))"

context trust_store begin

lemma inner_Inr:
  "build_server_config_inner T F cfg chain key = Inr rc \<longleftrightarrow>
     tl_single_cert T chain key = None \<and>
     (\<exists>auth. client_auth T F (tls_client_ca_path cfg) auth \<and>
       rc = \<lparr>rc_client_auth = auth, rc_chain = chain, rc_key = key, rc_alpn = []\<rparr>)"
  by (cases "tls_client_ca_path cfg")
    (auto simp: build_server_config_inner_def bind_res_eq_Inr with_single_cert_Inr case_sum_Inr
      load_client_roots_Inr load_certs_Inr client_auth_def cert_file_def)

lemma inner_alpn_Inr:
  "bind_res (build_server_config_inner T F cfg chain key) (\<lambda>sc. Inr (sc\<lparr>rc_alpn := alpn\<rparr>)) = Inr rc \<longleftrightarrow>
     tl_single_cert T chain key = None \<and>
     (\<exists>auth. client_auth T F (tls_client_ca_path cfg) auth \<and>
       rc = \<lparr>rc_client_auth = auth, rc_chain = chain, rc_key = key, rc_alpn = alpn\<rparr>)"
  unfolding bind_res_eq_Inr inner_Inr by force

end

subsection \<open>Properties\<close>

text \<open>
  C16. A listener is configured exactly from what the operator gave: the chain and the key of the two
  files, the ALPN list as written, and a client certificate is required exactly when a client CA is
  configured, verified against all certificates of that file and nothing else; if the binary cannot
  do that, or a file is unreadable, malformed or empty, there is no configuration at all and never
  one without client authentication.
\<close>

theorem build_server_config_iff:
  assumes "trust_store T"
  shows "build_server_config T F cfg = Inr rc \<longleftrightarrow>
    cert_file T (tls_cert_path cfg) (rc_chain rc) \<and> key_file T (tls_key_path cfg) (rc_key rc) \<and>
    tl_single_cert T (rc_chain rc) (rc_key rc) = None \<and> rc_alpn rc = tls_alpn_protocols cfg \<and>
    client_auth T F (tls_client_ca_path cfg) (rc_client_auth rc)"
  by (cases rc) (auto simp: build_server_config_def bind_res_eq_Inr [of "with_context _ _"]
      trust_store.inner_alpn_Inr [OF assms] cert_file_def key_file_def load_certs_Inr load_private_key_Inr)

text \<open>A library over files that are lists of blocks.\<close>

definition plain_tls :: "(string \<Rightarrow> string option) \<Rightarrow> (string, string, string list) tls_lib" where
  "plain_tls files =
     \<lparr>tl_open = (\<lambda>path. case files path of Some f \<Rightarrow> Inr f | None \<Rightarrow> Inl ''No such file or directory''),
      tl_certs = (\<lambda>f. if f = [] then [] else map Inr (split_on CHR '','' f)),
      tl_private_key = (\<lambda>f. Inr (if f = [] then None else Some f)),
      tl_root_add = (\<lambda>cert roots. if cert = [] then Inl ''empty certificate'' else Inr (roots @ [cert])),
      tl_verifier = (\<lambda>roots. if roots = [] then Inl ''no root anchors'' else Inr roots),
      tl_single_cert = (\<lambda>chain key. None)\<rparr>"

interpretation plain_store: trust_store "plain_tls files" for files
  by unfold_locales (auto simp: plain_tls_def split: if_splits)

definition example_files :: "string \<Rightarrow> string option" where
  "example_files = map_of [(''crt'', ''leaf,inter''), (''key'', ''k''), (''ca'', ''root'')]"

definition example_tls :: tls_config where
  "example_tls =
     \<lparr>tls_cert_path = ''crt'', tls_key_path = ''key'', tls_client_ca_path = Some ''ca'',
      tls_alpn_protocols = default_alpn_protocols\<rparr>"

lemma build_server_config_iff_witness:
  "build_server_config (plain_tls example_files)
     \<lparr>ft_tls = True, ft_mtls = True, ft_fips = False, ft_otel = False\<rparr> example_tls =
   Inr \<lparr>rc_client_auth = Some [''root''], rc_chain = [''leaf'', ''inter''], rc_key = ''k'',
     rc_alpn = [''h2'', ''http/1.1'']\<rparr>"
  (is "build_server_config _ ?F _ = Inr ?rc")
proof (rule build_server_config_iff [OF plain_store.trust_store_axioms, THEN iffD2])
  have files: "example_files ''crt'' = Some ''leaf,inter''" "example_files ''key'' = Some ''k''"
    "example_files ''ca'' = Some ''root''"
    by (simp_all add: example_files_def)
  have ca: "client_auth (plain_tls example_files)
      \<lparr>ft_tls = True, ft_mtls = True, ft_fips = False, ft_otel = False\<rparr> (Some ''ca'') (Some [''root''])"
    unfolding client_auth_def option.case
    by (intro conjI exI [of _ "[''root'']"]) (simp_all add: cert_file_def plain_tls_def files)
  show "cert_file (plain_tls example_files) (tls_cert_path example_tls) (rc_chain ?rc) \<and>
    key_file (plain_tls example_files) (tls_key_path example_tls) (rc_key ?rc) \<and>
    tl_single_cert (plain_tls example_files) (rc_chain ?rc) (rc_key ?rc) = None \<and>
    rc_alpn ?rc = tls_alpn_protocols example_tls \<and>
    client_auth (plain_tls example_files) ?F (tls_client_ca_path example_tls) (rc_client_auth ?rc)"
    using ca by (simp add: cert_file_def key_file_def plain_tls_def example_tls_def
      default_alpn_protocols_def files)
qed

end
