(* ===== verification/Tracing.thy ===== *)
theory Tracing
  imports Metrics
begin

text \<open>
  Logging and trace export: \<open>corx-server/src/observability/tracing.rs\<close> and \<open>otel.rs\<close>. The crates
  \<open>tracing-subscriber\<close> and \<open>opentelemetry\<close> are the parameter \<open>X\<close>: filters \<open>'f\<close>, span exporters \<open>'e\<close>
  and the process-wide subscriber slot \<open>'g\<close>.
\<close>

subsection \<open>The sampling ratio\<close>

text \<open>\<open>f64::clamp(0.0, 1.0)\<close> on IEEE bit patterns: a NaN and a negative zero stay what they are.\<close>

definition f64_magnitude :: "u64 \<Rightarrow> u64" where
  "f64_magnitude b = (if b < 0x8000000000000000 then b else b - 0x8000000000000000)"

definition f64_is_nan :: "u64 \<Rightarrow> bool" where
  "f64_is_nan b \<longleftrightarrow> 0x7FF0000000000000 < f64_magnitude b"

definition f64_one :: u64 where
  "f64_one = 0x3FF0000000000000"

definition clamp_unit :: "u64 \<Rightarrow> u64" where
  "clamp_unit b =
     (if f64_is_nan b then b
      else if 0x8000000000000000 < b then 0
      else if b < 0x8000000000000000 \<and> f64_one < b then f64_one
      else b)"

subsection \<open>Trace export\<close>

record 'e tracer_provider =
  tr_exporter :: 'e
  tr_resource :: "(string \<times> string) list"
  tr_sample_ratio :: u64

text \<open>The globals of \<open>opentelemetry\<close>: whether trace contexts are propagated, and the provider.\<close>

record 'e otel_globals =
  og_propagator :: bool
  og_provider :: "'e tracer_provider option"

definition build_resource :: "otel_config \<Rightarrow> (string \<times> string) list" where
  "build_resource cfg =
     [(''service.name'', ot_service_name cfg), (''service.version'', cargo_pkg_version)] @
     (if ot_service_namespace cfg \<noteq> [] then [(''service.namespace'', ot_service_namespace cfg)] else []) @
     List.map_filter (\<lambda>entry.
       case split_once ''='' entry of
         Some (k, v) \<Rightarrow> Some (trim k, trim v)
       | None \<Rightarrow> None) (ot_resource_attributes cfg)"

definition build_tracer ::
  "(otel_protocol \<Rightarrow> string \<Rightarrow> string + 'e) \<Rightarrow> otel_config \<Rightarrow> 'e otel_globals \<Rightarrow>
     (string + 'e tracer_provider option) \<times> 'e otel_globals" where
  "build_tracer span_exporter cfg g =
     (if \<not> ot_enabled cfg then (Inr None, g)
      else
        (let g = g\<lparr>og_propagator := True\<rparr>
         in case span_exporter (ot_protocol cfg) (ot_endpoint cfg) of
              Inl _ \<Rightarrow>
                (Inl (case ot_protocol cfg of
                        Grpc \<Rightarrow> ''building OTLP gRPC span exporter''
                      | HttpProto \<Rightarrow> ''building OTLP HTTP span exporter''), g)
            | Inr exporter \<Rightarrow>
                (let provider = \<lparr>tr_exporter = exporter, tr_resource = build_resource cfg,
                                 tr_sample_ratio = clamp_unit (ot_sample_ratio cfg)\<rparr>
                 in (Inr (Some provider), g\<lparr>og_provider := Some provider\<rparr>))))"

subsection \<open>The subscriber\<close>

text \<open>The settings of the two formatting layers.\<close>

datatype fmt_layer =
    Json_Layer (layer_target: bool) (layer_level: bool) (layer_thread_ids: bool) (layer_ansi: bool)
      (layer_flatten_event: bool) (layer_current_span: bool) (layer_span_list: bool)
  | Compact_Layer (layer_target: bool) (layer_level: bool) (layer_ansi: bool)

record ('f, 'e) subscriber =
  su_filter :: 'f
  su_fmt :: fmt_layer
  su_otel :: "'e tracer_provider option"

record ('f, 'e, 'g) tracing_lib =
  to_try_new :: "string \<Rightarrow> 'f option"
  to_default_env :: "'f option"
  to_new :: "string \<Rightarrow> 'f"
  to_exporter :: "otel_protocol \<Rightarrow> string \<Rightarrow> string + 'e"
  to_try_init :: "('f, 'e) subscriber \<Rightarrow> 'g \<Rightarrow> (string + unit) \<times> 'g"

definition env_filter :: "('f, 'e, 'g) tracing_lib \<Rightarrow> string \<Rightarrow> 'f" where
  "env_filter X log_level =
     (case to_try_new X log_level of
        Some f \<Rightarrow> f
      | None \<Rightarrow> (case to_default_env X of Some f \<Rightarrow> f | None \<Rightarrow> to_new X ''info''))"

definition fmt_layer_of :: "log_format \<Rightarrow> fmt_layer" where
  "fmt_layer_of format =
     (case format of
        Json \<Rightarrow> Json_Layer True True False False True True False
      | Pretty \<Rightarrow> Compact_Layer False True True)"

definition init_tracing ::
  "('f, 'e, 'g) tracing_lib \<Rightarrow> build_features \<Rightarrow> observability_config \<Rightarrow> 'e otel_globals \<Rightarrow> 'g \<Rightarrow>
     (string + unit) \<times> 'e otel_globals \<times> 'g" where
  "init_tracing X F cfg og g =
     (let filter = env_filter X (ob_log_level cfg)
      in case (if ft_otel F then build_tracer (to_exporter X) (ob_otel cfg) og else (Inr None, og)) of
           (Inl err, og) \<Rightarrow> (Inl err, og, g)
         | (Inr tracer, og) \<Rightarrow>
             (case to_try_init X
                     \<lparr>su_filter = filter, su_fmt = fmt_layer_of (ob_log_format cfg), su_otel = tracer\<rparr> g of
                (r, g) \<Rightarrow> (r, og, g)))"

subsection \<open>What is exported\<close>

lemma clamp_unit_magnitude: "\<not> f64_is_nan b \<Longrightarrow> f64_magnitude (clamp_unit b) \<le> f64_one"
  by (auto simp: clamp_unit_def f64_magnitude_def f64_one_def not_less)

lemma build_resource_mem:
  "(k, v) \<in> set (build_resource cfg) \<longleftrightarrow>
     (k, v) \<in> {(''service.name'', ot_service_name cfg), (''service.version'', cargo_pkg_version)} \<or>
     (k, v) = (''service.namespace'', ot_service_namespace cfg) \<and> v \<noteq> [] \<or>
     (\<exists>a b. a @ ''='' @ b \<in> set (ot_resource_attributes cfg) \<and> CHR ''='' \<notin> set a \<and> k = trim a \<and> v = trim b)"
proof -
  have "(case split_once ''='' e of Some (k, v) \<Rightarrow> Some (trim k, trim v) | None \<Rightarrow> None) = Some (k, v) \<longleftrightarrow>
      (\<exists>a b. e = a @ ''='' @ b \<and> CHR ''='' \<notin> set a \<and> k = trim a \<and> v = trim b)" for e
  proof -
    have "(case split_once ''='' e of Some (k, v) \<Rightarrow> Some (trim k, trim v) | None \<Rightarrow> None) = Some (k, v) \<longleftrightarrow>
        (\<exists>a b. split_once ''='' e = Some (a, b) \<and> k = trim a \<and> v = trim b)"
      by (auto split: option.splits)
    then show ?thesis by (simp add: split_once_char)
  qed
  then show ?thesis unfolding build_resource_def by (auto simp: set_map_filter)
qed

text \<open>
  Telemetry never depends on the log level an operator wrote, and exports only when it is asked
  to: with the feature off or export disabled no exporter is built, no global is touched, and the
  only failure is a subscriber that is already installed; with export on, spans are sampled at a
  ratio between 0 and 1 (unless it is not a number) under the configured service name and
  attributes, and a failed exporter leaves no subscriber and no provider installed.
\<close>

theorem init_tracing_outcome:
  "case init_tracing X F cfg og g of
     (r, og', g') \<Rightarrow>
       if ft_otel F \<and> ot_enabled (ob_otel cfg) then
         (case to_exporter X (ot_protocol (ob_otel cfg)) (ot_endpoint (ob_otel cfg)) of
            Inl _ \<Rightarrow> r \<noteq> Inr () \<and> og_provider og' = og_provider og \<and> g' = g
          | Inr e \<Rightarrow> (\<exists>p. og_provider og' = Some p \<and> tr_exporter p = e \<and>
              tr_resource p = build_resource (ob_otel cfg) \<and>
              (\<not> f64_is_nan (ot_sample_ratio (ob_otel cfg)) \<longrightarrow> f64_magnitude (tr_sample_ratio p) \<le> f64_one) \<and>
              (r, g') = to_try_init X \<lparr>su_filter = env_filter X (ob_log_level cfg),
                su_fmt = fmt_layer_of (ob_log_format cfg), su_otel = Some p\<rparr> g))
       else og' = og \<and> (r, g') = to_try_init X \<lparr>su_filter = env_filter X (ob_log_level cfg),
                su_fmt = fmt_layer_of (ob_log_format cfg), su_otel = None\<rparr> g"
  using clamp_unit_magnitude
  by (auto simp: init_tracing_def build_tracer_def Let_def split: prod.splits sum.splits)

end
