(* ===== verification/Lifecycle.thy ===== *)
theory Lifecycle
  imports Tls
begin

text \<open>
  The life of the server: \<open>corx-server/src/shutdown.rs\<close> and \<open>serve_tls\<close> of \<open>tls.rs\<close>. Sockets, the
  signal streams and the two server futures (\<open>axum::serve\<close>, \<open>axum_server\<close>) are parameters over a
  world \<open>'w\<close>, which also holds the router and its connections. A future is run by a sequence of
  wake-ups: at each the clock shows a time, the signal streams answer, and the tasks of the open
  connections have moved the world on. A run that is still waiting after its last wake-up has no
  result yet (\<open>None\<close>). The model is that of a Unix build.
\<close>

subsection \<open>Signals\<close>

text \<open>
  What the two signal futures answer at a poll: their handler could not be installed, or whether
  the signal has been received.
\<close>

record os_signals =
  os_ctrl_c :: "string + bool"
  os_terminate :: "string + bool"

text \<open>A handler that cannot be installed is logged, and its branch is then complete.\<close>

definition branch_done :: "string + bool \<Rightarrow> bool" where
  "branch_done r = (case r of Inl err \<Rightarrow> True | Inr received \<Rightarrow> received)"

definition wait_os_signal :: "os_signals \<Rightarrow> bool" where
  "wait_os_signal sg \<longleftrightarrow> branch_done (os_ctrl_c sg) \<or> branch_done (os_terminate sg)"

text \<open>
  A wake-up. When both branches of a \<open>select!\<close> are polled, \<open>wk_server\<close> says whether the server's is
  the first; when two tasks compete, whether the one that runs is the server's.
\<close>

record 'w wakeup =
  wk_now :: instant
  wk_signals :: os_signals
  wk_server :: bool
  wk_tasks :: "'w \<Rightarrow> 'w"

definition signalled :: "'w wakeup \<Rightarrow> bool" where
  "signalled wk \<longleftrightarrow> wait_os_signal (wk_signals wk)"

subsection \<open>The cleartext listener\<close>

text \<open>\<open>ls_poll\<close> polls the server future, told whether its shutdown signal has resolved.\<close>

record 'w listener_lib =
  ls_bind :: "socket_addr \<Rightarrow> 'w \<Rightarrow> (string + unit) \<times> 'w"
  ls_poll :: "bool \<Rightarrow> 'w \<Rightarrow> (string + unit) option \<times> 'w"
  ls_open :: "'w \<Rightarrow> nat"

text \<open>Where the signal branch is: before the signal, or asleep until the deadline.\<close>

datatype signal_arm = Awaiting | Draining instant

record 'w plain_run =
  rn_world :: 'w
  rn_ready :: bool
  rn_notified :: bool
  rn_arm :: signal_arm

definition poll_signal_arm :: "duration \<Rightarrow> 'w wakeup \<Rightarrow> 'w plain_run \<Rightarrow> bool \<times> 'w plain_run" where
  "poll_signal_arm grace wk st =
     (case rn_arm st of
        Awaiting \<Rightarrow>
          if wait_os_signal (wk_signals wk) then
            (let deadline = wk_now wk + grace
             in (deadline \<le> wk_now wk,
                 st\<lparr>rn_ready := False, rn_notified := True, rn_arm := Draining deadline\<rparr>))
          else (False, st)
      | Draining deadline \<Rightarrow> (deadline \<le> wk_now wk, st))"

definition poll_server :: "'w listener_lib \<Rightarrow> 'w plain_run \<Rightarrow> (string + unit) option \<times> 'w plain_run" where
  "poll_server S st =
     (case ls_poll S (rn_notified st) (rn_world st) of (r, w) \<Rightarrow> (r, st\<lparr>rn_world := w\<rparr>))"

datatype select_exit = Server_Done "string + unit" | Deadline_Hit

definition select_poll ::
  "duration \<Rightarrow> 'w listener_lib \<Rightarrow> 'w wakeup \<Rightarrow> 'w plain_run \<Rightarrow> select_exit option \<times> 'w plain_run" where
  "select_poll grace S wk st =
     (let st = st\<lparr>rn_world := wk_tasks wk (rn_world st)\<rparr>
      in if wk_server wk then
           (case poll_server S st of
              (Some r, st) \<Rightarrow> (Some (Server_Done r), st)
            | (None, st) \<Rightarrow>
                (case poll_signal_arm grace wk st of
                   (finished, st) \<Rightarrow> (if finished then Some Deadline_Hit else None, st)))
         else
           (case poll_signal_arm grace wk st of
              (finished, st) \<Rightarrow>
                (if finished then (Some Deadline_Hit, st)
                 else (case poll_server S st of
                         (Some r, st) \<Rightarrow> (Some (Server_Done r), st)
                       | (None, st) \<Rightarrow> (None, st)))))"

fun select_loop ::
  "duration \<Rightarrow> 'w listener_lib \<Rightarrow> 'w wakeup list \<Rightarrow> 'w plain_run \<Rightarrow> select_exit option \<times> 'w plain_run" where
  "select_loop grace S [] st = (None, st)"
| "select_loop grace S (wk # wks) st =
     (case select_poll grace S wk st of
        (Some e, st) \<Rightarrow> (Some e, st)
      | (None, st) \<Rightarrow> select_loop grace S wks st)"

definition exit_result :: "select_exit \<Rightarrow> string + unit" where
  "exit_result e = (case e of Server_Done r \<Rightarrow> r | Deadline_Hit \<Rightarrow> Inr ())"

definition run_plain ::
  "'w listener_lib \<Rightarrow> server_config \<Rightarrow> 'w wakeup list \<Rightarrow> bool \<Rightarrow> 'w \<Rightarrow>
     (string + unit) option \<times> bool \<times> 'w" where
  "run_plain S cfg wks ready w =
     (case ls_bind S (sv_bind cfg) w of
        (Inl err, w) \<Rightarrow> (Some (Inl err), ready, w)
      | (Inr _, w) \<Rightarrow>
          (case select_loop (sv_graceful_shutdown cfg) S wks
                  \<lparr>rn_world = w, rn_ready = ready, rn_notified = False, rn_arm = Awaiting\<rparr> of
             (e, st) \<Rightarrow> (map_option exit_result e, rn_ready st, rn_world st)))"

subsection \<open>The TLS listener\<close>

text \<open>
  \<open>rustls_poll\<close> polls the future that binds and serves, told when and with which grace period its
  handle was asked to shut down.
\<close>

type_synonym ('rc, 'w) rustls_poll =
  "'rc \<Rightarrow> (instant \<times> duration) option \<Rightarrow> instant \<Rightarrow> 'w \<Rightarrow> (string + unit) option \<times> 'w"

record 'w tls_run =
  tn_world :: 'w
  tn_ready :: bool
  tn_asked :: "(instant \<times> duration) option"

text \<open>\<open>shutdown_signal\<close> resolves with the signal and takes readiness away.\<close>

definition shutdown_signal :: "os_signals \<Rightarrow> bool \<Rightarrow> bool \<times> bool" where
  "shutdown_signal sg ready = (if wait_os_signal sg then (True, False) else (False, ready))"

definition shutdown_listener :: "duration \<Rightarrow> 'w wakeup \<Rightarrow> 'w tls_run \<Rightarrow> 'w tls_run" where
  "shutdown_listener grace wk st =
     (if tn_asked st \<noteq> None then st
      else (case shutdown_signal (wk_signals wk) (tn_ready st) of
              (True, ready) \<Rightarrow> st\<lparr>tn_ready := ready, tn_asked := Some (wk_now wk, grace)\<rparr>
            | (False, ready) \<Rightarrow> st\<lparr>tn_ready := ready\<rparr>))"

fun tls_loop ::
  "('rc, 'w) rustls_poll \<Rightarrow> 'rc \<Rightarrow> duration \<Rightarrow> 'w wakeup list \<Rightarrow> 'w tls_run \<Rightarrow>
     (string + unit) option \<times> 'w tls_run" where
  "tls_loop poll rc grace [] st = (None, st)"
| "tls_loop poll rc grace (wk # wks) st =
     (let st = st\<lparr>tn_world := wk_tasks wk (tn_world st)\<rparr>
      in if wk_server wk then
           (case poll rc (tn_asked st) (wk_now wk) (tn_world st) of
              (Some r, w) \<Rightarrow> (Some r, st\<lparr>tn_world := w\<rparr>)
            | (None, w) \<Rightarrow> tls_loop poll rc grace wks (st\<lparr>tn_world := w\<rparr>))
         else tls_loop poll rc grace wks (shutdown_listener grace wk st))"

definition serve_tls ::
  "('c, 'k, 'v) tls_lib \<Rightarrow> build_features \<Rightarrow> (('c, 'k, 'v) rustls_config, 'w) rustls_poll \<Rightarrow>
     server_config \<Rightarrow> tls_config \<Rightarrow> 'w wakeup list \<Rightarrow> bool \<Rightarrow> 'w \<Rightarrow>
     (string + unit) option \<times> bool \<times> 'w" where
  "serve_tls T F poll cfg tls_cfg wks ready w =
     (case build_server_config T F tls_cfg of
        Inl err \<Rightarrow> (Some (Inl err), ready, w)
      | Inr rc \<Rightarrow>
          (case tls_loop poll rc (sv_graceful_shutdown cfg) wks
                  \<lparr>tn_world = w, tn_ready = ready, tn_asked = None\<rparr> of
             (r, st) \<Rightarrow> (r, tn_ready st, tn_world st)))"

definition no_tls_feature :: string where
  "no_tls_feature =
     ''server.tls is configured but corx was built without the `tls` feature; rebuild with `--features tls`''"

definition run_tls ::
  "('c, 'k, 'v) tls_lib \<Rightarrow> build_features \<Rightarrow> (('c, 'k, 'v) rustls_config, 'w) rustls_poll \<Rightarrow>
     server_config \<Rightarrow> tls_config \<Rightarrow> 'w wakeup list \<Rightarrow> bool \<Rightarrow> 'w \<Rightarrow>
     (string + unit) option \<times> bool \<times> 'w" where
  "run_tls T F poll cfg tls_cfg wks ready w =
     (if ft_tls F then serve_tls T F poll cfg tls_cfg wks ready w
      else (Some (Inl no_tls_feature), ready, w))"

definition run ::
  "'w listener_lib \<Rightarrow> ('c, 'k, 'v) tls_lib \<Rightarrow> build_features \<Rightarrow>
     (('c, 'k, 'v) rustls_config, 'w) rustls_poll \<Rightarrow> server_config \<Rightarrow> 'w wakeup list \<Rightarrow> bool \<Rightarrow> 'w \<Rightarrow>
     (string + unit) option \<times> bool \<times> 'w" where
  "run S T F poll cfg wks ready w =
     (case sv_tls cfg of
        Some tls_cfg \<Rightarrow> run_tls T F poll cfg tls_cfg wks ready w
      | None \<Rightarrow> run_plain S cfg wks ready w)"

subsection \<open>Polling the select\<close>

text \<open>
  What the documentation of \<open>axum::serve\<close> promises of the server future: it does not complete before
  it is told to shut down; told so, it completes without an error when no connection is open, and it
  waits only while one is.
\<close>

locale graceful_server =
  fixes S :: "'w listener_lib"
  assumes serves_on: "ls_poll S False w = (r, w') \<Longrightarrow> r = None"
    and drained: "ls_poll S True w = (Some res, w') \<Longrightarrow> res = Inr () \<and> ls_open S w' = 0"
    and waits_open: "ls_poll S True w = (None, w') \<Longrightarrow> 0 < ls_open S w'"
begin

lemma poll_server_cases:
  assumes "poll_server S st = (r, st')"
  obtains (waiting) "r = None" "\<exists>w. st' = st\<lparr>rn_world := w\<rparr>"
      "rn_notified st \<Longrightarrow> 0 < ls_open S (rn_world st')"
  | (complete) "r = Some (Inr ())" "rn_notified st" "ls_open S (rn_world st') = 0"
      "\<exists>w. st' = st\<lparr>rn_world := w\<rparr>"
proof -
  obtain w where p: "ls_poll S (rn_notified st) (rn_world st) = (r, w)" and st': "st' = st\<lparr>rn_world := w\<rparr>"
    using assms by (auto simp: poll_server_def split: prod.splits)
  show thesis
  proof (cases "r = None")
    case False
    then have "rn_notified st" using p serves_on [of "rn_world st"] by (cases "rn_notified st") auto
    with False p drained st' show thesis by (intro complete) auto
  next
    case True
    with p st' waits_open [of "rn_world st" w] show thesis by (intro waiting) auto
  qed
qed

lemma select_poll_waiting:
  assumes "rn_arm st = Awaiting" "\<not> rn_notified st" "\<not> signalled wk"
  shows "\<exists>w. select_poll grace S wk st = (None, st\<lparr>rn_world := w\<rparr>)"
proof -
  let ?st = "st\<lparr>rn_world := wk_tasks wk (rn_world st)\<rparr>"
  obtain r st' where p: "poll_server S ?st = (r, st')" by fastforce
  have arm: "poll_signal_arm grace wk (st\<lparr>rn_world := w\<rparr>) = (False, st\<lparr>rn_world := w\<rparr>)" for w
    using assms by (simp add: poll_signal_arm_def signalled_def)
  from p show ?thesis
    by (cases rule: poll_server_cases) (use assms(2) p arm in \<open>auto simp: select_poll_def Let_def\<close>)
qed

lemma select_poll_draining:
  assumes "rn_arm st = Draining d" "rn_notified st" "select_poll grace S wk st = (e, st')"
  shows "(e = None \<longrightarrow> \<not> d \<le> wk_now wk) \<and> (e = Some Deadline_Hit \<longrightarrow> d \<le> wk_now wk) \<and>
    (\<forall>r. e = Some (Server_Done r) \<longrightarrow> r = Inr () \<and> ls_open S (rn_world st') = 0) \<and>
    (e = None \<longrightarrow> 0 < ls_open S (rn_world st')) \<and> rn_arm st' = Draining d \<and> rn_notified st' \<and> rn_ready st' = rn_ready st"
proof -
  let ?st = "st\<lparr>rn_world := wk_tasks wk (rn_world st)\<rparr>"
  obtain r st1 where p: "poll_server S ?st = (r, st1)" by fastforce
  have arm: "poll_signal_arm grace wk (st\<lparr>rn_world := w\<rparr>) = (d \<le> wk_now wk, st\<lparr>rn_world := w\<rparr>)" for w
    using assms(1) by (simp add: poll_signal_arm_def)
  from p show ?thesis
    by (cases rule: poll_server_cases)
      (use assms p arm in \<open>auto simp: select_poll_def Let_def split: if_splits\<close>)
qed

lemma select_poll_signalled:
  assumes "rn_arm st = Awaiting" "\<not> rn_notified st" "signalled wk" "select_poll grace S wk st = (e, st')"
  shows "(e = None \<longrightarrow> grace \<noteq> 0) \<and> (e = Some Deadline_Hit \<longrightarrow> grace = 0) \<and>
    (\<forall>r. e = Some (Server_Done r) \<longrightarrow> r = Inr () \<and> ls_open S (rn_world st') = 0) \<and>
    (e = None \<and> \<not> wk_server wk \<longrightarrow> 0 < ls_open S (rn_world st')) \<and>
    rn_arm st' = Draining (wk_now wk + grace) \<and> rn_notified st' \<and> \<not> rn_ready st'"
proof -
  let ?st = "st\<lparr>rn_world := wk_tasks wk (rn_world st)\<rparr>"
  let ?drain = "\<lambda>w. st\<lparr>rn_world := w, rn_ready := False, rn_notified := True,
    rn_arm := Draining (wk_now wk + grace)\<rparr>"
  have arm: "poll_signal_arm grace wk (st\<lparr>rn_world := w\<rparr>) = (grace = 0, ?drain w)" for w
    using assms(1,3) by (simp add: poll_signal_arm_def signalled_def)
  obtain r st1 where p: "poll_server S ?st = (r, st1)" by fastforce
  obtain r2 st2 where q: "poll_server S (?drain (wk_tasks wk (rn_world st))) = (r2, st2)" by fastforce
  show ?thesis
  proof (cases "wk_server wk")
    case True
    from p show ?thesis
      by (cases rule: poll_server_cases)
        (use assms(2,4) True p arm in \<open>auto simp: select_poll_def Let_def split: if_splits\<close>)
  next
    case False
    from q show ?thesis
      by (cases rule: poll_server_cases)
        (use assms(4) False q arm in \<open>auto simp: select_poll_def Let_def split: if_splits\<close>)
  qed
qed

subsection \<open>Running to the end\<close>

lemma loop_draining:
  assumes "rn_arm st = Draining d" "rn_notified st" "\<not> rn_ready st" "select_loop grace S wks st = (e, st')"
  shows "(e = None \<longrightarrow> (\<forall>wk \<in> set wks. \<not> d \<le> wk_now wk)) \<and>
    (e = Some Deadline_Hit \<longrightarrow> (\<exists>wk \<in> set wks. d \<le> wk_now wk)) \<and>
    (\<forall>r. e = Some (Server_Done r) \<longrightarrow> r = Inr () \<and> ls_open S (rn_world st') = 0) \<and>
    (e = None \<and> (wks \<noteq> [] \<or> 0 < ls_open S (rn_world st)) \<longrightarrow> 0 < ls_open S (rn_world st')) \<and>
    rn_notified st' \<and> \<not> rn_ready st'"
  using assms
proof (induction wks arbitrary: st)
  case Nil
  then show ?case by auto
next
  case (Cons wk wks)
  obtain e1 st1 where p: "select_poll grace S wk st = (e1, st1)" by fastforce
  note poll = select_poll_draining [OF Cons.prems(1,2) p]
  show ?case
  proof (cases e1)
    case None
    have run: "select_loop grace S wks st1 = (e, st')" using Cons.prems(4) p None by simp
    have st1: "rn_arm st1 = Draining d" "rn_notified st1" "\<not> rn_ready st1"
      using poll Cons.prems(3) by simp_all
    from Cons.IH [OF st1 run] poll None show ?thesis by auto
  next
    case (Some x)
    with Cons.prems(3,4) p poll show ?thesis by auto
  qed
qed

lemma loop_silent:
  assumes "rn_arm st = Awaiting" "\<not> rn_notified st" "\<forall>wk \<in> set wks. \<not> signalled wk"
  shows "\<exists>w. select_loop grace S wks st = (None, st\<lparr>rn_world := w\<rparr>)"
  using assms
proof (induction wks arbitrary: st)
  case Nil
  then show ?case by (intro exI [of _ "rn_world st"]) simp
next
  case (Cons wk wks)
  obtain w where p: "select_poll grace S wk st = (None, st\<lparr>rn_world := w\<rparr>)"
    using select_poll_waiting [of st wk] Cons.prems by auto
  from Cons.IH [of "st\<lparr>rn_world := w\<rparr>"] Cons.prems p show ?case by fastforce
qed

lemma select_loop_append:
  "select_loop grace S (xs @ ys) st =
     (case select_loop grace S xs st of
        (Some e, st) \<Rightarrow> (Some e, st)
      | (None, st) \<Rightarrow> select_loop grace S ys st)"
  by (induction xs arbitrary: st) (auto split: prod.splits option.splits)

text \<open>From the first signal \<open>s\<close> on.\<close>

lemma loop_signalled:
  assumes "rn_arm st = Awaiting" "\<not> rn_notified st" "\<forall>wk \<in> set before. \<not> signalled wk" "signalled s"
    "select_loop grace S (before @ s # after) st = (e, st')"
  shows "(e = None \<longrightarrow> (\<forall>wk \<in> set (s # after). \<not> wk_now s + grace \<le> wk_now wk)) \<and>
    (e = Some Deadline_Hit \<longrightarrow> (\<exists>wk \<in> set (s # after). wk_now s + grace \<le> wk_now wk)) \<and>
    (\<forall>r. e = Some (Server_Done r) \<longrightarrow> r = Inr () \<and> ls_open S (rn_world st') = 0) \<and>
    (e = None \<and> (after \<noteq> [] \<or> \<not> wk_server s) \<longrightarrow> 0 < ls_open S (rn_world st')) \<and>
    rn_notified st' \<and> \<not> rn_ready st'"
proof -
  obtain w where "select_loop grace S before st = (None, st\<lparr>rn_world := w\<rparr>)"
    using loop_silent [OF assms(1-3)] by blast
  then have run: "select_loop grace S (s # after) (st\<lparr>rn_world := w\<rparr>) = (e, st')"
    using assms(5) by (simp add: select_loop_append)
  obtain e1 st1 where p: "select_poll grace S s (st\<lparr>rn_world := w\<rparr>) = (e1, st1)" by fastforce
  note poll = select_poll_signalled [OF _ _ assms(4) p]
  show ?thesis
  proof (cases e1)
    case None
    have "select_loop grace S after st1 = (e, st')" using run p None by simp
    from loop_draining [OF _ _ _ this] poll assms(1,2) None show ?thesis by auto
  next
    case (Some x)
    with run p poll assms(1,2) show ?thesis by auto
  qed
qed

end

text \<open>
  What the documentation of \<open>axum_server\<close> promises: before its handle is asked to shut down the server
  ends only with an error, and once it is asked it ends when the grace period is over at the latest.
\<close>

locale tls_server =
  fixes poll :: "('rc, 'w) rustls_poll"
  assumes serves_on: "poll rc None now w = (Some r, w') \<Longrightarrow> \<exists>err. r = Inl err"
    and graced: "poll rc (Some (asked, grace)) now w = (None, w') \<Longrightarrow> now < asked + grace"
begin

definition listens :: "'w wakeup \<Rightarrow> bool" where
  "listens wk \<longleftrightarrow> \<not> wk_server wk \<and> signalled wk"

lemma tls_loop_asked:
  assumes "tls_loop poll rc grace wks st = (r, st')" "tn_asked st = Some (t, grace)"
  shows "tn_ready st' = tn_ready st \<and> (r = None \<longrightarrow> (\<forall>wk \<in> set wks. wk_server wk \<longrightarrow> wk_now wk < t + grace))"
  using assms
proof (induction wks arbitrary: st)
  case Nil
  then show ?case by auto
next
  case (Cons wk wks)
  obtain o1 w1 where p: "poll rc (Some (t, grace)) (wk_now wk) (wk_tasks wk (tn_world st)) = (o1, w1)"
    by fastforce
  show ?case
  proof (cases "wk_server wk \<and> o1 \<noteq> None")
    case True
    with Cons.prems p show ?thesis by (auto simp: Let_def)
  next
    case False
    define st1 where "st1 = (if wk_server wk then st\<lparr>tn_world := w1\<rparr>
        else st\<lparr>tn_world := wk_tasks wk (tn_world st)\<rparr>)"
    have "tls_loop poll rc grace wks st1 = (r, st')"
      using Cons.prems False p by (auto simp: Let_def shutdown_listener_def st1_def split: if_splits)
    moreover have "tn_asked st1 = Some (t, grace)" "tn_ready st1 = tn_ready st"
      using Cons.prems(2) by (auto simp: st1_def)
    ultimately show ?thesis using Cons.IH [of st1] False p graced by auto
  qed
qed

lemma tls_loop_outcome:
  assumes "tls_loop poll rc grace wks st = (r, st')" "tn_asked st = None" "tn_ready st"
  shows "case dropWhile (\<lambda>wk. wk_server wk \<or> \<not> signalled wk) wks of
      [] \<Rightarrow> tn_ready st' \<and> (r = None \<or> (\<exists>err. r = Some (Inl err)))
    | s # after \<Rightarrow>
        (r = None \<longrightarrow> \<not> tn_ready st' \<and> (\<forall>wk \<in> set after. wk_server wk \<longrightarrow> wk_now wk < wk_now s + grace)) \<and>
        (r = Some (Inr ()) \<longrightarrow> \<not> tn_ready st')"
  using assms
proof (induction wks arbitrary: st)
  case Nil
  then show ?case by auto
next
  case (Cons wk wks)
  obtain o1 w1 where p: "poll rc None (wk_now wk) (wk_tasks wk (tn_world st)) = (o1, w1)" by fastforce
  show ?case
  proof (cases "wk_server wk \<or> \<not> signalled wk")
    case True
    show ?thesis
    proof (cases "wk_server wk \<and> o1 \<noteq> None")
      case True
      with serves_on p obtain err where "o1 = Some (Inl err)" by blast
      with True Cons.prems p show ?thesis by (auto simp: Let_def split: list.split)
    next
      case False
      define st1 where "st1 = (if wk_server wk then st\<lparr>tn_world := w1\<rparr>
          else st\<lparr>tn_world := wk_tasks wk (tn_world st)\<rparr>)"
      have "tls_loop poll rc grace wks st1 = (r, st')"
        using Cons.prems False True p
        by (cases st) (auto simp: Let_def shutdown_listener_def shutdown_signal_def signalled_def st1_def
          split: if_splits)
      moreover have "tn_asked st1 = None" "tn_ready st1" using Cons.prems by (auto simp: st1_def)
      ultimately show ?thesis using Cons.IH [of st1] True by auto
    qed
  next
    case False
    define st1 where "st1 = st\<lparr>tn_world := wk_tasks wk (tn_world st), tn_ready := False,
        tn_asked := Some (wk_now wk, grace)\<rparr>"
    have "tls_loop poll rc grace wks st1 = (r, st')"
      using Cons.prems False
      by (simp add: Let_def shutdown_listener_def shutdown_signal_def signalled_def st1_def)
    from tls_loop_asked [OF this] False show ?thesis by (auto simp: st1_def)
  qed
qed

end

lemma run_plain_outcome:
  assumes "graceful_server S" "ls_bind S (sv_bind cfg) w = (Inr (), w1)"
    "run_plain S cfg wks True w = (result, ready, w')"
  shows "case dropWhile (\<lambda>wk. \<not> signalled wk) wks of
      [] \<Rightarrow> result = None \<and> ready
    | s # after \<Rightarrow>
        \<not> ready \<and> (result = None \<or> result = Some (Inr ())) \<and>
        (result = None \<longrightarrow> (\<forall>wk \<in> set after. wk_now wk < wk_now s + sv_graceful_shutdown cfg)) \<and>
        (result = None \<and> (after \<noteq> [] \<or> \<not> wk_server s) \<longrightarrow> 0 < ls_open S w') \<and>
        (result \<noteq> None \<longrightarrow> ls_open S w' = 0 \<or>
           (\<exists>wk \<in> set (s # after). wk_now s + sv_graceful_shutdown cfg \<le> wk_now wk))"
proof -
  let ?st = "\<lparr>rn_world = w1, rn_ready = True, rn_notified = False, rn_arm = Awaiting\<rparr>"
  obtain e st where run: "select_loop (sv_graceful_shutdown cfg) S wks ?st = (e, st)" by fastforce
  with assms(2,3) have r: "result = map_option exit_result e" "ready = rn_ready st" "w' = rn_world st"
    by (simp_all add: run_plain_def)
  show ?thesis
  proof (cases "dropWhile (\<lambda>wk. \<not> signalled wk) wks")
    case Nil
    then have "\<forall>wk \<in> set wks. \<not> signalled wk" by simp
    then obtain w2 where "select_loop (sv_graceful_shutdown cfg) S wks ?st = (None, ?st\<lparr>rn_world := w2\<rparr>)"
      using graceful_server.loop_silent [OF assms(1), of ?st wks] by auto
    with run r have "result = None" "ready" by auto
    then show ?thesis unfolding Nil by simp
  next
    case (Cons s after)
    then have split: "wks = takeWhile (\<lambda>wk. \<not> signalled wk) wks @ s # after" "signalled s"
      using takeWhile_dropWhile_id [of "\<lambda>wk. \<not> signalled wk" wks] by (auto simp: dropWhile_eq_Cons_conv)
    have "\<forall>wk \<in> set (takeWhile (\<lambda>wk. \<not> signalled wk) wks). \<not> signalled wk" by (auto dest: set_takeWhileD)
    moreover have "select_loop (sv_graceful_shutdown cfg) S
        (takeWhile (\<lambda>wk. \<not> signalled wk) wks @ s # after) ?st = (e, st)"
      using run split(1) by metis
    ultimately have "(e = None \<longrightarrow> (\<forall>wk \<in> set (s # after). \<not> wk_now s + sv_graceful_shutdown cfg \<le> wk_now wk)) \<and>
      (e = Some Deadline_Hit \<longrightarrow> (\<exists>wk \<in> set (s # after). wk_now s + sv_graceful_shutdown cfg \<le> wk_now wk)) \<and>
      (\<forall>r. e = Some (Server_Done r) \<longrightarrow> r = Inr () \<and> ls_open S (rn_world st) = 0) \<and>
      (e = None \<and> (after \<noteq> [] \<or> \<not> wk_server s) \<longrightarrow> 0 < ls_open S (rn_world st)) \<and>
      rn_notified st \<and> \<not> rn_ready st"
      using graceful_server.loop_signalled [OF assms(1), of ?st "takeWhile (\<lambda>wk. \<not> signalled wk) wks" s]
        split(2) by simp
    then show ?thesis
      unfolding Cons r by (cases e) (auto simp: exit_result_def split: select_exit.splits)
  qed
qed

subsection \<open>Properties\<close>

text \<open>
  C13. The cleartext server drains as documented. While no signal arrives it serves on and stays
  ready. The first signal makes it not ready and tells the listener to drain: from the next poll of
  the server on (in the same wake-up, when the signal is polled first) the run goes on only while a
  connection is open and the grace period lasts, so it is over, without an error, at the first
  wake-up that finds every connection closed, and at the first one past the grace period at the
  latest; before that open connections are not cut. A handler that cannot be installed counts as the
  signal here (\<open>signalled\<close>), as it does in the code.
\<close>

theorem run_plain_drains:
  assumes "graceful_server S" "ls_bind S (sv_bind cfg) w = (Inr (), w1)"
    "run_plain S cfg wks True w = (result, ready, w')"
  shows "case dropWhile (\<lambda>wk. \<not> signalled wk) wks of
      [] \<Rightarrow> result = None \<and> ready
    | s # after \<Rightarrow>
        \<not> ready \<and> (result = None \<or> result = Some (Inr ())) \<and>
        (result = None \<longrightarrow> (\<forall>wk \<in> set after. wk_now wk < wk_now s + sv_graceful_shutdown cfg)) \<and>
        (result = None \<and> (after \<noteq> [] \<or> \<not> wk_server s) \<longrightarrow> 0 < ls_open S w') \<and>
        (result \<noteq> None \<longrightarrow> ls_open S w' = 0 \<or>
           (\<exists>wk \<in> set (s # after). wk_now s + sv_graceful_shutdown cfg \<le> wk_now wk))"
  by (rule run_plain_outcome [OF assms])

text \<open>A server with three connections, one of which closes at every wake-up.\<close>

definition plain_server :: "nat listener_lib" where
  "plain_server =
     \<lparr>ls_bind = (\<lambda>_ w. (Inr (), w)),
      ls_poll = (\<lambda>notified w. (if notified \<and> w = 0 then Some (Inr ()) else None, w)),
      ls_open = (\<lambda>w. w)\<rparr>"

interpretation plain_srv: graceful_server plain_server
  by unfold_locales (auto simp: plain_server_def split: if_splits)

definition wakeup_at :: "instant \<Rightarrow> bool \<Rightarrow> bool \<Rightarrow> nat wakeup" where
  "wakeup_at t signal server =
     \<lparr>wk_now = t, wk_signals = \<lparr>os_ctrl_c = Inr False, os_terminate = Inr signal\<rparr>,
      wk_server = server, wk_tasks = (\<lambda>w. w - 1)\<rparr>"

lemmas wakeup_eval =
  wakeup_at_def signalled_def wait_os_signal_def branch_done_def

lemma run_plain_drains_witness:
  "\<exists>result ready w'. run_plain plain_server default_server_config
       [wakeup_at 5 False True, wakeup_at 10 True True, wakeup_at 11 False True] True 3 =
     (result, ready, w') \<and> \<not> ready \<and> result = Some (Inr ())"
proof -
  let ?wks = "[wakeup_at 5 False True, wakeup_at 10 True True, wakeup_at 11 False True]"
  obtain result ready w' where r: "run_plain plain_server default_server_config ?wks True 3 = (result, ready, w')"
    by (metis prod_cases3)
  have bind: "ls_bind plain_server (sv_bind default_server_config) 3 = (Inr (), 3)" by (simp add: plain_server_def)
  have "w' = 0"
    using r by (simp add: run_plain_def plain_server_def wakeup_eval select_poll_def poll_server_def
        poll_signal_arm_def default_server_config_def from_secs_def split: if_splits)
  with run_plain_drains [OF plain_srv.graceful_server_axioms bind r] r show ?thesis
    by (auto simp: wakeup_eval default_server_config_def plain_server_def)
qed

text \<open>
  C15. A server configured for TLS never falls back to cleartext: without the feature, or with files
  that give no configuration, \<open>run\<close> fails before anything is bound and nothing is changed. Otherwise
  it serves on while no signal arrives, ending only if the listener fails; after the signal it is no
  longer ready, and it has ended by the first poll past the grace period.
\<close>

theorem run_tls_drains:
  assumes "tls_server poll" "sv_tls cfg = Some tls_cfg"
    "run S T F poll cfg wks True w = (result, ready, w')"
  shows "if ft_tls F \<and> is_ok (build_server_config T F tls_cfg) then
      (case dropWhile (\<lambda>wk. wk_server wk \<or> \<not> signalled wk) wks of
         [] \<Rightarrow> ready \<and> (result = None \<or> (\<exists>err. result = Some (Inl err)))
       | s # after \<Rightarrow>
           (result = None \<longrightarrow> \<not> ready \<and>
              (\<forall>wk \<in> set after. wk_server wk \<longrightarrow> wk_now wk < wk_now s + sv_graceful_shutdown cfg)) \<and>
           (result = Some (Inr ()) \<longrightarrow> \<not> ready))
    else (\<exists>err. result = Some (Inl err)) \<and> ready \<and> w' = w"
proof (cases "ft_tls F \<and> is_ok (build_server_config T F tls_cfg)")
  case True
  then obtain rc where rc: "build_server_config T F tls_cfg = Inr rc" by (auto simp: is_ok_iff)
  obtain r st where run: "tls_loop poll rc (sv_graceful_shutdown cfg) wks
      \<lparr>tn_world = w, tn_ready = True, tn_asked = None\<rparr> = (r, st)" by fastforce
  with assms(2,3) True rc have r: "result = r" "ready = tn_ready st"
    by (simp_all add: run_def run_tls_def serve_tls_def)
  show ?thesis
    unfolding r using tls_server.tls_loop_outcome [OF assms(1) run] True by simp
next
  case False
  with assms(2,3) show ?thesis
    by (cases "build_server_config T F tls_cfg") (auto simp: run_def run_tls_def serve_tls_def split: if_splits)
qed

definition plain_tls_poll :: "('rc, nat) rustls_poll" where
  "plain_tls_poll rc asked now w =
     (case asked of
        None \<Rightarrow> (None, w)
      | Some (t, grace) \<Rightarrow> (if w = 0 \<or> t + grace \<le> now then Some (Inr ()) else None, w))"

interpretation plain_tls_srv: tls_server plain_tls_poll
  by unfold_locales (auto simp: plain_tls_poll_def split: if_splits)

lemma run_tls_drains_witness:
  "\<exists>result ready w'. run plain_server (plain_tls example_files)
       \<lparr>ft_tls = False, ft_mtls = False, ft_fips = False, ft_otel = False\<rparr> plain_tls_poll
       (default_server_config\<lparr>sv_tls := Some example_tls\<rparr>) [wakeup_at 5 False True] True 9 =
     (result, ready, w') \<and> (\<exists>err. result = Some (Inl err)) \<and> w' = 9"
proof -
  let ?F = "\<lparr>ft_tls = False, ft_mtls = False, ft_fips = False, ft_otel = False\<rparr>"
  let ?cfg = "default_server_config\<lparr>sv_tls := Some example_tls\<rparr>"
  obtain result ready w' where r: "run plain_server (plain_tls example_files) ?F plain_tls_poll ?cfg
      [wakeup_at 5 False True] True 9 = (result, ready, w')"
    by (metis prod_cases3)
  from run_tls_drains [OF plain_tls_srv.tls_server_axioms _ r] r show ?thesis by auto
qed

end
