(* ===== verification/Cli.thy ===== *)
theory Cli
  imports Lifecycle Tracing Hot_Reload
begin

text \<open>
  The command line: \<open>corx-cli/src/main.rs\<close> and \<open>cli.rs\<close>. Parsing the arguments is the crate \<open>clap\<close>'s;
  a parsed command line is a \<open>cli\<close>. What a process changes outside itself is its state: the
  telemetry globals, the recorder slot, the crypto provider and the world of the listener.
\<close>

subsection \<open>The surface\<close>

datatype dump_format = Toml_Format | Json_Format

datatype command = Serve | Check | Dump dump_format | Version

record cli =
  cli_config :: "string option"
  cli_command :: "command option"

record ('e, 'g, 'q, 'w) process =
  ps_otel :: "'e otel_globals"
  ps_subscriber :: 'g
  ps_recorder :: 'q
  ps_crypto :: bool
  ps_world :: 'w

text \<open>A started server: what it was built as, its reload handle and path, and the metrics handle.\<close>

record ('b, 't) started =
  st_build :: 'b
  st_handle :: reload_handle
  st_path :: "string option"
  st_metrics :: "'t metrics_handle"

subsection \<open>Commands that print\<close>

definition em_dash :: string where
  "em_dash = [CHR 0xE2, CHR 0x80, CHR 0x94]"

text \<open>\<open>{:?}\<close> of the SSRF mode.\<close>

definition debug_ssrf_mode :: "ssrf_mode \<Rightarrow> string" where
  "debug_ssrf_mode m =
     (case m of
        Strict \<Rightarrow> ''Strict''
      | Permissive b \<Rightarrow>
          ''Permissive { allow_private: '' @ (if b then ''true'' else ''false'') @ '' }'')"

definition check_command :: "config_sources \<Rightarrow> string option \<Rightarrow> string + string" where
  "check_command S path =
     bind_res (load S path) (\<lambda>config.
       Inr (''config OK '' @ em_dash @ '' bind = '' @ show_socket (sv_bind (cf_server config)) @
            '', tls = '' @ (if sv_tls (cf_server config) \<noteq> None then ''on'' else ''off'') @
            '', ssrf = '' @ debug_ssrf_mode (sf_mode (cf_ssrf config))))"

definition dump_command ::
  "(config \<Rightarrow> string + string) \<Rightarrow> (config \<Rightarrow> string + string) \<Rightarrow> config_sources \<Rightarrow> string option \<Rightarrow>
     dump_format \<Rightarrow> string + string" where
  "dump_command to_toml to_json S path format =
     bind_res (load S path) (\<lambda>config.
       case format of Toml_Format \<Rightarrow> to_toml config | Json_Format \<Rightarrow> to_json config)"

definition print_version :: "build_features \<Rightarrow> string \<Rightarrow> string \<Rightarrow> string" where
  "print_version F os arch =
     ''corx '' @ cargo_pkg_version @ '' ('' @ os @ ''/'' @ arch @ '') features='' @ active_features F"

subsection \<open>Starting the server\<close>

text \<open>
  Installing the provider answers whether another one was there first; either way one is
  installed, and the answer says whether to warn.
\<close>

definition install_crypto_provider :: "(unit \<Rightarrow> bool) \<Rightarrow> bool \<Rightarrow> bool \<times> bool" where
  "install_crypto_provider install_default installed =
     (if \<not> installed \<and> \<not> install_default () then (True, True) else (False, True))"

record ('m, 'gs, 'gi, 'gd, 'ms, 'mi, 'r, 'h, 'w, 'c, 'k, 'v, 'f, 'e, 'g, 'p, 't, 'q) serve_libs =
  sl_headers :: "'h header_lib"
  sl_nets :: net_lib
  sl_hosts :: "'m hosts_lib"
  sl_limiters :: "('gs, 'gi, 'gd, 'ms, 'mi, 'r) limiter_lib"
  sl_roots :: "string + unit"
  sl_crypto :: "unit \<Rightarrow> bool"
  sl_tracing :: "('f, 'e, 'g) tracing_lib"
  sl_prometheus :: "('p, 't, 'q) prometheus_lib"
  sl_listener :: "'w listener_lib"
  sl_tls :: "('c, 'k, 'v) tls_lib"
  sl_rustls :: "(('c, 'k, 'v) rustls_config, 'w) rustls_poll"

definition serve_command ::
  "('m, 'gs, 'gi, 'gd, 'ms, 'mi, 'r, 'h, 'w, 'c, 'k, 'v, 'f, 'e, 'g, 'p, 't, 'q) serve_libs \<Rightarrow>
     build_features \<Rightarrow> config_sources \<Rightarrow> string option \<Rightarrow> 'w wakeup list \<Rightarrow> ('e, 'g, 'q, 'w) process \<Rightarrow>
     (string + unit) option \<times>
     (('m, 'gs, 'gi, 'gd, 'ms, 'mi, 'r) server_build, 't) started option \<times> ('e, 'g, 'q, 'w) process" where
  "serve_command L F S config_path wks ps =
     (let ps = ps\<lparr>ps_crypto := snd (install_crypto_provider (sl_crypto L) (ps_crypto ps))\<rparr>
      in case load S config_path of
           Inl err \<Rightarrow> (Some (Inl err), None, ps)
         | Inr config \<Rightarrow>
      (case init_tracing (sl_tracing L) F (cf_observability config) (ps_otel ps) (ps_subscriber ps) of
           (Inl err, og, g) \<Rightarrow> (Some (Inl err), None, ps\<lparr>ps_otel := og, ps_subscriber := g\<rparr>)
         | (Inr _, og, g) \<Rightarrow>
             (let ps = ps\<lparr>ps_otel := og, ps_subscriber := g\<rparr>
              in case init_metrics (sl_prometheus L) F (ps_recorder ps) of
                   (Inl err, q) \<Rightarrow> (Some (Inl err), None, ps\<lparr>ps_recorder := q\<rparr>)
                 | (Inr metrics, q) \<Rightarrow>
                     (let ps = ps\<lparr>ps_recorder := q\<rparr>
                      in case server_from_config (sl_headers L) (sl_nets L) (sl_hosts L) (sl_limiters L)
                                (sl_roots L) config of
                           Inl err \<Rightarrow> (Some (Inl err), None, ps)
                         | Inr build \<Rightarrow>
                             (case run (sl_listener L) (sl_tls L) F (sl_rustls L) (cf_server config) wks
                                     (sb_ready build) (ps_world ps) of
                                (r, ready, w) \<Rightarrow>
                                  (r,
                                   Some \<lparr>st_build = build\<lparr>sb_ready := ready\<rparr>, st_handle = hot_reload build,
                                         st_path = config_path, st_metrics = metrics\<rparr>,
                                   ps\<lparr>ps_world := w\<rparr>))))))"

text \<open>
  A command answers the result of the process, unless it still runs, the text it printed, and the
  server it started.
\<close>

definition printed ::
  "string + string \<Rightarrow> ('e, 'g, 'q, 'w) process \<Rightarrow>
     (string + unit) option \<times> string \<times> 's option \<times> ('e, 'g, 'q, 'w) process" where
  "printed r ps =
     (case r of
        Inl err \<Rightarrow> (Some (Inl err), [], None, ps)
      | Inr text \<Rightarrow> (Some (Inr ()), text @ [CHR 0x0A], None, ps))"

definition main_command ::
  "('m, 'gs, 'gi, 'gd, 'ms, 'mi, 'r, 'h, 'w, 'c, 'k, 'v, 'f, 'e, 'g, 'p, 't, 'q) serve_libs \<Rightarrow>
     build_features \<Rightarrow> (config \<Rightarrow> string + string) \<Rightarrow> (config \<Rightarrow> string + string) \<Rightarrow> string \<Rightarrow> string \<Rightarrow>
     config_sources \<Rightarrow> cli \<Rightarrow> 'w wakeup list \<Rightarrow> ('e, 'g, 'q, 'w) process \<Rightarrow>
     (string + unit) option \<times> string \<times>
     (('m, 'gs, 'gi, 'gd, 'ms, 'mi, 'r) server_build, 't) started option \<times> ('e, 'g, 'q, 'w) process" where
  "main_command L F to_toml to_json os arch S cli wks ps =
     (let config_path = cli_config cli
      in case (case cli_command cli of Some c \<Rightarrow> c | None \<Rightarrow> Serve) of
           Serve \<Rightarrow>
             (case serve_command L F S config_path wks ps of
                (r, started, ps) \<Rightarrow> (r, [], started, ps))
         | Check \<Rightarrow> printed (check_command S config_path) ps
         | Dump format \<Rightarrow> printed (dump_command to_toml to_json S config_path format) ps
         | Version \<Rightarrow> printed (Inr (print_version F os arch)) ps)"

subsection \<open>What a start does\<close>

lemma server_from_config_InrD:
  assumes "server_from_config H N D L tls_roots cfg = Inr b"
  shows "build_from H N D L tls_roots cfg None = Inr (sb_policies b)" "sb_ready b"
    "sb_immutable_server b = cf_server cfg" "sb_immutable_limits b = cf_limits cfg"
    "handle_fields (hot_reload b) = frozen_fields cfg" "sb_inflight b = 0"
  using assms
  by (auto simp: server_from_config_def build_policies_def bind_res_eq_Inr hot_reload_def
      handle_fields_def frozen_fields_def)

lemma serve_command_cases:
  assumes "serve_command L F S path wks ps = (r, started, ps')"
  obtains (failed) err where "r = Some (Inl err)" "started = None" "ps_world ps' = ps_world ps"
  | (running) config b metrics ready where "load S path = Inr config"
      "server_from_config (sl_headers L) (sl_nets L) (sl_hosts L) (sl_limiters L) (sl_roots L) config = Inr b"
      "init_tracing (sl_tracing L) F (cf_observability config) (ps_otel ps) (ps_subscriber ps) =
         (Inr (), ps_otel ps', ps_subscriber ps')"
      "init_metrics (sl_prometheus L) F (ps_recorder ps) = (Inr metrics, ps_recorder ps')"
      "run (sl_listener L) (sl_tls L) F (sl_rustls L) (cf_server config) wks True (ps_world ps) =
         (r, ready, ps_world ps')"
      "started = Some \<lparr>st_build = b\<lparr>sb_ready := ready\<rparr>, st_handle = hot_reload b, st_path = path,
         st_metrics = metrics\<rparr>"
proof (cases started)
  case None
  have "(\<exists>err. r = Some (Inl err)) \<and> ps_world ps' = ps_world ps"
    using assms None by (auto simp: serve_command_def Let_def split: sum.splits prod.splits)
  with None show thesis by (auto intro: failed)
next
  case (Some st)
  obtain config where load: "load S path = Inr config"
    using assms Some by (auto simp: serve_command_def Let_def split: sum.splits)
  obtain og g where tr: "init_tracing (sl_tracing L) F (cf_observability config) (ps_otel ps)
      (ps_subscriber ps) = (Inr (), og, g)"
    using assms Some load by (auto simp: serve_command_def Let_def split: sum.splits prod.splits)
  obtain metrics q where m: "init_metrics (sl_prometheus L) F (ps_recorder ps) = (Inr metrics, q)"
    using assms Some load tr by (auto simp: serve_command_def Let_def split: sum.splits prod.splits)
  obtain b where b: "server_from_config (sl_headers L) (sl_nets L) (sl_hosts L) (sl_limiters L)
      (sl_roots L) config = Inr b"
    using assms Some load tr m by (auto simp: serve_command_def Let_def split: sum.splits prod.splits)
  obtain r' ready w where run: "run (sl_listener L) (sl_tls L) F (sl_rustls L) (cf_server config) wks
      True (ps_world ps) = (r', ready, w)"
    by (metis prod_cases3)
  have eq: "r = r'" "started = Some \<lparr>st_build = b\<lparr>sb_ready := ready\<rparr>, st_handle = hot_reload b,
      st_path = path, st_metrics = metrics\<rparr>" "ps_world ps' = w" "ps_recorder ps' = q" "ps_otel ps' = og" "ps_subscriber ps' = g"
    using assms load tr m b run server_from_config_InrD(2) [OF b]
    by (auto simp: serve_command_def Let_def)
  show thesis by (rule running [OF load b]) (use tr m run eq in auto)
qed

lemma main_command_cases:
  assumes "main_command L F to_toml to_json os arch S cli wks ps = (r, out, started, ps')"
  obtains (silent) "r \<noteq> None" "started = None" "ps_world ps' = ps_world ps"
  | (served) "cli_command cli \<in> {None, Some Serve}"
      "serve_command L F S (cli_config cli) wks ps = (r, started, ps')"
proof (cases "cli_command cli \<in> {None, Some Serve}")
  case True
  then have "serve_command L F S (cli_config cli) wks ps = (r, started, ps')"
    using assms by (auto simp: main_command_def Let_def split: prod.splits)
  with True show thesis by (rule served)
next
  case False
  then have "r \<noteq> None \<and> started = None \<and> ps' = ps"
    using assms by (auto simp: main_command_def printed_def Let_def split: command.splits sum.splits option.splits)
  then show thesis by (auto intro: silent)
qed

lemma main_started:
  assumes "main_command L F to_toml to_json os arch S cli wks ps = (r, out, Some st, ps')"
  shows "cli_command cli \<in> {None, Some Serve} \<and> st_path st = cli_config cli \<and>
    load S (cli_config cli) = Inr (lp_config (sb_policies (st_build st))) \<and>
    vr_errors (validate_full (cs_is_file S) (lp_config (sb_policies (st_build st)))) = [] \<and>
    as_configured (sl_headers L) (sl_nets L) (sl_hosts L) (sl_limiters L) (sb_policies (st_build st)) \<and>
    sb_immutable_server (st_build st) = cf_server (lp_config (sb_policies (st_build st))) \<and>
    sb_immutable_limits (st_build st) = cf_limits (lp_config (sb_policies (st_build st))) \<and>
    handle_fields (st_handle st) = frozen_fields (lp_config (sb_policies (st_build st))) \<and>
    init_tracing (sl_tracing L) F (cf_observability (lp_config (sb_policies (st_build st)))) (ps_otel ps)
      (ps_subscriber ps) = (Inr (), ps_otel ps', ps_subscriber ps') \<and>
    init_metrics (sl_prometheus L) F (ps_recorder ps) = (Inr (st_metrics st), ps_recorder ps') \<and>
    run (sl_listener L) (sl_tls L) F (sl_rustls L) (cf_server (lp_config (sb_policies (st_build st))))
      wks True (ps_world ps) = (r, sb_ready (st_build st), ps_world ps')"
  using assms
proof (cases rule: main_command_cases)
  case served
  from served(2) show ?thesis
  proof (cases rule: serve_command_cases)
    case (running config b metrics ready)
    note b = server_from_config_InrD [OF running(2)]
    have "lp_config (sb_policies b) = config" by (rule build_from_InrD(1) [OF b(1)])
    moreover have "as_configured (sl_headers L) (sl_nets L) (sl_hosts L) (sl_limiters L) (sb_policies b)"
      using build_from_as_configured [OF _ b(1)] by simp
    ultimately show ?thesis
      using running served(1) b load_InrD [OF running(1)] by simp
  qed simp
qed simp

lemma main_not_started:
  assumes "main_command L F to_toml to_json os arch S cli wks ps = (r, out, None, ps')"
  shows "r \<noteq> None \<and> ps_world ps' = ps_world ps"
  using assms
proof (cases rule: main_command_cases)
  case served
  from served(2) show ?thesis by (cases rule: serve_command_cases) simp_all
qed simp

subsection \<open>Properties\<close>

text \<open>
  C11. Whatever the command line, a server is started only by the serve command and only from a
  configuration that was loaded and passed validation, after its tracing subscriber and the metrics
  recorder were installed, each of them successfully; it runs exactly
  that configuration (policies, listener, limits), is ready when it starts, and its reload handle
  freezes the fields of that listener. In every other case the process is over and the world of the
  listener is untouched: nothing is bound.
\<close>

theorem main_starts_validated:
  "case main_command L F to_toml to_json os arch S cli wks ps of
     (r, out, None, ps') \<Rightarrow> r \<noteq> None \<and> ps_world ps' = ps_world ps
   | (r, out, Some st, ps') \<Rightarrow>
       (let b = st_build st; cfg = lp_config (sb_policies b) in
          cli_command cli \<in> {None, Some Serve} \<and> st_path st = cli_config cli \<and>
          load S (cli_config cli) = Inr cfg \<and> vr_errors (validate_full (cs_is_file S) cfg) = [] \<and>
          as_configured (sl_headers L) (sl_nets L) (sl_hosts L) (sl_limiters L) (sb_policies b) \<and>
          sb_immutable_server b = cf_server cfg \<and> sb_immutable_limits b = cf_limits cfg \<and>
          handle_fields (st_handle st) = frozen_fields cfg \<and>
          init_tracing (sl_tracing L) F (cf_observability cfg) (ps_otel ps) (ps_subscriber ps) =
            (Inr (), ps_otel ps', ps_subscriber ps') \<and>
          init_metrics (sl_prometheus L) F (ps_recorder ps) = (Inr (st_metrics st), ps_recorder ps') \<and>
          run (sl_listener L) (sl_tls L) F (sl_rustls L) (cf_server cfg) wks True (ps_world ps) =
            (r, sb_ready b, ps_world ps'))"
  using main_started [of L F to_toml to_json os arch S cli wks ps]
    main_not_started [of L F to_toml to_json os arch S cli wks ps]
  by (auto simp: Let_def split: prod.split option.split)

text \<open>
  Across the whole life of a started server, through any sequence of reloads while requests are
  served, the policies in force come from a configuration that was loaded and validated (so no
  credentials are granted to a wildcard, no allowlist is empty, bearer mode has tokens, and so on),
  are compiled from it, and agree with the running listener on every frozen field.
\<close>

theorem started_server_stays_valid:
  assumes "main_command L F to_toml to_json os arch S cli wks ps = (r, out, Some st, ps')"
    "watch_sighup (sl_headers L) (sl_nets L) (sl_hosts L) (sl_limiters L) (sl_roots L) (st_handle st)
       (st_path st) signals (sb_policies (st_build st)) = (ms, p)"
    "\<forall>(S, serve) \<in> set signals. \<forall>q. lp_config (serve q) = lp_config q \<and>
       (as_configured (sl_headers L) (sl_nets L) (sl_hosts L) (sl_limiters L) q \<longrightarrow>
        as_configured (sl_headers L) (sl_nets L) (sl_hosts L) (sl_limiters L) (serve q))"
  shows "let cfg = lp_config p in
    frozen_fields cfg = frozen_fields (lp_config (sb_policies (st_build st))) \<and>
    as_configured (sl_headers L) (sl_nets L) (sl_hosts L) (sl_limiters L) p \<and>
    (\<exists>S' \<in> insert S (fst ` set signals). load S' (st_path st) = Inr cfg) \<and>
    cors_safe cfg \<and> target_ok cfg \<and> auth_ok cfg \<and> rate_limit_ok (cf_rate_limit cfg) \<and>
    length ms = length signals"
proof -
  note start = main_started [OF assms(1)]
  have keep: "as_configured (sl_headers L) (sl_nets L) (sl_hosts L) (sl_limiters L) p \<and>
      frozen_fields (lp_config p) = handle_fields (st_handle st) \<and> length ms = length signals \<and>
      (lp_config p = lp_config (sb_policies (st_build st)) \<or>
        (\<exists>S \<in> fst ` set signals. load S (st_path st) = Inr (lp_config p)))"
    by (rule watch_sighup_invariant [OF _ assms(2)]) (use assms(3) start in \<open>auto simp: Let_def\<close>)
  with start have "\<exists>S' \<in> insert S (fst ` set signals). load S' (st_path st) = Inr (lp_config p)"
    by auto
  then obtain S' where S': "S' \<in> insert S (fst ` set signals)" "load S' (st_path st) = Inr (lp_config p)"
    by blast
  from load_InrD [OF this(2)] have "cors_safe (lp_config p)" "target_ok (lp_config p)"
    "auth_ok (lp_config p)" "rate_limit_ok (cf_rate_limit (lp_config p))"
    by (simp_all add: validate_full_no_errors_iff)
  with keep start S' show ?thesis by (auto simp: Let_def)
qed

text \<open>A process on the instances of all parameters, started with the built-in configuration.\<close>

definition plain_tracing :: "(string, string, bool) tracing_lib" where
  "plain_tracing =
     \<lparr>to_try_new = Some, to_default_env = None, to_new = (\<lambda>s. s), to_exporter = (\<lambda>_ endpoint. Inr endpoint),
      to_try_init = (\<lambda>_ installed. (if installed then Inl ''already set'' else Inr (), True))\<rparr>"

definition example_libs where
  "example_libs =
     \<lparr>sl_headers = list_headers, sl_nets = plain_nets,
      sl_hosts = (alist_dash :: ((string, host_circuit) alist_map) hosts_lib),
      sl_limiters = example_limiters, sl_roots = Inr (), sl_crypto = (\<lambda>_. True),
      sl_tracing = plain_tracing, sl_prometheus = plain_prometheus, sl_listener = plain_server,
      sl_tls = plain_tls example_files, sl_rustls = plain_tls_poll\<rparr>"

definition no_features :: build_features where
  "no_features = \<lparr>ft_tls = False, ft_mtls = False, ft_fips = False, ft_otel = False\<rparr>"

definition example_process :: "(string, bool, plain_recorder, nat) process" where
  "example_process =
     \<lparr>ps_otel = \<lparr>og_propagator = False, og_provider = None\<rparr>, ps_subscriber = False,
      ps_recorder = fresh_recorder, ps_crypto = False, ps_world = 3\<rparr>"

lemma example_started:
  "\<exists>r st ps'. main_command example_libs no_features to_toml to_json os arch (example_sources default_config)
     \<lparr>cli_config = None, cli_command = None\<rparr> wks example_process = (r, [], Some st, ps')"
proof -
  have "vr_errors (validate_full (\<lambda>_. False) default_config) = []"
    by (simp add: validate_full_no_errors_iff cors_safe_def target_ok_def auth_ok_def
        rate_limit_ok_def server_ok_def dimension_ok_def default_config_eval str_simps)
  then have load: "load (example_sources default_config) None = Inr default_config"
    by (simp add: load_def load_raw_def example_sources_def)
  obtain b where b: "server_from_config list_headers plain_nets
      (alist_dash :: ((string, host_circuit) alist_map) hosts_lib) example_limiters (Inr ())
      default_config = Inr b"
    using example_policies_Inr by (auto simp: server_from_config_def example_policies_def)
  obtain h q where m: "init_metrics plain_prometheus no_features fresh_recorder = (Inr h, q)"
    using plain_prom.init_metrics_free [of fresh_recorder no_features] by (auto simp: fresh_recorder_def)
  obtain r ready w where run: "run plain_server (plain_tls example_files) no_features plain_tls_poll
      (cf_server default_config) wks (sb_ready b) 3 = (r, ready, w)"
    by (metis prod_cases3)
  show ?thesis
    using load b m run
    by (simp add: main_command_def serve_command_def Let_def example_libs_def example_process_def
        init_tracing_def plain_tracing_def no_features_def)
qed

lemma started_server_stays_valid_witness:
  "\<exists>r st ps' ms p. main_command example_libs no_features (\<lambda>_. Inl []) (\<lambda>_. Inl []) [] [] (example_sources default_config)
       \<lparr>cli_config = None, cli_command = None\<rparr> [wakeup_at 5 False True] example_process = (r, [], Some st, ps') \<and>
     watch_sighup list_headers plain_nets alist_dash example_limiters (Inr ()) (st_handle st) (st_path st)
       [(example_sources (default_config\<lparr>cf_server := default_server_config\<lparr>sv_http2 := False\<rparr>\<rparr>), \<lambda>p. p)]
       (sb_policies (st_build st)) = (ms, p) \<and> cors_safe (lp_config p)"
proof -
  let ?S = "example_sources (default_config\<lparr>cf_server := default_server_config\<lparr>sv_http2 := False\<rparr>\<rparr>)"
  obtain r st ps' where m: "main_command example_libs no_features (\<lambda>_. Inl []) (\<lambda>_. Inl []) [] [] (example_sources default_config)
      \<lparr>cli_config = None, cli_command = None\<rparr> [wakeup_at 5 False True] example_process = (r, [], Some st, ps')"
    using example_started by blast
  obtain ms p where w: "watch_sighup (sl_headers example_libs) (sl_nets example_libs) (sl_hosts example_libs)
      (sl_limiters example_libs) (sl_roots example_libs) (st_handle st) (st_path st) [(?S, \<lambda>p. p)]
      (sb_policies (st_build st)) = (ms, p)" by fastforce
  from started_server_stays_valid [OF m w] have "cors_safe (lp_config p)" by (simp add: Let_def)
  with m w show ?thesis by (auto simp: example_libs_def)
qed

text \<open>
  Checking a configuration is not building its policies: a header name that is none passes the
  validator, so the check command accepts what the serve command then refuses.
\<close>

definition bad_header_config :: config where
  "bad_header_config =
     default_config\<lparr>cf_security := default_security_config\<lparr>sc_remove_request_headers := [''x y'']\<rparr>\<rparr>"

lemma bad_header_passes_check: "is_ok (check_command (example_sources bad_header_config) None)"
proof -
  have "vr_errors (validate_full (\<lambda>_. False) bad_header_config) = []"
    by (simp add: validate_full_no_errors_iff cors_safe_def target_ok_def auth_ok_def
        rate_limit_ok_def server_ok_def dimension_ok_def bad_header_config_def default_config_eval str_simps)
  then have "load (example_sources bad_header_config) None = Inr bad_header_config"
    by (simp add: load_def load_raw_def example_sources_def)
  then show ?thesis by (simp add: check_command_def)
qed

lemma bad_header_refused:
  "\<not> is_ok (server_from_config list_headers N D L tls_roots bad_header_config)"
  by (simp add: server_from_config_def build_policies_def build_from_def Let_def bad_header_config_def
      default_config_def default_security_config_def header_filter_try_new_def context_err_def
      list_headers_eval)

end
