(* ===== verification/Request_Frame.thy ===== *)
theory Request_Frame
  imports Router Hot_Reload Metrics
begin

text \<open>
  The frame of a request: what serving one may record and what it may change. Every component has a
  lemma that its events have been described to the recorder, and one that its operations move
  counters, budgets and tables only; the router's follow from them.
\<close>

subsection \<open>Settings and tables\<close>

text \<open>All of a server but its counters, budgets and tables.\<close>

definition policy_view where
  "policy_view b =
     (let p = sb_policies b in
        (lp_config p, lp_cors p, lp_request_filter p, lp_response_filter p, rg_origin (lp_guard p),
         limiter_settings (rg_rate_limit (lp_guard p)), lp_target_policy p,
         circuit_settings (lp_circuit p), lp_upstream p,
         (sb_immutable_server b, sb_immutable_limits b, sb_immutable_metrics_endpoint b, sb_ready b)))"

text \<open>An environment whose other tasks move counters, budgets and tables only, as requests do.\<close>

definition framed_env ::
  "('w, 'h, 'm, ('m, 'gs, 'gi, 'gd, 'ms, 'mi, 'r) server_build) serve_env \<Rightarrow> bool" where
  "framed_env E \<longleftrightarrow>
     (\<forall>w b. policy_view (se_others E w b) = policy_view b) \<and>
     (\<forall>req w cb. circuit_settings (snd (snd (ce_request (se_client E) req w cb))) = circuit_settings cb)"

abbreviation described :: "metric list \<Rightarrow> bool" where
  "described ms \<equiv> list_all (conforms descriptions) ms"

subsection \<open>SSRF guard and limiter\<close>

lemma evaluate_described: "described (fst (evaluate N g ip))"
  by (simp add: evaluate_def record_block_def split: ssrf_mode.split option.split)

lemma resolve_loop_described: "described (fst (resolve_loop N g port ips adm v))"
proof (induction N g port ips adm v rule: resolve_loop.induct)
  case (2 N g port raw rest adm v)
  then show ?case
    using evaluate_described [of N g "canonicalise raw"]
    by (auto simp: Let_def split: prod.splits sum.splits)
qed simp

lemma resolve_described: "described (fst (resolve N g dns host port))"
proof -
  have "described ms" if "evaluate N g ip = (ms, r)" for ip ms r
    using that evaluate_described [of N g ip] by simp
  moreover have "described ms" if "resolve_loop N g port ips adm v = (ms, r)" for ips adm v ms r
    using that resolve_loop_described [of N g port ips adm v] by simp
  ultimately show ?thesis
    by (auto simp: resolve_def check_ip_def dns_lookup_def Let_def split: option.split sum.split prod.split)
qed

lemma limiter_frame:
  "described (fst (fst (check_origin_dim L now ctx lim)))"
  "described (fst (fst (check_ip_dim N L now ctx lim)))"
  "described (fst (fst (check_host_dim L now ctx lim)))"
  "described (fst (fst (check_global_dim L now lim)))"
  "limiter_settings (snd (check_origin_dim L now ctx lim)) = limiter_settings lim"
  "limiter_settings (snd (check_ip_dim N L now ctx lim)) = limiter_settings lim"
  "limiter_settings (snd (check_host_dim L now ctx lim)) = limiter_settings lim"
  "limiter_settings (snd (check_global_dim L now lim)) = limiter_settings lim"
  by (simp_all add: check_origin_dim_def check_ip_dim_def check_host_dim_def check_global_dim_def
      admit_and_check_str_def admit_and_check_def admit_key_def reject_def rate_limited_def
      limiter_settings_def gov_check_def Let_def split: option.split prod.split sum.split)

lemma and_then_frame:
  assumes "described (fst (fst r))" "\<And>s. described (fst (fst (f s)))"
  shows "described (fst (fst (and_then r f)))"
  using assms(1) assms(2) [of "snd r"]
  by (simp add: and_then_def case_prod_beta split: sum.split)

lemma and_then_settings:
  assumes "\<And>s. limiter_settings (snd (f s)) = limiter_settings s"
  shows "limiter_settings (snd (and_then r f)) = limiter_settings (snd r)"
  using assms [of "snd r"] by (simp add: and_then_def case_prod_beta split: sum.split)

lemma rate_check_frame:
  "described (fst (fst (rate_check N L now ctx lim)))"
  "limiter_settings (snd (rate_check N L now ctx lim)) = limiter_settings lim"
  unfolding rate_check_def
  by (simp_all add: and_then_frame and_then_settings limiter_frame)

lemma check_rate_frame:
  assumes "check_rate H N L now request ip host g = ((ms, r), g')"
  shows "described ms \<and> rg_origin g' = rg_origin g \<and>
    limiter_settings (rg_rate_limit g') = limiter_settings (rg_rate_limit g)"
proof -
  let ?ctx = "\<lparr>rc_origin = Option.bind (hm_get H (rq_headers request) ORIGIN) (hv_to_str H),
    rc_client_ip = ip, rc_target_host = host\<rparr>"
  have r: "rate_check N L now ?ctx (rg_rate_limit g) = ((ms, r), rg_rate_limit g')" "rg_origin g' = rg_origin g"
    using assms by (auto simp: check_rate_def Let_def split: prod.splits)
  show ?thesis using rate_check_frame [of N L now ?ctx "rg_rate_limit g"] r by simp
qed

subsection \<open>Breaker and upstream client\<close>

lemma evict_settings [simp]: "circuit_settings (evict_if_needed D now cb) = circuit_settings cb"
  by (simp add: evict_if_needed_def circuit_settings_def Let_def)

lemma circuit_settings_hosts [simp]: "circuit_settings (cb\<lparr>br_hosts := m\<rparr>) = circuit_settings cb"
  by (simp add: circuit_settings_def)

lemma hop_admit_frame:
  "hop_admit D now host cb = (ms, r, cb') \<Longrightarrow> described ms \<and> circuit_settings cb' = circuit_settings cb"
  by (auto simp: hop_admit_def check_circuit_def Let_def split: prod.splits if_splits)

lemma record_failure_frame:
  "record_failure D now host cb = (ms, cb') \<Longrightarrow> described ms \<and> circuit_settings cb' = circuit_settings cb"
  by (auto simp: record_failure_def Let_def split: prod.splits if_splits)

lemma hop_drop_frame:
  "hop_drop D now hop cb = (ms, cb') \<Longrightarrow> described ms \<and> circuit_settings cb' = circuit_settings cb"
  by (auto simp: hop_drop_def dest: record_failure_frame split: if_splits)

lemma settle_frame:
  "settle_failure D now hop cb = (ms, ev, cb') \<Longrightarrow> described ms \<and> circuit_settings cb' = circuit_settings cb"
  "settle_success D now hop cb = (ms, ev, cb') \<Longrightarrow> described ms \<and> circuit_settings cb' = circuit_settings cb"
  "settle_terminal D now hop s cb = (ms, ev, cb') \<Longrightarrow> described ms \<and> circuit_settings cb' = circuit_settings cb"
  by (auto simp: settle_terminal_def settle_failure_def settle_success_def hop_failure_def hop_success_def
      hop_drop_def record_success_def Let_def dest!: record_failure_frame
      split: prod.splits if_splits option.splits)

lemma after_response_frame:
  assumes "after_response H U D u mh now st hops hop r cb = (ms, ev, t, cb')"
  shows "described ms \<and> circuit_settings cb' = circuit_settings cb"
  using assms
  by (auto simp: after_response_def record_redirect_hops_def Let_def dest!: settle_frame
      split: if_splits prod.splits redirect_policy.splits sum.splits next_hop.splits)

lemma hop_turn_frame:
  assumes "hop_turn H U D E u mh st hops req w cb = (ms, ev, t, w', cb')"
    "\<forall>req w cb. circuit_settings (snd (snd (ce_request E req w cb))) = circuit_settings cb"
  shows "described ms \<and> circuit_settings cb' = circuit_settings cb"
proof -
  have req: "circuit_settings cb2 = circuit_settings cb1" if "ce_request E req w cb1 = (out, w2, cb2)" for cb1 out w2 cb2
    using assms(2) that by (metis snd_conv)
  show ?thesis
    using assms(1)
    by (auto simp: hop_turn_def Let_def
        dest!: hop_admit_frame hop_drop_frame settle_frame(1) after_response_frame req
        split: sum.splits prod.splits awaited.splits)
qed

lemma execute_loop_frame:
  "execute_loop H U D E u mh st hops req w cb = (ms, ev, r, w', cb') \<Longrightarrow>
    \<forall>req w cb. circuit_settings (snd (snd (ce_request E req w cb))) = circuit_settings cb \<Longrightarrow>
    described ms \<and> circuit_settings cb' = circuit_settings cb"
proof (induction H U D E u mh st hops req w cb arbitrary: ms ev r w' cb' rule: execute_loop.induct)
  case (1 H U D E u mh st hops req w cb)
  obtain ms1 ev1 t w1 cb1 where turn: "hop_turn H U D E u mh st hops req w cb = (ms1, ev1, t, w1, cb1)"
    by (metis prod_cases5)
  note frame = hop_turn_frame [OF turn "1.prems"(2)]
  show ?case
  proof (cases t)
    case (Return res)
    with "1.prems"(1) turn frame show ?thesis by (simp add: execute_loop.simps [of H U D E u mh st])
  next
    case (Next st' req')
    obtain ms2 ev2 r2 w2 cb2 where
      rest: "execute_loop H U D E u mh st' (sat_add hops 1) req' w1 cb1 = (ms2, ev2, r2, w2, cb2)"
      by (metis prod_cases5)
    with "1.prems"(1) turn Next have "ms = ms1 @ ms2" "cb' = cb2"
      by (auto simp: execute_loop.simps [of H U D E u mh st])
    with "1.IH" [OF turn [symmetric] refl refl Next refl rest "1.prems"(2)] frame show ?thesis by simp
  qed
qed

subsection \<open>Handler, layers and router\<close>

lemma view_with [simp]:
  "circuit_settings cb = circuit_settings (lp_circuit (sb_policies b)) \<Longrightarrow>
     policy_view (with_circuit cb b) = policy_view b"
  "rg_origin g = rg_origin (lp_guard (sb_policies b)) \<Longrightarrow>
     limiter_settings (rg_rate_limit g) = limiter_settings (rg_rate_limit (lp_guard (sb_policies b))) \<Longrightarrow>
     policy_view (with_guard g b) = policy_view b"
  "policy_view (b\<lparr>sb_inflight := n\<rparr>) = policy_view b"
  "policy_view (permit_drop b) = policy_view b"
  by (simp_all add: policy_view_def with_circuit_def with_guard_def permit_drop_def Let_def)

lemma execute_proxy_frame:
  assumes "execute_proxy H U D E request target ip w b = (ms, ev, r, w', b')" "framed_env E"
  shows "described ms \<and> policy_view b' = policy_view b"
proof -
  have ex: "described ms \<and> circuit_settings cb' = circuit_settings cb"
    if "execute H U D (se_client E) u req w cb = (ms, ev, r, w', cb')" for u req w cb ms ev r w' cb'
    using that assms(2) by (auto simp: execute_def split_initial_def framed_env_def Let_def dest: execute_loop_frame)
  have others: "policy_view (se_others E w b) = policy_view b" for w b
    using assms(2) by (simp add: framed_env_def)
  show ?thesis
    using assms(1)
    by (auto simp: execute_proxy_def upstream_duration_def others Let_def dest!: ex
        split: sum.splits prod.splits awaited.splits)
qed

lemma preflight_frame:
  assumes "preflight_guards H U N L now request ip b = ((ms, r), b')"
  shows "described ms \<and> policy_view b' = policy_view b"
  using assms
  by (auto simp: preflight_guards_def Let_def dest!: check_rate_frame
      split: if_splits sum.splits prod.splits)

lemma serve_frame:
  assumes "serve H U N D L E request ip w b = (ms, ev, r, w', b')" "framed_env E"
  shows "described ms \<and> policy_view b' = policy_view b"
  using assms
  by (auto simp: serve_def Let_def dest!: preflight_frame check_rate_frame execute_proxy_frame
      split: if_splits sum.splits prod.splits)

lemma proxy_frame:
  assumes "proxy H U N D L E request ip w b = (ms, ev, r, w', b')" "framed_env E"
  shows "described ms \<and> policy_view b' = policy_view b"
  using assms
  by (auto simp: proxy_def outcome_metrics_def request_duration_def Let_def dest!: serve_frame
      split: prod.splits awaited.splits sum.splits)

lemma route_frame:
  assumes "route_service H U N D L E render peer request w b = (ms, ev, r, w', b')" "framed_env E"
  shows "described ms \<and> policy_view b' = policy_view b"
  using assms
  by (auto simp: route_service_def dest!: proxy_frame split: option.splits prod.splits)

lemma router_frame:
  assumes "build_router H U N D L E render timed_out peer request w b = (entry, ms, ev, r, w', b')"
    "framed_env E"
  shows "described ms \<and> policy_view b' = policy_view b"
  using assms
  by (auto simp: build_router_def access_log_layer_def cors_layer_def timeout_layer_def
      header_limit_layer_def load_shed_layer_def auth_layer_def rate_limited_def Let_def dest!: route_frame
      split: prod.splits awaited.splits if_splits sum.splits)

end
