(* ===== verification/Connect.thy ===== *)
theory Connect
  imports Router
begin

text \<open>
  Which addresses the proxy connects to. The connector of the HTTP client is third-party: what is
  known of it is the locale \<open>connector\<close>, the contract between \<open>corx-core/src/proxy/upstream.rs\<close> and
  the client it builds. The theory follows the connections a request opens from one hop through
  redirects, handler and layers, and joins them with what the SSRF guard admits.
\<close>

subsection \<open>The connector\<close>

text \<open>
  The address a host is written as, brackets of an IPv6 literal taken off; the connector does not
  ask its resolver for such a host.
\<close>

definition address_literal :: "string \<Rightarrow> ip_addr option" where
  "address_literal host =
     parse_ip (if host \<noteq> [] \<and> hd host = CHR ''['' \<and> last host = CHR '']'' then butlast (tl host) else host)"

text \<open>An address the connector may dial for a host: the literal, or an answer of the guarded resolver.\<close>

definition dialled :: "net_lib \<Rightarrow> upstream \<Rightarrow> string \<Rightarrow> ip_addr \<Rightarrow> bool" where
  "dialled N u host ip \<longleftrightarrow>
     (case address_literal host of
        Some a \<Rightarrow> ip = a
      | None \<Rightarrow> (\<exists>dns addrs. snd (guarded_resolver N u dns host) = Inr addrs \<and> ip \<in> fst ` set addrs))"

lemma dialled_admitted:
  assumes "dialled N u host ip" "address_literal host \<noteq> Some ip"
  shows "address_admitted N (ups_guard u) ip \<and> (\<forall>a. ip \<noteq> V6 (to_ipv6_mapped a))"
proof -
  obtain dns addrs where "snd (resolve N (ups_guard u) dns host 0) = Inr addrs" "ip \<in> fst ` set addrs"
    using assms by (auto simp: dialled_def guarded_resolver_def split: option.splits)
  with resolve_admits [OF this(1)] canonical_not_mapped show ?thesis by fastforce
qed

text \<open>The connections opened between two worlds, all for requests of a list.\<close>

definition opens ::
  "('w \<Rightarrow> (string \<times> ip_addr) list) \<Rightarrow> (string \<Rightarrow> ip_addr \<Rightarrow> bool) \<Rightarrow> 'h request list \<Rightarrow> 'w \<Rightarrow> 'w \<Rightarrow> bool" where
  "opens conns ok qs w w' \<longleftrightarrow>
     (\<exists>new. conns w' = conns w @ new \<and>
        (\<forall>(host, ip) \<in> set new. ok host ip \<and> host \<in> (\<lambda>q. host_of (rq_uri q)) ` set qs))"

lemma opens_refl [simp]: "opens conns ok qs w w"
  by (simp add: opens_def)

lemma opens_trans:
  assumes "opens conns ok qs w w1" "opens conns ok qs' w1 w2"
  shows "opens conns ok (qs @ qs') w w2"
proof -
  obtain new new' where "conns w1 = conns w @ new" "conns w2 = conns w1 @ new'"
    "\<forall>(host, ip) \<in> set new. ok host ip \<and> host \<in> (\<lambda>q. host_of (rq_uri q)) ` set qs"
    "\<forall>(host, ip) \<in> set new'. ok host ip \<and> host \<in> (\<lambda>q. host_of (rq_uri q)) ` set qs'"
    using assms unfolding opens_def by blast
  then show ?thesis unfolding opens_def by (intro exI [of _ "new @ new'"]) fastforce
qed

locale connector =
  fixes N :: net_lib and u :: upstream and C :: "('w, 'h, 'm) client_env"
    and conns :: "'w \<Rightarrow> (string \<times> ip_addr) list"
  assumes request_dials: "ce_request C req w cb = (out, w', cb') \<Longrightarrow> opens conns (dialled N u) [req] w w'"
begin

lemma hop_turn_opens:
  assumes "hop_turn H U D C u mh st hops req w cb = (ms, ev, t, w', cb')"
  shows "opens conns (dialled N u) (sent ev) w w'"
  using assms
proof (cases rule: hop_turn_events)
  case (refused e)
  with assms have "w' = w"
    by (auto simp: hop_turn_def Let_def split: sum.splits prod.splits awaited.splits)
  then show ?thesis by simp
next
  case (hop e)
  with assms obtain out cb1 cb2 where "ce_request C req w cb1 = (out, w', cb2)"
    by (auto simp: hop_turn_def hop_events_def Let_def split: sum.splits prod.splits awaited.splits)
  with hop show ?thesis using request_dials by simp
qed

end

lemma execute_loop_opens:
  assumes "execute_loop H U D E u mh st hops req w cb = (ms, ev, r, w', cb')" "connector N u E conns"
  shows "opens conns (dialled N u) (sent ev) w w'"
  using assms
proof (induction H U D E u mh st hops req w cb arbitrary: ms ev r w' cb' rule: execute_loop.induct)
  case (1 H U D E u mh st hops req w cb)
  obtain ms1 ev1 t w1 cb1 where turn: "hop_turn H U D E u mh st hops req w cb = (ms1, ev1, t, w1, cb1)"
    by (metis prod_cases5)
  note first = connector.hop_turn_opens [OF "1.prems"(2) turn]
  show ?case
  proof (cases t)
    case (Return res)
    with "1.prems"(1) turn first show ?thesis by (simp add: execute_loop.simps [of H U D E u mh st])
  next
    case (Next st' req')
    obtain ms2 ev2 r2 w2 cb2 where
      rest: "execute_loop H U D E u mh st' (sat_add hops 1) req' w1 cb1 = (ms2, ev2, r2, w2, cb2)"
      by (metis prod_cases5)
    with "1.prems"(1) turn Next have ev: "ev = ev1 @ ev2" "w' = w2"
      by (auto simp: execute_loop.simps [of H U D E u mh st])
    from "1.IH" [OF turn [symmetric] refl refl Next refl rest "1.prems"(2)] show ?thesis
      unfolding ev sent_append by (rule opens_trans [OF first])
  qed
qed

context connector begin

lemma execute_opens:
  "execute H U D C u req w cb = (ms, ev, r, w', cb') \<Longrightarrow> opens conns (dialled N u) (sent ev) w w'"
  by (auto simp: execute_def split_initial_def Let_def intro: execute_loop_opens connector_axioms)

lemma execute_proxy_opens:
  assumes "execute_proxy H U D E request target ip w b = (ms, ev, r, w', b')" "se_client E = C"
    "lp_upstream (sb_policies b) = u"
  shows "opens conns (dialled N u) (sent ev) w w'"
  using assms(1) unfolding execute_proxy_def Let_def assms(2,3)
  by (auto dest!: execute_opens split: sum.splits prod.splits awaited.splits)

lemma serve_opens:
  assumes "serve H U N' D L E request ip w b = (ms, ev, r, w', b')" "se_client E = C"
    "lp_upstream (sb_policies b) = u"
  shows "opens conns (dialled N u) (sent ev) w w'"
  using assms(1)
  by (auto simp: serve_def Let_def assms(3) dest!: execute_proxy_opens [OF _ assms(2)] split: if_splits sum.splits prod.splits)

lemma route_opens:
  assumes "route_service H U N' D L E render peer request w b = (ms, ev, r, w', b')" "se_client E = C"
    "lp_upstream (sb_policies b) = u"
  shows "opens conns (dialled N u) (sent ev) w w'"
  using assms(1)
  by (auto simp: route_service_def proxy_def Let_def dest!: serve_opens [OF _ assms(2,3)] split: option.splits prod.splits)

lemma router_opens:
  assumes "build_router H U N' D L E render timed_out peer request w b = (entry, ms, ev, r, w', b')"
    "se_client E = C" "lp_upstream (sb_policies b) = u"
  shows "opens conns (dialled N u) (sent ev) w w'"
  using assms(1)
  by (auto simp: build_router_def access_log_layer_def cors_layer_def timeout_layer_def
      header_limit_layer_def load_shed_layer_def auth_layer_def Let_def assms(3)
      dest!: route_opens [OF _ assms(2)]
      split: prod.splits awaited.splits if_splits sum.splits)

end

subsection \<open>A client to evaluate on\<close>

text \<open>
  A client that opens a connection for every request, to the literal or to the first address the
  resolver answers, keeps a log of them, and answers from a list of responses.
\<close>

definition dial :: "(string \<Rightarrow> string + ip_addr list) \<Rightarrow> upstream \<Rightarrow> string \<Rightarrow> ip_addr option" where
  "dial dns u host =
     (case address_literal host of
        Some a \<Rightarrow> Some a
      | None \<Rightarrow> (case snd (guarded_resolver plain_nets u dns host) of
                   Inr ((ip, port) # _) \<Rightarrow> Some ip
                 | _ \<Rightarrow> None))"

definition dialling_env ::
  "(string \<Rightarrow> string + ip_addr list) \<Rightarrow> upstream \<Rightarrow>
     (entries response list \<times> (string \<times> ip_addr) list, entries, (string, host_circuit) alist_map) client_env" where
  "dialling_env dns u =
     \<lparr>ce_now = (\<lambda>_. 0),
      ce_request = (\<lambda>req (rs, log) cb.
        case dial dns u (host_of (rq_uri req)) of
          None \<Rightarrow> (Ready (Inl ''connect''), (rs, log), cb)
        | Some ip \<Rightarrow>
            (case rs of
               [] \<Rightarrow> (Ready (Inl ''closed''), ([], log @ [(host_of (rq_uri req), ip)]), cb)
             | r # rs \<Rightarrow> (Ready (Inr r), (rs, log @ [(host_of (rq_uri req), ip)]), cb)))\<rparr>"

lemma dial_dialled: "dial dns u host = Some ip \<Longrightarrow> dialled plain_nets u host ip"
  by (force simp: dial_def dialled_def split: option.splits sum.splits list.splits prod.splits)

interpretation dialling: connector plain_nets u "dialling_env dns u" snd for u dns
  by unfold_locales
    (auto simp: dialling_env_def opens_def dial_dialled split: option.splits list.splits)

lemma default_strict: "sf_mode default_ssrf_config = Strict"
  by (simp add: default_ssrf_config_def)

lemma default_admits:
  "address_admitted plain_nets (ssrf_new plain_nets default_ssrf_config) ip \<longleftrightarrow>
     \<not> list_ex (\<lambda>(a, l). same_top_bits l a ip) default_blocked"
  unfolding strict_admitted [OF plain.ip_nets_axioms default_strict]
  by (simp add: default_ssrf_config_def in_nets_def)

definition example_dns :: "string \<Rightarrow> string + ip_addr list" where
  "example_dns host = Inr [V4 0x7F000001, V4 0x08080808]"

text \<open>
  A name is vetted, a literal is not: the loopback address a name resolves to is passed over, but the
  same address written in the target is dialled, though the guard would refuse it if it were asked.
\<close>

lemma literal_is_dialled:
  "dial example_dns (example_upstream Follow) ''127.0.0.1'' = Some (V4 0x7F000001)"
  "snd (check_ip plain_nets (ups_guard (example_upstream Follow)) (V4 0x7F000001)) =
     Inl (SsrfBlocked (V4 0x7F000001))"
proof -
  show "dial example_dns (example_upstream Follow) ''127.0.0.1'' = Some (V4 0x7F000001)"
    by (simp add: dial_def address_literal_def parse_ip_eval)
  have "\<not> address_admitted plain_nets (ssrf_new plain_nets default_ssrf_config) (V4 0x7F000001)"
    by (simp add: default_admits default_blocked_def)
  then show "snd (check_ip plain_nets (ups_guard (example_upstream Follow)) (V4 0x7F000001)) =
     Inl (SsrfBlocked (V4 0x7F000001))"
    by (simp add: example_upstream_def check_ip_cases canonicalise_def)
qed

lemma name_is_vetted: "dial example_dns (example_upstream Follow) ''a.test'' = Some (V4 0x08080808)"
proof -
  have "parse_ip ''a.test'' = None" by (simp add: parse_ip_eval)
  then have "snd (guarded_resolver plain_nets (example_upstream Follow) example_dns ''a.test'') =
      Inr [(V4 0x08080808, 0)]"
    by (simp add: guarded_resolver_def example_upstream_def example_dns_def resolve_cases
        default_admits canonicalise_def default_blocked_def)
  with \<open>parse_ip ''a.test'' = None\<close> show ?thesis by (simp add: dial_def address_literal_def)
qed

lemma example_sends:
  "ce_request (dialling_env example_dns (example_upstream Follow)) example_request (r # rs, log) cb =
     (Ready (Inr r), (rs, log @ [(''a.test'', V4 0x08080808)]), cb)"
  by (simp add: dialling_env_def example_request_def example_uri_def host_of_def name_is_vetted)

lemma example_uri_admitted: "check_uri (ups_target_policy (example_upstream p)) (rq_uri example_request) = Inr ()"
  by (simp add: check_uri_def check_authority_def target_from_config_def default_target_config_def
      default_schemes_def str_simps example_upstream_def example_request_def example_uri_def)

lemma example_connections:
  "snd (fst (snd (snd (snd (hop_turn list_headers plain_urls alist_dash
       (dialling_env example_dns (example_upstream Follow)) (example_upstream Follow) mh st hops example_request
       ([\<lparr>rs_status = 200, rs_headers = [], rs_body = []\<rparr>], []) example_breaker))))) =
     [(''a.test'', V4 0x08080808)]"
  by (simp add: hop_turn_def example_uri_admitted example_sends hop_admit_def check_circuit_def
      example_breaker_def circuit_from_config_def after_response_def is_redirect_def settle_terminal_def
      is_server_error_def settle_success_def hop_success_def hop_drop_def record_success_def)

subsection \<open>Properties\<close>

text \<open>
  C2. No name leads inside: with a snapshot compiled from a strict configuration, whatever a client
  requests and however its redirects go, every connection the proxy opens is for the host of a
  request it sent (so none is opened when a guard refused the client), and goes to an address that
  is no mapped IPv4 form, is of an enabled family and lies outside every built-in and extra blocked
  range unless an allowed range covers it; the one exception is a host that is itself written as an
  address, which the guard never sees.
\<close>

theorem connections_vetted:
  assumes "ip_nets N" "connector N (lp_upstream (sb_policies b)) (se_client E) conns"
    "as_configured H N D L (sb_policies b)"
    "cf_ssrf (lp_config (sb_policies b)) = cfg" "sf_mode cfg = Strict"
    "build_router H U N D L E render timed_out peer request w b = (entry, ms, ev, r, w', b')"
  shows "\<exists>new. conns w' = conns w @ new \<and>
    (\<forall>(host, ip) \<in> set new.
       (\<exists>q \<in> set (sent ev). host = host_of (rq_uri q)) \<and>
       (address_literal host = Some ip \<or>
        (\<forall>a. ip \<noteq> V6 (to_ipv6_mapped a)) \<and> (sf_allow_ipv6 cfg \<or> \<not> is_ipv6 ip) \<and>
        (in_nets N (sf_extra_allowed_cidrs cfg) ip \<or>
         \<not> list_ex (\<lambda>(a, l). same_top_bits l a ip) default_blocked \<and>
         \<not> in_nets N (sf_extra_blocked_cidrs cfg) ip)))"
proof -
  let ?u = "lp_upstream (sb_policies b)"
  obtain new where new: "conns w' = conns w @ new"
    "\<forall>(host, ip) \<in> set new. dialled N ?u host ip \<and> host \<in> (\<lambda>q. host_of (rq_uri q)) ` set (sent ev)"
    using connector.router_opens [OF assms(2,6)] unfolding opens_def by blast
  have guard: "ups_guard ?u = ssrf_new N cfg"
    using assms(3,4) by (simp add: as_configured_def Let_def)
  have "address_literal host = Some ip \<or> address_admitted N (ssrf_new N cfg) ip \<and> (\<forall>a. ip \<noteq> V6 (to_ipv6_mapped a))"
    if "dialled N ?u host ip" for host ip
    using dialled_admitted [OF that] guard by auto
  with new(2) have "\<forall>(host, ip) \<in> set new. (\<exists>q \<in> set (sent ev). host = host_of (rq_uri q)) \<and>
      (address_literal host = Some ip \<or>
       address_admitted N (ssrf_new N cfg) ip \<and> (\<forall>a. ip \<noteq> V6 (to_ipv6_mapped a)))"
    by fastforce
  with new(1) show ?thesis
    unfolding strict_admitted [OF assms(1,5)] by (intro exI [of _ new]) fastforce
qed

lemma connections_vetted_witness:
  "\<exists>p ms ev r w' b' entry. example_policies = Inr p \<and>
     build_router list_headers plain_urls plain_nets alist_dash example_limiters
       \<lparr>se_client = dialling_env example_dns (lp_upstream p), se_uuid = (\<lambda>_. ''id''), se_others = (\<lambda>_ b. b)\<rparr>
       (\<lambda>_. []) (\<lambda>_. False) (V4 0x01020304) example_inbound ([example_ok], [])
       (example_server\<lparr>sb_policies := p\<rparr>) = (entry, ms, ev, r, w', b') \<and>
     (\<forall>(host, ip) \<in> set (snd w').
        address_literal host = Some ip \<or> \<not> list_ex (\<lambda>(a, l). same_top_bits l a ip) default_blocked)"
proof -
  obtain p where p: "example_policies = Inr p" using example_policies_Inr by blast
  then have b: "build_from list_headers plain_nets alist_dash example_limiters (Inr ()) default_config None = Inr p"
    by (simp add: example_policies_def build_policies_def)
  let ?b = "example_server\<lparr>sb_policies := p\<rparr>"
  let ?E = "\<lparr>se_client = dialling_env example_dns (lp_upstream p), se_uuid = (\<lambda>_. ''id''), se_others = (\<lambda>_ b. b)\<rparr>"
  have conf: "as_configured list_headers plain_nets alist_dash example_limiters (sb_policies ?b)"
    using build_from_as_configured [OF _ b] by simp
  have cfg: "cf_ssrf (lp_config (sb_policies ?b)) = default_ssrf_config"
    using build_from_InrD(1) [OF b] by (simp add: default_config_def)
  have conn: "connector plain_nets (lp_upstream (sb_policies ?b)) (se_client ?E) snd"
    using dialling.connector_axioms by simp
  obtain entry ms ev r w' b' where
    run: "build_router list_headers plain_urls plain_nets alist_dash example_limiters ?E
      (\<lambda>_. []) (\<lambda>_. False) (V4 0x01020304) example_inbound ([example_ok], []) ?b = (entry, ms, ev, r, w', b')"
    by (metis prod_cases6)
  from connections_vetted [OF plain.ip_nets_axioms conn conf cfg default_strict run]
  have "\<forall>(host, ip) \<in> set (snd w').
      address_literal host = Some ip \<or> \<not> list_ex (\<lambda>(a, l). same_top_bits l a ip) default_blocked"
    by (fastforce simp: default_ssrf_config_def in_nets_def)
  with p run show ?thesis by blast
qed

end
