(* ===== verification/Segments.thy ===== *)
theory Segments
  imports Request_Frame
begin

text \<open>
  The request path cut at the points where other tasks may run: between two loads of the snapshot
  (\<open>state.build.policies()\<close>) and at the await of the upstream client. Each segment is the code
  between two such points of \<open>corx-server/src/middleware/auth.rs\<close>, \<open>handlers/proxy.rs\<close> and
  \<open>corx-core/src/proxy/upstream.rs\<close>; the equations of this theory put the layers, handlers and turns of
  the other theories together from them.
\<close>

subsection \<open>Authentication and routes\<close>

definition auth_refusal :: "'h header_lib \<Rightarrow> string \<Rightarrow> config \<Rightarrow> 'h request \<Rightarrow> proxy_error option" where
  "auth_refusal H endpoint cfg request =
     (if rq_method request = ''OPTIONS'' \<or> is_ops_path endpoint (u_path (rq_uri request)) then None
      else
        (let auth = sc_auth (cf_security cfg)
         in if au_mode auth \<noteq> Bearer then None
            else (case check_bearer H (rq_headers request) (au_bearer_tokens auth) of
                    Inr _ \<Rightarrow> None
                  | Inl err \<Rightarrow> Some err)))"

lemma auth_layer_segment:
  "auth_layer H next_service request w b =
     (case auth_refusal H (sb_immutable_metrics_endpoint b) (lp_config (sb_policies b)) request of
        Some err \<Rightarrow> ([], [], Ready (into_response H err), w, b)
      | None \<Rightarrow> next_service request w b)"
  by (simp add: auth_layer_def auth_refusal_def Let_def split: sum.split)

definition ops_answer ::
  "'h header_lib \<Rightarrow> string \<Rightarrow> ('m, 'gs, 'gi, 'gd, 'ms, 'mi, 'r) server_build \<Rightarrow> 'h request \<Rightarrow>
     'h response option" where
  "ops_answer H rendered b request =
     map_option (\<lambda>response.
       if rq_method request = ''GET'' then response
       else if rq_method request = ''HEAD'' then response\<lparr>rs_body := []\<rparr>
       else not_found H) (ops_route H rendered b (u_path (rq_uri request)))"

lemma route_service_segment:
  "route_service H U N D L E render peer request w b =
     (case ops_answer H (render w) b request of
        Some response \<Rightarrow> ([], [], Ready response, w, b)
      | None \<Rightarrow>
          (case proxy H U N D L E request peer w b of
             (ms, ev, outcome, w, b) \<Rightarrow> (ms, ev, respond H outcome, w, b)))"
  by (simp add: route_service_def ops_answer_def split: option.split)

subsection \<open>The handler\<close>

text \<open>
  \<open>serve\<close> up to the point where it gives its snapshot back: an answer of its own, or the target to
  proxy to.
\<close>

definition serve_guards ::
  "'h header_lib \<Rightarrow> 'u url_lib \<Rightarrow> net_lib \<Rightarrow> ('gs, 'gi, 'gd, 'ms, 'mi, 'r) limiter_lib \<Rightarrow> instant \<Rightarrow>
     'h request \<Rightarrow> ip_addr \<Rightarrow> ('m, 'gs, 'gi, 'gd, 'ms, 'mi, 'r) server_build \<Rightarrow>
     metric list \<times> ('h response res + 'u target_url) \<times> ('m, 'gs, 'gi, 'gd, 'ms, 'mi, 'r) server_build" where
  "serve_guards H U N L now request client_ip b =
     (let policies = sb_policies b
      in if is_preflight H request then
           (case preflight_guards H U N L now request client_ip b of
              ((ms, Inl e), b) \<Rightarrow> (ms, Inl (Inl e), b)
            | ((ms, Inr _), b) \<Rightarrow> (ms, Inl (Inr (build_preflight_response H request (lp_cors policies))), b))
         else
           (case check_origin H (lp_guard policies) request of
              Inl e \<Rightarrow> ([], Inl (Inl e), b)
            | Inr _ \<Rightarrow>
           (case extract_target U (rq_uri request) of
              Inl e \<Rightarrow> ([], Inl (Inl e), b)
            | Inr target \<Rightarrow>
           (case check_target U (lp_target_policy policies) target of
              Inl e \<Rightarrow> ([], Inl (Inl e), b)
            | Inr _ \<Rightarrow>
           (case check_rate H N L now request client_ip (Some (tu_host target)) (lp_guard policies) of
              ((ms, Inl e), g) \<Rightarrow> (ms, Inl (Inl e), with_guard g b)
            | ((ms, Inr _), g) \<Rightarrow> (ms, Inr target, with_guard g b))))))"

lemma serve_segment:
  "serve H U N D L E request client_ip w b =
     (case serve_guards H U N L (ce_now (se_client E) w) request client_ip b of
        (ms, Inl answer, b) \<Rightarrow> (ms, [], Ready answer, w, b)
      | (ms, Inr target, b) \<Rightarrow>
          (case execute_proxy H U D E request target client_ip w b of
             (ms', ev, outcome, w, b) \<Rightarrow> (ms @ ms', ev, outcome, w, b)))"
  by (simp add: serve_def serve_guards_def Let_def split: prod.split sum.split)

text \<open>\<open>execute_proxy\<close> up to the call of the upstream client.\<close>

definition outbound_request ::
  "'h header_lib \<Rightarrow> 'u url_lib \<Rightarrow> string \<Rightarrow> ('m, 'gs, 'gi, 'gd, 'ms, 'mi, 'r) server_build \<Rightarrow>
     'h request \<Rightarrow> 'u target_url \<Rightarrow> ip_addr \<Rightarrow> 'h request res" where
  "outbound_request H U fresh_id b request target client_ip =
     bind_res (to_uri U target) (\<lambda>uri.
       Inr \<lparr>rq_method = rq_method request, rq_uri = uri,
            rq_headers = outbound_headers H U fresh_id b request target client_ip,
            rq_body = axum_to_upstream_body (rq_body request)\<rparr>)"

text \<open>What the handler makes of the answer of the upstream client, with the snapshot it loads then.\<close>

definition finish_proxy ::
  "'h header_lib \<Rightarrow> 'u url_lib \<Rightarrow> ('m, 'gs, 'gi, 'gd, 'ms, 'mi, 'r) server_build \<Rightarrow> 'u target_url \<Rightarrow>
     redirect_policy \<Rightarrow> 'h response res \<Rightarrow> 'h response res" where
  "finish_proxy H U b target redirect_policy outcome =
     bind_res outcome (\<lambda>response. Inr (shape_response H U response b target redirect_policy))"

definition awaited_map :: "('a \<Rightarrow> 'b) \<Rightarrow> 'a awaited \<Rightarrow> 'b awaited" where
  "awaited_map f a = (case a of Ready x \<Rightarrow> Ready (f x) | Dropped \<Rightarrow> Dropped)"

lemma execute_proxy_segment:
  "\<exists>ms'. execute_proxy H U D E request target ip w b =
     (case outbound_request H U (se_uuid E w) b request target ip of
        Inl e \<Rightarrow> ([], [], Ready (Inl e), w, b)
      | Inr outbound \<Rightarrow>
          (case execute H U D (se_client E) (lp_upstream (sb_policies b)) outbound w
                  (lp_circuit (sb_policies b)) of
             (ms, ev, outcome, w, circuit) \<Rightarrow>
               (let b' = se_others E w (with_circuit circuit b)
                in (ms @ ms', ev,
                    awaited_map (finish_proxy H U b' target
                      (lm_redirect_policy (cf_limits (lp_config (sb_policies b))))) outcome, w, b'))))"
proof (cases "to_uri U target")
  case (Inl e)
  then show ?thesis by (simp add: execute_proxy_def outbound_request_def)
next
  case (Inr uri)
  then show ?thesis
    by (simp add: execute_proxy_def outbound_request_def Let_def awaited_map_def finish_proxy_def
        split: prod.split awaited.split sum.split)
qed

subsection \<open>One hop\<close>

text \<open>A turn of \<open>execute\<close> before and after the await.\<close>

definition hop_start ::
  "'m hosts_lib \<Rightarrow> upstream \<Rightarrow> instant \<Rightarrow> 'h request \<Rightarrow> 'm circuit_breaker \<Rightarrow>
     metric list \<times> circuit_hop res \<times> 'm circuit_breaker" where
  "hop_start D u now req cb =
     (case check_uri (ups_target_policy u) (rq_uri req) of
        Inl e \<Rightarrow> ([], Inl e, cb)
      | Inr _ \<Rightarrow> hop_admit D now (host_of (rq_uri req)) cb)"

definition hop_finish ::
  "'h header_lib \<Rightarrow> 'u url_lib \<Rightarrow> 'm hosts_lib \<Rightarrow> upstream \<Rightarrow> string \<Rightarrow> instant \<Rightarrow> 'h redirect_state \<Rightarrow>
     u8 \<Rightarrow> circuit_hop \<Rightarrow> (string + 'h response) awaited \<Rightarrow> 'm circuit_breaker \<Rightarrow>
     metric list \<times> 'h hop_event list \<times> 'h turn \<times> 'm circuit_breaker" where
  "hop_finish H U D u metric_host now st hops hop outcome cb =
     (case outcome of
        Dropped \<Rightarrow>
          (case hop_drop D now hop cb of (ms, cb) \<Rightarrow> (ms, [Failed (hop_host hop)], Return Dropped, cb))
      | Ready (Inl err) \<Rightarrow>
          (case settle_failure D now hop cb of
             (ms, ev, cb) \<Rightarrow> (ms, ev, Return (Ready (Inl (UpstreamErr err))), cb))
      | Ready (Inr response) \<Rightarrow> after_response H U D u metric_host now st hops hop response cb)"

lemma hop_turn_segment:
  "hop_turn H U D E u mh st hops req w cb =
     (case hop_start D u (ce_now E w) req cb of
        (ms, Inl e, cb) \<Rightarrow> (ms, [], Return (Ready (Inl e)), w, cb)
      | (ms, Inr hop, cb) \<Rightarrow>
          (case ce_request E req w cb of
             (outcome, w, cb) \<Rightarrow>
               (case hop_finish H U D u mh (ce_now E w) st hops hop outcome cb of
                  (ms', ev, t, cb) \<Rightarrow> (ms @ ms', Admitted (hop_host hop) # Requested req # ev, t, w, cb))))"
  by (simp add: hop_turn_def hop_start_def hop_finish_def Let_def split: sum.split prod.split awaited.split)

end
