(* ===== verification/Concurrent.thy ===== *)
theory Concurrent
  imports Segments
begin

text \<open>
  The server as it runs: any number of requests in flight, each at a point of its own between two
  segments of \<open>Segments\<close>, reloads in between, all on shared state. What the code shares through
  \<open>Arc\<close> is an explicit store: every snapshot that was ever stored has a number, its breaker and its
  limiter are cells, and a reload that keeps a component gives the new snapshot the cell of the old
  one. A request holds the number of the snapshot it has loaded, so it goes on with the components it
  started with.
\<close>

subsection \<open>State\<close>

text \<open>Where a request is.\<close>

datatype ('h, 'u) phase =
    Arrived
  | Shedding
  | Inside
  | Authorised
  | Guarded 'u
  | Turning 'u string "'h redirect_state" u8 "'h request"
  | Waiting 'u string "'h redirect_state" u8 "'h request" circuit_hop
  | Answered 'u "'h response res"
  | Leaving "'h response option"
  | Unshed "'h response option"
  | Finished "'h response option"

text \<open>
  A request, with what it has done to the outside and the snapshots that authorised it, guarded it and
  proxied it.
\<close>

record ('h, 'u) task =
  tk_request :: "'h request"
  tk_peer :: ip_addr
  tk_phase :: "('h, 'u) phase"
  tk_trace :: "'h hop_event list"
  tk_auth :: nat
  tk_guard :: nat
  tk_gen :: nat

text \<open>The code and the parameters a server runs with.\<close>

record ('h, 'u, 'm, 'gs, 'gi, 'gd, 'ms, 'mi, 'r) site =
  si_headers :: "'h header_lib"
  si_urls :: "'u url_lib"
  si_nets :: net_lib
  si_hosts :: "'m hosts_lib"
  si_limiters :: "('gs, 'gi, 'gd, 'ms, 'mi, 'r) limiter_lib"
  si_roots :: "string + unit"
  si_handle :: reload_handle
  si_path :: "string option"

record ('h, 'u, 'm, 'gs, 'gi, 'gd, 'ms, 'mi, 'r) sys =
  sy_server :: "('m, 'gs, 'gi, 'gd, 'ms, 'mi, 'r) server_build"
  sy_gens :: "nat \<Rightarrow> ('m, 'gs, 'gi, 'gd, 'ms, 'mi, 'r) live_policies"
  sy_current :: nat
  sy_breaker_of :: "nat \<Rightarrow> nat"
  sy_limiter_of :: "nat \<Rightarrow> nat"
  sy_breakers :: "nat \<Rightarrow> 'm circuit_breaker"
  sy_limiters :: "nat \<Rightarrow> ('gs, 'gi, 'gd, 'ms, 'mi, 'r) rate_limiter"
  sy_now :: instant
  sy_gauge :: int
  sy_tasks :: "nat \<Rightarrow> ('h, 'u target_url) task option"

text \<open>The snapshot of a number, with its cells, and the server as it looks through that snapshot.\<close>

definition snapshot where
  "snapshot s g =
     (let p = sy_gens s g
      in p\<lparr>lp_circuit := sy_breakers s (sy_breaker_of s g),
           lp_guard := (lp_guard p)\<lparr>rg_rate_limit := sy_limiters s (sy_limiter_of s g)\<rparr>\<rparr>)"

definition server_at where
  "server_at s g = (sy_server s)\<lparr>sb_policies := snapshot s g\<rparr>"

abbreviation server_now where
  "server_now s \<equiv> server_at s (sy_current s)"

definition set_task where
  "set_task i t s = s\<lparr>sy_tasks := (sy_tasks s)(i \<mapsto> t)\<rparr>"

definition set_breaker where
  "set_breaker g cb s = s\<lparr>sy_breakers := (sy_breakers s)(sy_breaker_of s g := cb)\<rparr>"

definition set_limiter where
  "set_limiter g lim s = s\<lparr>sy_limiters := (sy_limiters s)(sy_limiter_of s g := lim)\<rparr>"

definition max_inflight :: "('h, 'u, 'm, 'gs, 'gi, 'gd, 'ms, 'mi, 'r) sys \<Rightarrow> u64" where
  "max_inflight s = ucast (lm_inflight_max (sb_immutable_limits (sy_server s)))"

subsection \<open>Segments as actions\<close>

text \<open>A request is accepted, and stopped by the header limit or not.\<close>

definition new_task :: "'h request \<Rightarrow> ip_addr \<Rightarrow> ('h, 'u) phase \<Rightarrow> ('h, 'u) task" where
  "new_task request peer ph =
     \<lparr>tk_request = request, tk_peer = peer, tk_phase = ph, tk_trace = [], tk_auth = 0, tk_guard = 0, tk_gen = 0\<rparr>"

definition accept where
  "accept X i request peer s =
     set_task i (new_task request peer
       (if (ucast (lm_max_request_header_bytes (sb_immutable_limits (sy_server s))) :: u64)
            < header_map_bytes (si_headers X) (rq_headers request)
        then Unshed (Some (text_response (si_headers X) 431 ''request header fields too large''))
        else Arrived)) s"

text \<open>\<open>fetch_add\<close> on the counter, and the decrement of a request that is refused or has left.\<close>

definition enter where
  "enter i t s =
     (if max_inflight s = 0 then set_task i (t\<lparr>tk_phase := Inside\<rparr>) s
      else
        (let prev = sb_inflight (sy_server s)
         in set_task i (t\<lparr>tk_phase := if max_inflight s \<le> prev then Shedding else Inside\<rparr>)
              (s\<lparr>sy_server := (sy_server s)\<lparr>sb_inflight := prev + 1\<rparr>\<rparr>)))"

definition refuse where
  "refuse X i t s =
     set_task i (t\<lparr>tk_phase := Unshed (Some (shed_response (si_headers X)))\<rparr>)
       (s\<lparr>sy_server := permit_drop (sy_server s)\<rparr>)"

definition release where
  "release i t r s =
     set_task i (t\<lparr>tk_phase := Unshed r\<rparr>)
       (if max_inflight s = 0 then s else s\<lparr>sy_server := permit_drop (sy_server s)\<rparr>)"

text \<open>The CORS layer, with the snapshot it loads after the service; a dropped request gets no response.\<close>

definition stamp where
  "stamp X i t r s =
     set_task i (t\<lparr>tk_phase := Finished (map_option (\<lambda>response.
       apply_to_response (si_headers X) response (rq_headers (tk_request t))
         (lp_cors (snapshot s (sy_current s)))) r)\<rparr>) s"

definition authorise where
  "authorise X i t s =
     (case auth_refusal (si_headers X) (sb_immutable_metrics_endpoint (sy_server s))
             (lp_config (snapshot s (sy_current s))) (tk_request t) of
        Some err \<Rightarrow> set_task i (t\<lparr>tk_phase := Leaving (Some (into_response (si_headers X) err))\<rparr>) s
      | None \<Rightarrow> set_task i (t\<lparr>tk_phase := Authorised, tk_auth := sy_current s\<rparr>) s)"

definition reply_of :: "'h header_lib \<Rightarrow> 'h response res \<Rightarrow> 'h response" where
  "reply_of H answer = (case answer of Inr r \<Rightarrow> r | Inl e \<Rightarrow> into_response H e)"

text \<open>The routes, then the guards of the handler, with the snapshot the handler loads.\<close>

definition guard_request where
  "guard_request X rendered i t s =
     (case ops_answer (si_headers X) rendered (server_now s) (tk_request t) of
        Some response \<Rightarrow> set_task i (t\<lparr>tk_phase := Leaving (Some response)\<rparr>) s
      | None \<Rightarrow>
          (case serve_guards (si_headers X) (si_urls X) (si_nets X) (si_limiters X) (sy_now s)
                  (tk_request t) (tk_peer t) (server_now s) of
             (ms, answer, b) \<Rightarrow>
               (let s = set_limiter (sy_current s) (rg_rate_limit (lp_guard (sb_policies b))) s
                in case answer of
                     Inl r \<Rightarrow> set_task i (t\<lparr>tk_phase := Leaving (Some (reply_of (si_headers X) r))\<rparr>) s
                   | Inr target \<Rightarrow>
                       (set_task i (t\<lparr>tk_phase := Guarded target, tk_guard := sy_current s\<rparr>) s)
                         \<lparr>sy_gauge := sy_gauge s + 1\<rparr>)))"

text \<open>\<open>execute_proxy\<close> up to its first await, with the snapshot it loads and keeps.\<close>

definition begin_proxy where
  "begin_proxy X fresh_id i t target s =
     (case outbound_request (si_headers X) (si_urls X) fresh_id (server_now s) (tk_request t) target (tk_peer t) of
        Inl e \<Rightarrow> set_task i (t\<lparr>tk_phase := Answered target (Inl e), tk_gen := sy_current s\<rparr>) s
      | Inr outbound \<Rightarrow>
          (let (st, first_request) = split_initial outbound
           in set_task i (t\<lparr>tk_phase := Turning target (host_of (rd_uri st)) st 0 first_request,
                            tk_gen := sy_current s\<rparr>) s))"

definition start_hop where
  "start_hop X i t target mh st hops req s =
     (let p = snapshot s (tk_gen t)
      in case hop_start (si_hosts X) (lp_upstream p) (sy_now s) req (lp_circuit p) of
           (ms, Inl e, cb) \<Rightarrow>
             set_task i (t\<lparr>tk_phase := Answered target (Inl e)\<rparr>) (set_breaker (tk_gen t) cb s)
         | (ms, Inr hop, cb) \<Rightarrow>
             set_task i (t\<lparr>tk_phase := Waiting target mh st hops req hop,
                           tk_trace := tk_trace t @ [Admitted (hop_host hop), Requested req]\<rparr>)
               (set_breaker (tk_gen t) cb s))"

text \<open>
  The client answers, or the future is dropped where it waits: by its client, or by the timer, which
  answers for it.
\<close>

definition finish_hop where
  "finish_hop X i t target mh st hops hop outcome s =
     (let p = snapshot s (tk_gen t)
      in case hop_finish (si_headers X) (si_urls X) (si_hosts X) (lp_upstream p) mh (sy_now s) st hops hop
                (Ready outcome) (lp_circuit p) of
           (ms, ev, turn, cb) \<Rightarrow>
             set_task i (t\<lparr>tk_trace := tk_trace t @ ev,
                           tk_phase := (case turn of
                               Return (Ready r) \<Rightarrow> Answered target r
                             | Return Dropped \<Rightarrow> Leaving None
                             | Next st req \<Rightarrow> Turning target mh st (sat_add hops 1) req)\<rparr>)
               (set_breaker (tk_gen t) cb s))"

definition gateway_timeout :: "'h header_lib \<Rightarrow> 'h response" where
  "gateway_timeout H = \<lparr>rs_status = 504, rs_headers = hm_new H, rs_body = []\<rparr>"

definition cancel_hop where
  "cancel_hop X timed_out i t hop s =
     (case hop_drop (si_hosts X) (sy_now s) hop (lp_circuit (snapshot s (tk_gen t))) of
        (ms, cb) \<Rightarrow>
          (set_task i (t\<lparr>tk_trace := tk_trace t @ [Failed (hop_host hop)],
                         tk_phase := Leaving (if timed_out then Some (gateway_timeout (si_headers X)) else None)\<rparr>)
             (set_breaker (tk_gen t) cb s))\<lparr>sy_gauge := sy_gauge s - 1\<rparr>)"

text \<open>The rest of the handler, with the snapshot it loads for the response.\<close>

definition answer_client where
  "answer_client X i t target r s =
     (set_task i (t\<lparr>tk_phase := Leaving (Some (reply_of (si_headers X)
        (finish_proxy (si_headers X) (si_urls X) (server_now s) target
          (lm_redirect_policy (cf_limits (lp_config (sy_gens s (tk_gen t))))) r)))\<rparr>) s)
       \<lparr>sy_gauge := sy_gauge s - 1\<rparr>"

text \<open>A reload: the new snapshot takes the next number; a component it keeps keeps its cell.\<close>

definition reload_step where
  "reload_step X S s =
     (let cur = sy_current s
      in case reload (si_headers X) (si_nets X) (si_hosts X) (si_limiters X) (si_roots X) S (si_handle X)
                (si_path X) (snapshot s cur) of
           (Inl err, _) \<Rightarrow> s
         | (Inr _, p) \<Rightarrow>
             (let g = Suc cur;
                  keep_breaker = (cf_circuit_breaker (lp_config (sy_gens s cur)) = cf_circuit_breaker (lp_config p));
                  keep_limiter = (cf_rate_limit (lp_config (sy_gens s cur)) = cf_rate_limit (lp_config p))
              in s\<lparr>sy_gens := (sy_gens s)(g := p), sy_current := g,
                   sy_breaker_of := (sy_breaker_of s)(g := if keep_breaker then sy_breaker_of s cur else g),
                   sy_limiter_of := (sy_limiter_of s)(g := if keep_limiter then sy_limiter_of s cur else g),
                   sy_breakers := (if keep_breaker then sy_breakers s else (sy_breakers s)(g := lp_circuit p)),
                   sy_limiters := (if keep_limiter then sy_limiters s
                     else (sy_limiters s)(g := rg_rate_limit (lp_guard p)))\<rparr>))"

subsection \<open>Steps and reachable states\<close>

text \<open>
  One step of the server with at most \<open>n\<close> requests: time passes, a request is accepted or moves on, a
  reload runs on some sources, or the shutdown signal comes.
\<close>

inductive sys_step for X :: "('h, 'u, 'm, 'gs, 'gi, 'gd, 'ms, 'mi, 'r) site" and n :: nat where
  step_tick: "sy_now s \<le> now \<Longrightarrow> sys_step X n s (s\<lparr>sy_now := now\<rparr>)"
| step_signal: "sys_step X n s (s\<lparr>sy_server := (sy_server s)\<lparr>sb_ready := False\<rparr>\<rparr>)"
| step_reload: "sys_step X n s (reload_step X S s)"
| step_accept: "i < n \<Longrightarrow> sy_tasks s i = None \<Longrightarrow> sys_step X n s (accept X i request peer s)"
| step_enter: "sy_tasks s i = Some t \<Longrightarrow> tk_phase t = Arrived \<Longrightarrow> sys_step X n s (enter i t s)"
| step_refuse: "sy_tasks s i = Some t \<Longrightarrow> tk_phase t = Shedding \<Longrightarrow> sys_step X n s (refuse X i t s)"
| step_authorise: "sy_tasks s i = Some t \<Longrightarrow> tk_phase t = Inside \<Longrightarrow> sys_step X n s (authorise X i t s)"
| step_guard: "sy_tasks s i = Some t \<Longrightarrow> tk_phase t = Authorised \<Longrightarrow>
    sys_step X n s (guard_request X rendered i t s)"
| step_begin: "sy_tasks s i = Some t \<Longrightarrow> tk_phase t = Guarded target \<Longrightarrow>
    sys_step X n s (begin_proxy X fresh_id i t target s)"
| step_start_hop: "sy_tasks s i = Some t \<Longrightarrow> tk_phase t = Turning target mh st hops req \<Longrightarrow>
    sys_step X n s (start_hop X i t target mh st hops req s)"
| step_finish_hop: "sy_tasks s i = Some t \<Longrightarrow> tk_phase t = Waiting target mh st hops req hop \<Longrightarrow>
    sys_step X n s (finish_hop X i t target mh st hops hop outcome s)"
| step_cancel: "sy_tasks s i = Some t \<Longrightarrow> tk_phase t = Waiting target mh st hops req hop \<Longrightarrow>
    sys_step X n s (cancel_hop X timed_out i t hop s)"
| step_answer: "sy_tasks s i = Some t \<Longrightarrow> tk_phase t = Answered target r \<Longrightarrow>
    sys_step X n s (answer_client X i t target r s)"
| step_release: "sy_tasks s i = Some t \<Longrightarrow> tk_phase t = Leaving r \<Longrightarrow> sys_step X n s (release i t r s)"
| step_stamp: "sy_tasks s i = Some t \<Longrightarrow> tk_phase t = Unshed r \<Longrightarrow> sys_step X n s (stamp X i t r s)"

definition start_sys where
  "start_sys b =
     \<lparr>sy_server = b, sy_gens = (\<lambda>_. sb_policies b), sy_current = 0, sy_breaker_of = (\<lambda>_. 0),
      sy_limiter_of = (\<lambda>_. 0), sy_breakers = (\<lambda>_. lp_circuit (sb_policies b)),
      sy_limiters = (\<lambda>_. rg_rate_limit (lp_guard (sb_policies b))), sy_now = 0, sy_gauge = 0,
      sy_tasks = (\<lambda>_. None)\<rparr>"

text \<open>A server starts as \<open>serve\<close> of the command line starts it, from a configuration that was loaded.\<close>

inductive sys_reach for X :: "('h, 'u, 'm, 'gs, 'gi, 'gd, 'ms, 'mi, 'r) site" and n :: nat where
  reach_init: "load S (si_path X) = Inr cfg \<Longrightarrow>
    server_from_config (si_headers X) (si_nets X) (si_hosts X) (si_limiters X) (si_roots X) cfg = Inr b \<Longrightarrow>
    si_handle X = hot_reload b \<Longrightarrow> sys_reach X n (start_sys b)"
| reach_next: "sys_reach X n s \<Longrightarrow> sys_step X n s s' \<Longrightarrow> sys_reach X n s'"

end
