(* ===== verification/Concurrent_Policies.thy ===== *)
theory Concurrent_Policies
  imports Concurrent
begin

text \<open>
  What every reachable state of \<open>Concurrent\<close> keeps of the policies: each snapshot a request may still
  hold was compiled from a configuration that was loaded and validated and agrees with the listener,
  and its breaker, shared with other snapshots or not, is a state of the breaker's own machine.
\<close>

subsection \<open>What an action leaves alone\<close>

lemma update_sel [simp]:
  "sy_server (set_task i t s) = sy_server s" "sy_gens (set_task i t s) = sy_gens s"
  "sy_current (set_task i t s) = sy_current s" "sy_breaker_of (set_task i t s) = sy_breaker_of s"
  "sy_limiter_of (set_task i t s) = sy_limiter_of s" "sy_breakers (set_task i t s) = sy_breakers s"
  "sy_limiters (set_task i t s) = sy_limiters s" "sy_now (set_task i t s) = sy_now s"
  "sy_gauge (set_task i t s) = sy_gauge s" "sy_tasks (set_task i t s) = (sy_tasks s)(i \<mapsto> t)"
  "sy_server (set_breaker g cb s) = sy_server s" "sy_gens (set_breaker g cb s) = sy_gens s"
  "sy_current (set_breaker g cb s) = sy_current s" "sy_breaker_of (set_breaker g cb s) = sy_breaker_of s"
  "sy_limiter_of (set_breaker g cb s) = sy_limiter_of s" "sy_limiters (set_breaker g cb s) = sy_limiters s"
  "sy_breakers (set_breaker g cb s) = (sy_breakers s)(sy_breaker_of s g := cb)"
  "sy_now (set_breaker g cb s) = sy_now s" "sy_gauge (set_breaker g cb s) = sy_gauge s"
  "sy_tasks (set_breaker g cb s) = sy_tasks s"
  "sy_server (set_limiter g lim s) = sy_server s" "sy_gens (set_limiter g lim s) = sy_gens s"
  "sy_current (set_limiter g lim s) = sy_current s" "sy_breaker_of (set_limiter g lim s) = sy_breaker_of s"
  "sy_limiter_of (set_limiter g lim s) = sy_limiter_of s" "sy_breakers (set_limiter g lim s) = sy_breakers s"
  "sy_limiters (set_limiter g lim s) = (sy_limiters s)(sy_limiter_of s g := lim)"
  "sy_now (set_limiter g lim s) = sy_now s" "sy_gauge (set_limiter g lim s) = sy_gauge s"
  "sy_tasks (set_limiter g lim s) = sy_tasks s"
  by (simp_all add: set_task_def set_breaker_def set_limiter_def)

lemma start_sys_sel [simp]:
  "sy_server (start_sys b) = b" "sy_gens (start_sys b) = (\<lambda>_. sb_policies b)" "sy_current (start_sys b) = 0"
  "sy_breaker_of (start_sys b) = (\<lambda>_. 0)" "sy_limiter_of (start_sys b) = (\<lambda>_. 0)"
  "sy_now (start_sys b) = 0" "sy_gauge (start_sys b) = 0" "sy_tasks (start_sys b) = Map.empty"
  by (simp_all add: start_sys_def)

text \<open>
  What an action may do to the store: change one breaker by operations of the breaker, or one limiter
  within its settings.
\<close>

definition store_of where
  "store_of s = (sy_gens s, sy_current s, sy_breaker_of s, sy_limiter_of s)"

definition breaker_runs :: "'m hosts_lib \<Rightarrow> instant \<Rightarrow> 'm circuit_breaker \<Rightarrow> 'm circuit_breaker \<Rightarrow> bool" where
  "breaker_runs D now cb cb' \<longleftrightarrow>
     circuit_settings cb' = circuit_settings cb \<and>
     (cb_step cb now)\<^sup>*\<^sup>* (dm_get D (br_hosts cb)) (dm_get D (br_hosts cb'))"

definition store_step where
  "store_step D s s' \<longleftrightarrow>
     store_of s' = store_of s \<and> sy_now s' = sy_now s \<and>
     sb_immutable_server (sy_server s') = sb_immutable_server (sy_server s) \<and>
     sb_immutable_limits (sy_server s') = sb_immutable_limits (sy_server s) \<and>
     sb_immutable_metrics_endpoint (sy_server s') = sb_immutable_metrics_endpoint (sy_server s) \<and>
     (\<forall>c. breaker_runs D (sy_now s) (sy_breakers s c) (sy_breakers s' c)) \<and>
     (\<forall>c. limiter_settings (sy_limiters s' c) = limiter_settings (sy_limiters s c))"

lemma cb_step_settings_imp:
  assumes "cb_step a now M M'" "circuit_settings a = circuit_settings b"
  shows "cb_step b now M M'"
  using assms(1)
proof cases
  case (step_check h)
  with assms(2) cb_step.step_check [of b now M h] show ?thesis by (simp add: circuit_settings_def)
next
  case (step_success h c)
  with cb_step.step_success [of M h c b now] show ?thesis by simp
next
  case (step_failure h)
  with assms(2) cb_step.step_failure [of b now M h] show ?thesis by (simp add: circuit_settings_def)
next
  case (step_evict h c)
  with cb_step.step_evict [of M h c now b] show ?thesis by blast
qed

lemma cb_step_settings: "circuit_settings a = circuit_settings b \<Longrightarrow> cb_step a now = cb_step b now"
  using cb_step_settings_imp [of a now _ _ b] cb_step_settings_imp [of b now _ _ a] by (intro ext) auto

lemma breaker_runs_refl [simp]: "breaker_runs D now cb cb"
  by (simp add: breaker_runs_def)

lemma breaker_runs_trans:
  "breaker_runs D now a b \<Longrightarrow> breaker_runs D now b c \<Longrightarrow> breaker_runs D now a c"
  using cb_step_settings [of b a now] by (auto simp: breaker_runs_def intro: rtranclp_trans)

context host_map begin

lemma hop_admit_runs: "hop_admit D now h cb = (ms, r, cb') \<Longrightarrow> breaker_runs D now cb cb'"
  using hop_admit_frame check_steps
  by (fastforce simp: breaker_runs_def hop_admit_def split: prod.splits)

lemma record_failure_runs: "record_failure D now h cb = (ms, cb') \<Longrightarrow> breaker_runs D now cb cb'"
  using record_failure_frame failure_steps [of cb now h] by (fastforce simp: breaker_runs_def)

lemma record_success_runs: "breaker_runs D now cb (record_success D h cb)"
  using success_steps [of cb now h] by (simp add: breaker_runs_def record_success_def split: option.split)

lemma hop_drop_runs: "hop_drop D now hop cb = (ms, cb') \<Longrightarrow> breaker_runs D now cb cb'"
  by (auto simp: hop_drop_def intro: record_failure_runs split: if_splits)

lemma settle_runs:
  "settle_success D now hop cb = (ms, ev, cb') \<Longrightarrow> breaker_runs D now cb cb'"
  "settle_failure D now hop cb = (ms, ev, cb') \<Longrightarrow> breaker_runs D now cb cb'"
  "settle_terminal D now hop st cb = (ms, ev, cb') \<Longrightarrow> breaker_runs D now cb cb'"
proof -
  have s: "breaker_runs D now cb cb'" if "settle_success D now hop cb = (ms, ev, cb')" for ms ev
    using that by (auto simp: settle_success_def hop_success_def hop_drop_def intro: record_success_runs)
  have f: "breaker_runs D now cb cb'" if "settle_failure D now hop cb = (ms, ev, cb')" for ms ev
    using that
    by (auto simp: settle_failure_def hop_failure_def hop_drop_def Let_def intro: record_failure_runs
        split: prod.splits)
  show "settle_success D now hop cb = (ms, ev, cb') \<Longrightarrow> breaker_runs D now cb cb'" by (rule s)
  show "settle_failure D now hop cb = (ms, ev, cb') \<Longrightarrow> breaker_runs D now cb cb'" by (rule f)
  show "settle_terminal D now hop st cb = (ms, ev, cb') \<Longrightarrow> breaker_runs D now cb cb'"
    using s f by (auto simp: settle_terminal_def split: if_splits)
qed

lemma after_response_runs:
  "after_response H U D u mh now st hops hop r cb = (ms, ev, t, cb') \<Longrightarrow> breaker_runs D now cb cb'"
  by (auto simp: after_response_def Let_def dest: settle_runs
      split: if_splits prod.splits redirect_policy.splits sum.splits next_hop.splits)

lemma hop_start_runs: "hop_start D u now req cb = (ms, r, cb') \<Longrightarrow> breaker_runs D now cb cb'"
  by (auto simp: hop_start_def dest: hop_admit_runs split: sum.splits)

lemma hop_finish_runs:
  "hop_finish H U D u mh now st hops hop outcome cb = (ms, ev, t, cb') \<Longrightarrow> breaker_runs D now cb cb'"
  by (auto simp: hop_finish_def dest: hop_drop_runs settle_runs after_response_runs
      split: awaited.splits sum.splits prod.splits)

end

lemma hop_finish_ready:
  "hop_finish H U D u mh now st hops hop (Ready outcome) cb \<noteq> (ms, ev, Return Dropped, cb')"
  by (auto simp: hop_finish_def after_response_def Let_def
      split: sum.splits prod.splits if_splits redirect_policy.splits next_hop.splits)

lemma serve_guards_settings:
  assumes "serve_guards H U N L now request ip b = (ms, answer, b')"
  shows "limiter_settings (rg_rate_limit (lp_guard (sb_policies b'))) =
    limiter_settings (rg_rate_limit (lp_guard (sb_policies b)))"
proof -
  have "policy_view b' = policy_view b"
    using assms
    by (auto simp: serve_guards_def Let_def dest!: preflight_frame check_rate_frame
        split: if_splits sum.splits prod.splits)
  then show ?thesis by (simp add: policy_view_def Let_def)
qed

lemma snapshot_limiter:
  "rg_rate_limit (lp_guard (sb_policies (server_at s g))) = sy_limiters s (sy_limiter_of s g)"
  "lp_circuit (snapshot s g) = sy_breakers s (sy_breaker_of s g)"
  by (simp_all add: server_at_def snapshot_def Let_def)

lemmas action_defs =
  accept_def enter_def refuse_def release_def stamp_def authorise_def guard_request_def begin_proxy_def
  start_hop_def finish_hop_def cancel_hop_def answer_client_def

lemma store_step_task [simp]:
  "store_step D s (set_task i t s') = store_step D s s'"
  "store_step D s (s'\<lparr>sy_gauge := k\<rparr>) = store_step D s s'"
  "store_step D s (s'\<lparr>sy_server := (sy_server s')\<lparr>sb_inflight := m\<rparr>\<rparr>) = store_step D s s'"
  "store_step D s (s'\<lparr>sy_server := permit_drop (sy_server s')\<rparr>) = store_step D s s'"
  by (simp_all add: store_step_def store_of_def permit_drop_def)

lemma store_step_refl [simp]: "store_step D s s"
  by (simp add: store_step_def)

lemma store_step_breaker:
  "breaker_runs D (sy_now s) (sy_breakers s (sy_breaker_of s g)) cb \<Longrightarrow> store_step D s (set_breaker g cb s)"
  by (simp add: store_step_def store_of_def)

lemma store_step_limiter:
  "limiter_settings lim = limiter_settings (sy_limiters s (sy_limiter_of s g)) \<Longrightarrow>
     store_step D s (set_limiter g lim s)"
  by (simp add: store_step_def store_of_def)

lemma action_store_plain:
  "store_step D s (accept X i request peer s)" "store_step D s (enter i t s)"
  "store_step D s (refuse X i t s)" "store_step D s (release i t r s)"
  "store_step D s (stamp X i t r s)" "store_step D s (authorise X i t s)"
  "store_step D s (begin_proxy X fresh_id i t target s)"
  "store_step D s (answer_client X i t target outcome s)"
  by (simp_all add: accept_def enter_def refuse_def release_def stamp_def authorise_def begin_proxy_def
      answer_client_def Let_def split: option.split sum.split prod.split)

lemma action_store_guard: "store_step D s (guard_request X rendered i t s)"
proof -
  have "store_step D s (set_limiter (sy_current s) (rg_rate_limit (lp_guard (sb_policies b))) s)"
    if "serve_guards H U N L now request ip (server_now s) = (ms, answer, b)" for H U N L now request ip ms answer b
    using serve_guards_settings [OF that] by (intro store_step_limiter) (simp add: snapshot_limiter)
  then show ?thesis
    by (auto simp: guard_request_def Let_def split: option.split sum.split prod.split)
qed

lemma action_store_hop:
  assumes "host_map (si_hosts X)"
  shows "store_step (si_hosts X) s (start_hop X i t target mh st hops req s)"
    "store_step (si_hosts X) s (finish_hop X i t target mh st hops hop reply s)"
    "store_step (si_hosts X) s (cancel_hop X timed_out i t hop s)"
proof -
  show "store_step (si_hosts X) s (start_hop X i t target mh st hops req s)"
    by (auto simp: start_hop_def snapshot_limiter Let_def split: sum.split prod.split
        intro!: store_step_breaker dest: host_map.hop_start_runs [OF assms])
  show "store_step (si_hosts X) s (finish_hop X i t target mh st hops hop reply s)"
    by (auto simp: finish_hop_def snapshot_limiter Let_def split: prod.split
        intro!: store_step_breaker dest: host_map.hop_finish_runs [OF assms])
  show "store_step (si_hosts X) s (cancel_hop X timed_out i t hop s)"
    by (auto simp: cancel_hop_def snapshot_limiter Let_def split: prod.split
        intro!: store_step_breaker dest: host_map.hop_drop_runs [OF assms])
qed

lemma step_store:
  assumes "sys_step X n s s'" "host_map (si_hosts X)"
  obtains (tick) now where "sy_now s \<le> now" "s' = s\<lparr>sy_now := now\<rparr>"
  | (signal) "s' = s\<lparr>sy_server := (sy_server s)\<lparr>sb_ready := False\<rparr>\<rparr>"
  | (reload) S where "s' = reload_step X S s"
  | (action) "store_step (si_hosts X) s s'"
proof -
  note stores = action_store_plain action_store_guard action_store_hop [OF assms(2)]
  have "(\<exists>now. sy_now s \<le> now \<and> s' = s\<lparr>sy_now := now\<rparr>) \<or>
      s' = s\<lparr>sy_server := (sy_server s)\<lparr>sb_ready := False\<rparr>\<rparr> \<or> (\<exists>S. s' = reload_step X S s) \<or>
      store_step (si_hosts X) s s'"
    using assms(1) by (induction rule: sys_step.induct) (simp_all add: stores, blast+)
  with tick signal reload action show thesis by blast
qed

subsection \<open>Snapshots that are sound\<close>

definition policies_sound where
  "policies_sound X now p \<longleftrightarrow>
     as_configured (si_headers X) (si_nets X) (si_hosts X) (si_limiters X) p \<and>
     frozen_fields (lp_config p) = handle_fields (si_handle X) \<and>
     (\<exists>S. load S (si_path X) = Inr (lp_config p)) \<and>
     (\<exists>t \<le> now. cb_reach (circuit_from_config (si_hosts X) (cf_circuit_breaker (lp_config p))) t
        (dm_get (si_hosts X) (br_hosts (lp_circuit p))))"

definition gen_sound where
  "gen_sound X s g \<longleftrightarrow>
     policies_sound X (sy_now s) (snapshot s g) \<and> sy_breaker_of s g \<le> g \<and> sy_limiter_of s g \<le> g"

definition store_sound where
  "store_sound X s \<longleftrightarrow>
     hot_reload (sy_server s) = si_handle X \<and> (\<forall>g \<le> sy_current s. gen_sound X s g)"

lemma cb_reach_steps:
  assumes "(cb_step cb now)\<^sup>*\<^sup>* M M'" "cb_reach cb t M" "t \<le> now"
  shows "\<exists>t' \<le> now. cb_reach cb t' M'"
  using assms
proof (induction rule: rtranclp_induct)
  case base
  then show ?case by blast
next
  case (step M' M'')
  then obtain t' where "t' \<le> now" "cb_reach cb t' M'" by blast
  with step.hyps(2) show ?case using reach_step by blast
qed

lemma as_configured_settings:
  assumes "as_configured H N D L p" "circuit_settings cb = circuit_settings (lp_circuit p)"
    "limiter_settings lim = limiter_settings (rg_rate_limit (lp_guard p))"
  shows "as_configured H N D L (p\<lparr>lp_circuit := cb, lp_guard := (lp_guard p)\<lparr>rg_rate_limit := lim\<rparr>\<rparr>)"
  using assms by (simp add: as_configured_def limiter_as_configured_def Let_def)

lemma snapshot_update:
  "sy_gens s' = sy_gens s \<Longrightarrow> sy_breaker_of s' = sy_breaker_of s \<Longrightarrow> sy_limiter_of s' = sy_limiter_of s \<Longrightarrow>
     snapshot s' g = (snapshot s g)\<lparr>lp_circuit := sy_breakers s' (sy_breaker_of s g),
       lp_guard := (lp_guard (snapshot s g))\<lparr>rg_rate_limit := sy_limiters s' (sy_limiter_of s g)\<rparr>\<rparr>"
  by (simp add: snapshot_def Let_def)

lemma snapshot_sel [simp]:
  "lp_config (snapshot s g) = lp_config (sy_gens s g)" "lp_cors (snapshot s g) = lp_cors (sy_gens s g)"
  "lp_request_filter (snapshot s g) = lp_request_filter (sy_gens s g)"
  "lp_response_filter (snapshot s g) = lp_response_filter (sy_gens s g)"
  "lp_target_policy (snapshot s g) = lp_target_policy (sy_gens s g)"
  "lp_upstream (snapshot s g) = lp_upstream (sy_gens s g)"
  "lp_circuit (snapshot s g) = sy_breakers s (sy_breaker_of s g)"
  "rg_origin (lp_guard (snapshot s g)) = rg_origin (lp_guard (sy_gens s g))"
  "rg_rate_limit (lp_guard (snapshot s g)) = sy_limiters s (sy_limiter_of s g)"
  by (simp_all add: snapshot_def Let_def)

lemma gen_sound_action:
  assumes "store_step (si_hosts X) s s'" "gen_sound X s g"
  shows "gen_sound X s' g"
proof -
  let ?D = "si_hosts X" and ?cfg = "lp_config (sy_gens s g)" and ?c = "sy_breaker_of s g"
  have same: "sy_gens s' = sy_gens s" "sy_breaker_of s' = sy_breaker_of s" "sy_limiter_of s' = sy_limiter_of s"
    "sy_now s' = sy_now s"
    using assms(1) by (simp_all add: store_step_def store_of_def)
  have conf: "as_configured (si_headers X) (si_nets X) ?D (si_limiters X) (snapshot s g)"
    using assms(2) by (simp add: gen_sound_def policies_sound_def)
  have runs: "breaker_runs ?D (sy_now s) (sy_breakers s ?c) (sy_breakers s' ?c)"
    using assms(1) by (simp add: store_step_def)
  have lim: "limiter_settings (sy_limiters s' c) = limiter_settings (sy_limiters s c)" for c
    using assms(1) by (simp add: store_step_def)
  have "circuit_settings (sy_breakers s ?c) = circuit_settings (circuit_from_config ?D (cf_circuit_breaker ?cfg))"
    using conf by (simp add: as_configured_def Let_def)
  then have "cb_step (sy_breakers s ?c) (sy_now s) = cb_step (circuit_from_config ?D (cf_circuit_breaker ?cfg)) (sy_now s)"
    by (rule cb_step_settings)
  with runs have steps: "(cb_step (circuit_from_config ?D (cf_circuit_breaker ?cfg)) (sy_now s))\<^sup>*\<^sup>*
      (dm_get ?D (br_hosts (sy_breakers s ?c))) (dm_get ?D (br_hosts (sy_breakers s' ?c)))"
    by (simp add: breaker_runs_def)
  obtain t where "t \<le> sy_now s" "cb_reach (circuit_from_config ?D (cf_circuit_breaker ?cfg)) t
      (dm_get ?D (br_hosts (sy_breakers s ?c)))"
    using assms(2) by (auto simp: gen_sound_def policies_sound_def)
  with cb_reach_steps [OF steps] have reach: "\<exists>t \<le> sy_now s. cb_reach (circuit_from_config ?D (cf_circuit_breaker ?cfg)) t
      (dm_get ?D (br_hosts (sy_breakers s' ?c)))" by blast
  have "as_configured (si_headers X) (si_nets X) ?D (si_limiters X) (snapshot s' g)"
    unfolding snapshot_update [OF same(1-3)]
    using runs lim by (intro as_configured_settings [OF conf]) (simp_all add: breaker_runs_def)
  with assms(2) reach same show ?thesis by (simp add: gen_sound_def policies_sound_def)
qed

lemma store_sound_action:
  assumes "store_step (si_hosts X) s s'" "store_sound X s"
  shows "store_sound X s'"
proof -
  have "sy_current s' = sy_current s" "hot_reload (sy_server s') = hot_reload (sy_server s)"
    using assms(1) by (simp_all add: store_step_def store_of_def hot_reload_def)
  with assms gen_sound_action [OF assms(1)] show ?thesis by (simp add: store_sound_def)
qed

lemma store_sound_tick:
  "store_sound X s \<Longrightarrow> sy_now s \<le> now \<Longrightarrow> store_sound X (s\<lparr>sy_now := now\<rparr>)"
  unfolding store_sound_def gen_sound_def policies_sound_def snapshot_def Let_def
  by simp (meson order_trans)

lemma store_sound_signal:
  "store_sound X s \<Longrightarrow> store_sound X (s\<lparr>sy_server := (sy_server s)\<lparr>sb_ready := False\<rparr>\<rparr>)"
  by (simp add: store_sound_def gen_sound_def policies_sound_def snapshot_def hot_reload_def Let_def)

lemma fresh_breaker_reach:
  assumes "host_map D"
  shows "cb_reach (circuit_from_config D c) 0 (dm_get D (br_hosts (circuit_from_config D c)))"
proof -
  have "dm_get D (br_hosts (circuit_from_config D c)) = Map.empty"
    using dash_map.get_empty [OF assms [unfolded host_map_def]] by (auto simp: circuit_from_config_def)
  then show ?thesis by (simp add: reach_start)
qed

lemma snapshot_start: "snapshot (start_sys b) 0 = sb_policies b"
  by (simp add: snapshot_def start_sys_def Let_def)

lemma server_from_config_sound:
  assumes "load S (si_path X) = Inr cfg" "si_handle X = hot_reload b" "host_map (si_hosts X)"
    "server_from_config (si_headers X) (si_nets X) (si_hosts X) (si_limiters X) (si_roots X) cfg = Inr b"
  shows "store_sound X (start_sys b)"
proof -
  obtain p where p: "build_from (si_headers X) (si_nets X) (si_hosts X) (si_limiters X) (si_roots X) cfg None = Inr p"
    and b: "sb_policies b = p" "sb_immutable_server b = cf_server cfg" "sb_immutable_limits b = cf_limits cfg"
      "sb_immutable_metrics_endpoint b = ob_metrics_endpoint (cf_observability cfg)"
    using assms(4) by (auto simp: server_from_config_def build_policies_def bind_res_eq_Inr)
  have conf: "as_configured (si_headers X) (si_nets X) (si_hosts X) (si_limiters X) p"
    using build_from_as_configured [OF _ p] by simp
  have cfg: "lp_config p = cfg" "lp_circuit p = circuit_from_config (si_hosts X) (cf_circuit_breaker cfg)"
    using build_from_InrD(1,8) [OF p] by simp_all
  have "frozen_fields cfg = handle_fields (si_handle X)"
    by (simp add: assms(2) b hot_reload_def frozen_fields_def handle_fields_def)
  moreover have "policies_sound X 0 p"
    unfolding policies_sound_def cfg using conf calculation assms(1) fresh_breaker_reach [OF assms(3)] by blast
  ultimately show ?thesis
    by (simp add: store_sound_def gen_sound_def assms(2) snapshot_start b)
qed

text \<open>
  A reload that succeeds stores the snapshot that was built under the next number, and the snapshots
  before it are what they were.
\<close>

lemma snapshot_fields:
  "snapshot (s\<lparr>sy_gens := G, sy_current := c, sy_breaker_of := B, sy_limiter_of := L, sy_breakers := bs,
     sy_limiters := ls\<rparr>) g =
   (G g)\<lparr>lp_circuit := bs (B g), lp_guard := (lp_guard (G g))\<lparr>rg_rate_limit := ls (L g)\<rparr>\<rparr>"
  by (simp add: snapshot_def Let_def)

lemma reload_step_snapshots:
  assumes "reload (si_headers X) (si_nets X) (si_hosts X) (si_limiters X) (si_roots X) S (si_handle X)
      (si_path X) (snapshot s (sy_current s)) = (Inr u, p)"
    "build_from (si_headers X) (si_nets X) (si_hosts X) (si_limiters X) (si_roots X) cfg
      (Some (snapshot s (sy_current s))) = Inr p"
    "\<And>g. g \<le> sy_current s \<Longrightarrow> sy_breaker_of s g \<le> g \<and> sy_limiter_of s g \<le> g"
  shows "sy_current (reload_step X S s) = Suc (sy_current s)"
    "snapshot (reload_step X S s) (Suc (sy_current s)) = p"
    "g \<le> sy_current s \<Longrightarrow> snapshot (reload_step X S s) g = snapshot s g"
proof -
  note b = build_from_InrD [OF assms(2)]
  show "sy_current (reload_step X S s) = Suc (sy_current s)"
    by (simp add: reload_step_def assms(1) Let_def)
  have kept: "cf_circuit_breaker (lp_config (sy_gens s (sy_current s))) = cf_circuit_breaker (lp_config p) \<Longrightarrow>
      sy_breakers s (sy_breaker_of s (sy_current s)) = lp_circuit p"
    "cf_rate_limit (lp_config (sy_gens s (sy_current s))) = cf_rate_limit (lp_config p) \<Longrightarrow>
      sy_limiters s (sy_limiter_of s (sy_current s)) = rg_rate_limit (lp_guard p)"
    using b(1,7,8) by simp_all
  show "snapshot (reload_step X S s) (Suc (sy_current s)) = p"
    using kept by (auto simp: reload_step_def assms(1) snapshot_fields Let_def)
  show "snapshot (reload_step X S s) g = snapshot s g" if "g \<le> sy_current s"
  proof -
    have "g \<noteq> Suc (sy_current s)" "sy_breaker_of s g \<noteq> Suc (sy_current s)" "sy_limiter_of s g \<noteq> Suc (sy_current s)"
      using that assms(3) [OF that] by simp_all
    then show ?thesis
      by (simp add: reload_step_def assms(1) snapshot_fields Let_def)
  qed
qed

lemma store_sound_reload:
  assumes "store_sound X s" "host_map (si_hosts X)"
  shows "store_sound X (reload_step X S s)"
proof -
  let ?cur = "sy_current s" and ?D = "si_hosts X"
  obtain r p where rel: "reload (si_headers X) (si_nets X) ?D (si_limiters X) (si_roots X) S (si_handle X)
      (si_path X) (snapshot s ?cur) = (r, p)" by fastforce
  then show ?thesis
  proof (cases rule: reload_cases)
    case (failed err)
    with rel assms(1) show ?thesis by (simp add: reload_step_def Let_def)
  next
    case (ok cfg)
    let ?s = "reload_step X S s"
    have old: "gen_sound X s g" if "g \<le> ?cur" for g
      using assms(1) that by (simp add: store_sound_def)
    have le: "g \<le> ?cur \<Longrightarrow> sy_breaker_of s g \<le> g \<and> sy_limiter_of s g \<le> g" for g
      using old [of g] by (simp add: gen_sound_def Let_def)
    note snap = reload_step_snapshots [OF rel [unfolded ok(1)] ok(4) le]
    have "\<exists>t \<le> sy_now s. cb_reach (circuit_from_config ?D (cf_circuit_breaker cfg)) t
        (dm_get ?D (br_hosts (lp_circuit p)))"
    proof (cases "cf_circuit_breaker (lp_config (snapshot s ?cur)) = cf_circuit_breaker cfg")
      case True
      with build_from_InrD(8) [OF ok(4)] old [of ?cur] show ?thesis
        by (simp add: gen_sound_def policies_sound_def)
    next
      case False
      with build_from_InrD(8) [OF ok(4)] fresh_breaker_reach [OF assms(2)] show ?thesis by fastforce
    qed
    then have new: "policies_sound X (sy_now s) p"
      using old [of ?cur] build_from_as_configured [OF _ ok(4)] build_from_InrD(1) [OF ok(4)] ok(2,3)
      by (auto simp: gen_sound_def policies_sound_def)
    have maps: "sy_now ?s = sy_now s" "sy_server ?s = sy_server s"
      "g \<le> ?cur \<Longrightarrow> sy_breaker_of ?s g = sy_breaker_of s g \<and> sy_limiter_of ?s g = sy_limiter_of s g"
      "sy_breaker_of ?s (Suc ?cur) \<le> Suc ?cur \<and> sy_limiter_of ?s (Suc ?cur) \<le> Suc ?cur" for g
      using le [of ?cur] rel ok(1) by (simp_all add: reload_step_def Let_def)
    have "gen_sound X ?s g" if "g \<le> Suc ?cur" for g
    proof (cases "g = Suc ?cur")
      case True
      with new snap(2) maps show ?thesis by (simp add: gen_sound_def)
    next
      case False
      with that have "g \<le> ?cur" by simp
      with old [of g] snap(3) maps(1) maps(3) [of g] show ?thesis by (simp add: gen_sound_def)
    qed
    with assms(1) snap(1) maps(2) show ?thesis by (simp add: store_sound_def)
  qed
qed

theorem reach_store_sound:
  assumes "sys_reach X n s" "host_map (si_hosts X)"
  shows "store_sound X s"
  using assms(1)
proof induction
  case (reach_init S cfg b)
  then show ?case using server_from_config_sound [OF _ _ assms(2)] by blast
next
  case (reach_next s s')
  from step_store [OF reach_next.hyps(2) assms(2)] reach_next.IH show ?case
    by cases (auto intro: store_sound_tick store_sound_signal store_sound_reload [OF _ assms(2)] store_sound_action)
qed

end
