(* ===== verification/Concurrent_Requests.thy ===== *)
theory Concurrent_Requests
  imports Concurrent_Policies
begin

text \<open>
  What every reachable state of \<open>Concurrent\<close> keeps of a request: whichever snapshots it was
  authorised, guarded and proxied with, each of the checks passed under the one it used, and what it
  has sent is a chain of admitted requests, one of them at most still open.
\<close>

subsection \<open>What no step takes back\<close>

definition keeps where
  "keeps s s' \<longleftrightarrow>
     sy_current s \<le> sy_current s' \<and> (\<forall>g \<le> sy_current s. sy_gens s' g = sy_gens s g) \<and>
     sb_immutable_server (sy_server s') = sb_immutable_server (sy_server s) \<and>
     sb_immutable_limits (sy_server s') = sb_immutable_limits (sy_server s) \<and>
     sb_immutable_metrics_endpoint (sy_server s') = sb_immutable_metrics_endpoint (sy_server s)"

lemma store_step_keeps: "store_step D s s' \<Longrightarrow> keeps s s'"
  by (simp add: store_step_def store_of_def keeps_def)

lemma reload_step_keeps: "keeps s (reload_step X S s)"
  by (simp add: reload_step_def keeps_def Let_def split: prod.split sum.split)

lemma keeps_tick: "keeps s (s\<lparr>sy_now := now\<rparr>)" "keeps s (s\<lparr>sy_server := (sy_server s)\<lparr>sb_ready := r\<rparr>\<rparr>)"
  by (simp_all add: keeps_def)

lemma step_keeps: "sys_step X n s s' \<Longrightarrow> host_map (si_hosts X) \<Longrightarrow> keeps s s'"
  by (erule (1) step_store) (simp_all add: store_step_keeps reload_step_keeps keeps_tick)

subsection \<open>The checks a request has passed\<close>

definition passed_auth where
  "passed_auth X s t \<longleftrightarrow>
     tk_auth t \<le> sy_current s \<and>
     auth_refusal (si_headers X) (sb_immutable_metrics_endpoint (sy_server s))
       (lp_config (sy_gens s (tk_auth t))) (tk_request t) = None"

definition passed_guards where
  "passed_guards X s t target \<longleftrightarrow>
     passed_auth X s t \<and> tk_auth t \<le> tk_guard t \<and> tk_guard t \<le> sy_current s \<and>
     \<not> is_preflight (si_headers X) (tk_request t) \<and>
     check_origin (si_headers X) (lp_guard (sy_gens s (tk_guard t))) (tk_request t) = Inr () \<and>
     extract_target (si_urls X) (rq_uri (tk_request t)) = Inr target \<and>
     check_target (si_urls X) (lp_target_policy (sy_gens s (tk_guard t))) target = Inr ()"

definition proxies where
  "proxies X s t target \<longleftrightarrow> passed_guards X s t target \<and> tk_guard t \<le> tk_gen t \<and> tk_gen t \<le> sy_current s"

definition gen_upstream where
  "gen_upstream s t = lp_upstream (sy_gens s (tk_gen t))"

definition first_request where
  "first_request X s t target q \<longleftrightarrow>
     (\<exists>fresh_id. outbound_request (si_headers X) (si_urls X) fresh_id
        ((sy_server s)\<lparr>sb_policies := sy_gens s (tk_gen t)\<rparr>) (tk_request t) target (tk_peer t) = Inr q)"

text \<open>The requests of a trace: the first one is the client's, each other one follows from its predecessor.\<close>

definition chained where
  "chained X s t target qs \<longleftrightarrow>
     (qs \<noteq> [] \<longrightarrow> first_request X s t target (hd qs)) \<and>
     successively (follows (si_headers X) (allows_downgrade (gen_upstream s t))) qs"

definition hop_allowed where
  "hop_allowed s t q \<longleftrightarrow> check_uri (ups_target_policy (gen_upstream s t)) (rq_uri q) = Inr ()"

definition max_hops where
  "max_hops s t = cl_max_redirects (ups_config (gen_upstream s t))"

definition turning where
  "turning X s t target st hops req ev \<longleftrightarrow>
     proxies X s t target \<and> well_settled ev \<and> list_all (hop_allowed s t) (sent ev) \<and>
     chained X s t target (sent ev @ [req]) \<and> length (sent ev) = unat hops \<and> hops \<le> max_hops s t \<and>
     in_step (si_headers X) st req"

definition done_proxying where
  "done_proxying X s t target \<longleftrightarrow>
     proxies X s t target \<and> well_settled (tk_trace t) \<and> list_all (hop_allowed s t) (sent (tk_trace t)) \<and>
     chained X s t target (sent (tk_trace t)) \<and> length (sent (tk_trace t)) \<le> unat (max_hops s t) + 1"

definition stamped where
  "stamped X s t r \<longleftrightarrow>
     (\<exists>g \<le> sy_current s. \<exists>response.
        r = apply_to_response (si_headers X) response (rq_headers (tk_request t)) (lp_cors (sy_gens s g)))"

definition task_ok where
  "task_ok X s t \<longleftrightarrow>
     (case tk_phase t of
        Arrived \<Rightarrow> tk_trace t = []
      | Shedding \<Rightarrow> tk_trace t = []
      | Inside \<Rightarrow> tk_trace t = []
      | Authorised \<Rightarrow> tk_trace t = [] \<and> passed_auth X s t
      | Guarded target \<Rightarrow> tk_trace t = [] \<and> passed_guards X s t target
      | Turning target mh st hops req \<Rightarrow> turning X s t target st hops req (tk_trace t)
      | Waiting target mh st hops req hop \<Rightarrow>
          hop_host hop = host_of (rq_uri req) \<and> hop_allowed s t req \<and>
          (\<exists>ev. tk_trace t = ev @ [Admitted (hop_host hop), Requested req] \<and>
             turning X s t target st hops req ev)
      | Answered target r \<Rightarrow> done_proxying X s t target
      | Leaving r \<Rightarrow> tk_trace t = [] \<or> (\<exists>target. done_proxying X s t target)
      | Unshed r \<Rightarrow> tk_trace t = [] \<or> (\<exists>target. done_proxying X s t target)
      | Finished r \<Rightarrow> (tk_trace t = [] \<or> (\<exists>target. done_proxying X s t target)) \<and>
          (\<forall>response. r = Some response \<longrightarrow> stamped X s t response))"

subsection \<open>Facts that last\<close>

lemma outbound_request_cong:
  assumes "sb_immutable_server b' = sb_immutable_server b"
    "lp_config (sb_policies b') = lp_config (sb_policies b)"
    "lp_request_filter (sb_policies b') = lp_request_filter (sb_policies b)"
    "lp_upstream (sb_policies b') = lp_upstream (sb_policies b)"
  shows "outbound_request H U fresh_id b' = outbound_request H U fresh_id b"
  using assms by (intro ext) (simp add: outbound_request_def outbound_headers_def Let_def)

lemma passed_keeps:
  assumes "keeps s s'"
  shows "passed_auth X s t \<Longrightarrow> passed_auth X s' t" "passed_guards X s t target \<Longrightarrow> passed_guards X s' t target"
    "proxies X s t target \<Longrightarrow> proxies X s' t target"
  using assms by (auto simp: keeps_def passed_auth_def passed_guards_def proxies_def)

lemma chain_keeps:
  assumes "keeps s s'" "tk_gen t \<le> sy_current s"
  shows "gen_upstream s' t = gen_upstream s t" "hop_allowed s' t = hop_allowed s t" "max_hops s' t = max_hops s t"
    "chained X s' t target qs = chained X s t target qs"
proof -
  show u: "gen_upstream s' t = gen_upstream s t" using assms by (simp add: keeps_def gen_upstream_def)
  then show "hop_allowed s' t = hop_allowed s t" "max_hops s' t = max_hops s t"
    by (simp_all add: hop_allowed_def max_hops_def fun_eq_iff)
  have "outbound_request (si_headers X) (si_urls X) i ((sy_server s')\<lparr>sb_policies := sy_gens s' (tk_gen t)\<rparr>) =
      outbound_request (si_headers X) (si_urls X) i ((sy_server s)\<lparr>sb_policies := sy_gens s (tk_gen t)\<rparr>)" for i
    using assms by (intro outbound_request_cong) (simp_all add: keeps_def)
  with u show "chained X s' t target qs = chained X s t target qs"
    by (simp add: chained_def first_request_def)
qed

lemma proxies_gen: "proxies X s t target \<Longrightarrow> tk_gen t \<le> sy_current s"
  by (simp add: proxies_def)

lemma turning_keeps:
  assumes "keeps s s'" "turning X s t target st hops req ev"
  shows "turning X s' t target st hops req ev"
proof -
  have p: "proxies X s t target" using assms(2) by (simp add: turning_def)
  with assms passed_keeps(3) [OF assms(1) p] show ?thesis
    by (simp add: turning_def chain_keeps [OF assms(1) proxies_gen [OF p]])
qed

lemma done_keeps:
  assumes "keeps s s'" "done_proxying X s t target"
  shows "done_proxying X s' t target"
proof -
  have p: "proxies X s t target" using assms(2) by (simp add: done_proxying_def)
  with assms passed_keeps(3) [OF assms(1) p] show ?thesis
    by (simp add: done_proxying_def chain_keeps [OF assms(1) proxies_gen [OF p]])
qed

lemma stamped_keeps: "keeps s s' \<Longrightarrow> stamped X s t r \<Longrightarrow> stamped X s' t r"
  unfolding stamped_def keeps_def by (metis order_trans)

lemma task_ok_keeps:
  assumes "keeps s s'" "task_ok X s t"
  shows "task_ok X s' t"
proof (cases "tk_phase t")
  case (Waiting target mh st hops req hop)
  with assms(2) have gen: "tk_gen t \<le> sy_current s" by (auto simp: task_ok_def turning_def proxies_gen)
  with Waiting assms show ?thesis using turning_keeps [OF assms(1)]
    by (auto simp: task_ok_def chain_keeps(2) [OF assms(1) gen])
qed (use assms in \<open>auto simp: task_ok_def
      intro: passed_keeps [OF assms(1)] turning_keeps [OF assms(1)] done_keeps [OF assms(1)] stamped_keeps [OF assms(1)]\<close>)

subsection \<open>Each action\<close>

definition moves where
  "moves X i s s' \<longleftrightarrow> (\<exists>t. sy_tasks s' = (sy_tasks s)(i \<mapsto> t) \<and> task_ok X s t)"

lemma moves_set_task [simp]: "sy_tasks s' = sy_tasks s \<Longrightarrow> moves X i s (set_task i t s') \<longleftrightarrow> task_ok X s t"
  by (auto simp: moves_def dest: fun_upd_eqD)

lemma moves_gauge [simp]: "moves X i s (s'\<lparr>sy_gauge := k\<rparr>) = moves X i s s'"
  by (simp add: moves_def)

lemma task_fields [simp]:
  "passed_auth X s (t\<lparr>tk_phase := ph\<rparr>) = passed_auth X s t"
  "passed_auth X s (t\<lparr>tk_guard := k\<rparr>) = passed_auth X s t"
  "passed_auth X s (t\<lparr>tk_gen := k\<rparr>) = passed_auth X s t"
  "passed_auth X s (t\<lparr>tk_trace := ev\<rparr>) = passed_auth X s t"
  "passed_guards X s (t\<lparr>tk_phase := ph\<rparr>) = passed_guards X s t"
  "passed_guards X s (t\<lparr>tk_gen := k\<rparr>) = passed_guards X s t"
  "passed_guards X s (t\<lparr>tk_trace := ev\<rparr>) = passed_guards X s t"
  "proxies X s (t\<lparr>tk_phase := ph\<rparr>) = proxies X s t"
  "proxies X s (t\<lparr>tk_trace := ev\<rparr>) = proxies X s t"
  "gen_upstream s (t\<lparr>tk_phase := ph\<rparr>) = gen_upstream s t"
  "gen_upstream s (t\<lparr>tk_trace := ev\<rparr>) = gen_upstream s t"
  "hop_allowed s (t\<lparr>tk_phase := ph\<rparr>) = hop_allowed s t"
  "hop_allowed s (t\<lparr>tk_trace := ev\<rparr>) = hop_allowed s t"
  "max_hops s (t\<lparr>tk_phase := ph\<rparr>) = max_hops s t"
  "max_hops s (t\<lparr>tk_trace := ev\<rparr>) = max_hops s t"
  by (simp_all add: passed_auth_def passed_guards_def proxies_def gen_upstream_def hop_allowed_def max_hops_def
      fun_eq_iff)

lemma task_chain_fields [simp]:
  "chained X s (t\<lparr>tk_phase := ph\<rparr>) = chained X s t"
  "chained X s (t\<lparr>tk_trace := ev\<rparr>) = chained X s t"
  "turning X s (t\<lparr>tk_phase := ph\<rparr>) = turning X s t"
  "turning X s (t\<lparr>tk_trace := ev\<rparr>) = turning X s t"
  "done_proxying X s (t\<lparr>tk_phase := ph\<rparr>) = done_proxying X s t"
  "stamped X s (t\<lparr>tk_phase := ph\<rparr>) = stamped X s t"
  by (simp_all add: chained_def turning_def done_proxying_def stamped_def first_request_def fun_eq_iff)

lemma moves_entry:
  "moves X i s (accept X i request peer s)"
  by (simp add: accept_def new_task_def task_ok_def split: if_split)

lemma moves_shed:
  assumes "task_ok X s t"
  shows "tk_phase t = Arrived \<Longrightarrow> moves X i s (enter i t s)" "tk_phase t = Shedding \<Longrightarrow> moves X i s (refuse X i t s)"
    "tk_phase t = Leaving r \<Longrightarrow> moves X i s (release i t r s)" "tk_phase t = Unshed r \<Longrightarrow> moves X i s (stamp X i t r s)"
proof -
  show "tk_phase t = Arrived \<Longrightarrow> moves X i s (enter i t s)" "tk_phase t = Shedding \<Longrightarrow> moves X i s (refuse X i t s)"
    "tk_phase t = Leaving r \<Longrightarrow> moves X i s (release i t r s)"
    using assms by (simp_all add: enter_def refuse_def release_def task_ok_def Let_def)
  show "tk_phase t = Unshed r \<Longrightarrow> moves X i s (stamp X i t r s)"
    using assms by (auto simp: stamp_def task_ok_def stamped_def)
qed

lemma moves_authorise: "task_ok X s t \<Longrightarrow> tk_phase t = Inside \<Longrightarrow> moves X i s (authorise X i t s)"
  by (auto simp: authorise_def task_ok_def passed_auth_def split: option.split)

lemma check_origin_snapshot:
  "check_origin H (lp_guard (sb_policies (server_at s g))) request = check_origin H (lp_guard (sy_gens s g)) request"
  by (simp add: check_origin_def server_at_def)

lemma serve_guards_passed:
  assumes "serve_guards H U N L now request ip b = (ms, Inr target, b')"
  shows "\<not> is_preflight H request \<and> check_origin H (lp_guard (sb_policies b)) request = Inr () \<and>
    extract_target U (rq_uri request) = Inr target \<and> check_target U (lp_target_policy (sb_policies b)) target = Inr ()"
  using assms by (auto simp: serve_guards_def Let_def split: if_splits sum.splits prod.splits)

lemma moves_guard:
  assumes "task_ok X s t" "tk_phase t = Authorised"
  shows "moves X i s (guard_request X rendered i t s)"
proof (cases "ops_answer (si_headers X) rendered (server_now s) (tk_request t)")
  case (Some response)
  with assms show ?thesis by (auto simp: guard_request_def task_ok_def)
next
  case None
  obtain ms answer b where g: "serve_guards (si_headers X) (si_urls X) (si_nets X) (si_limiters X) (sy_now s)
      (tk_request t) (tk_peer t) (server_now s) = (ms, answer, b)" by (metis prod_cases3)
  show ?thesis
  proof (cases answer)
    case (Inl r)
    with None g assms show ?thesis by (auto simp: guard_request_def task_ok_def)
  next
    case (Inr target)
    have "tk_trace t = []" "passed_auth X s t" using assms by (simp_all add: task_ok_def)
    with serve_guards_passed [OF g [unfolded Inr]]
    have "task_ok X s (t\<lparr>tk_phase := Guarded target, tk_guard := sy_current s\<rparr>)"
      by (simp add: task_ok_def passed_guards_def passed_auth_def check_origin_snapshot) (simp add: server_at_def)
    with None g Inr show ?thesis by (auto simp: guard_request_def)
  qed
qed

lemma outbound_server_at:
  "outbound_request H U fresh_id (server_at s g) =
     outbound_request H U fresh_id ((sy_server s)\<lparr>sb_policies := sy_gens s g\<rparr>)"
  by (rule outbound_request_cong) (simp_all add: server_at_def)

lemma moves_begin:
  assumes "task_ok X s t" "tk_phase t = Guarded target"
  shows "moves X i s (begin_proxy X fresh_id i t target s)"
proof -
  have ok: "tk_trace t = []" "passed_guards X s t target" using assms by (simp_all add: task_ok_def)
  then have p: "proxies X s (t\<lparr>tk_gen := sy_current s\<rparr>) target"
    by (simp add: proxies_def) (simp add: passed_guards_def)
  show ?thesis
  proof (cases "outbound_request (si_headers X) (si_urls X) fresh_id (server_now s) (tk_request t) target (tk_peer t)")
    case (Inl e)
    with ok p have "task_ok X s (t\<lparr>tk_phase := Answered target (Inl e), tk_gen := sy_current s\<rparr>)"
      by (simp add: task_ok_def done_proxying_def chained_def proxies_def)
    with Inl show ?thesis by (auto simp: begin_proxy_def)
  next
    case (Inr outbound)
    obtain st where st: "split_initial outbound = (st, outbound)" by (simp add: split_initial_def)
    have "first_request X s (t\<lparr>tk_gen := sy_current s\<rparr>) target outbound"
      using Inr by (auto simp: first_request_def outbound_server_at)
    with ok p execute_initial [of "si_headers X" outbound]
    have "turning X s (t\<lparr>tk_gen := sy_current s\<rparr>) target st 0 outbound []"
      by (simp add: turning_def chained_def st)
    with ok have "task_ok X s (t\<lparr>tk_phase := Turning target (host_of (rd_uri st)) st 0 outbound, tk_gen := sy_current s\<rparr>)"
      by (simp add: task_ok_def turning_def chained_def first_request_def proxies_def)
    with Inr st show ?thesis by (auto simp: begin_proxy_def)
  qed
qed

text \<open>What a hop that is settled adds to the trace it was open in.\<close>

lemma turning_settled:
  assumes "turning X s t target st hops req ev" "hop_allowed s t req" "settlement req e"
    "tr = ev @ hop_events req e"
  shows "done_proxying X s (t\<lparr>tk_trace := tr\<rparr>) target"
proof -
  have "well_settled (ev @ ev') \<longleftrightarrow> well_settled ev'" if "well_settled ev" for ev' :: "'a hop_event list" and ev
    using that by (induction ev rule: well_settled.induct) simp_all
  with assms well_settled_hop [OF assms(3), of "[]"] show ?thesis
    by (simp add: turning_def done_proxying_def sent_append word_le_nat_alt)
qed

lemma turning_next:
  assumes "turning X s t target st hops req ev" "hop_allowed s t req" "settlement req e"
    "follows (si_headers X) (allows_downgrade (gen_upstream s t)) req req'" "in_step (si_headers X) st' req'"
    "hops < max_hops s t" "tr = ev @ hop_events req e"
  shows "turning X s (t\<lparr>tk_trace := tr\<rparr>) target st' (sat_add hops 1) req' tr"
proof -
  have "unat (max_hops s t) < 256"
    using unsigned_less [of "max_hops s t", where ?'a = nat] by simp
  with assms(6) have grow: "unat (sat_add hops 1) = unat hops + 1" "sat_add hops 1 \<le> max_hops s t"
    by (simp_all add: unat_sat_add word_less_nat_alt word_le_nat_alt)
  have "done_proxying X s (t\<lparr>tk_trace := tr\<rparr>) target"
    using turning_settled [OF assms(1-3) assms(7)] .
  with assms grow show ?thesis
    by (auto simp: turning_def done_proxying_def sent_append chained_def successively_append_iff hd_append)
qed

lemma hop_start_admits:
  assumes "hop_start D u now req cb = (ms, Inr hop, cb')"
  shows "hop_host hop = host_of (rq_uri req) \<and> check_uri (ups_target_policy u) (rq_uri req) = Inr ()"
  using assms by (auto simp: hop_start_def dest: hop_admit_host split: sum.splits)

lemma moves_start_hop:
  assumes "task_ok X s t" "tk_phase t = Turning target mh st hops req"
  shows "moves X i s (start_hop X i t target mh st hops req s)"
proof -
  have turn: "turning X s t target st hops req (tk_trace t)" using assms by (simp add: task_ok_def)
  obtain ms r cb where h: "hop_start (si_hosts X) (gen_upstream s t) (sy_now s) req
      (lp_circuit (snapshot s (tk_gen t))) = (ms, r, cb)" by (metis prod_cases3)
  show ?thesis
  proof (cases r)
    case (Inl e)
    have "chained X s t target (sent (tk_trace t))" "length (sent (tk_trace t)) \<le> unat (max_hops s t) + 1"
      using turn by (auto simp: turning_def chained_def successively_append_iff word_le_nat_alt hd_append split: if_splits)
    with turn have "done_proxying X s t target" by (simp add: turning_def done_proxying_def)
    with h Inl show ?thesis by (simp add: start_hop_def gen_upstream_def task_ok_def)
  next
    case (Inr hop)
    with h turn hop_start_admits [of _ _ _ _ _ ms hop] show ?thesis
      by (fastforce simp: start_hop_def gen_upstream_def task_ok_def hop_allowed_def)
  qed
qed

lemma after_response_link:
  assumes "after_response H U D u mh now st hops hop r cb = (ms, ev, Next st' req', cb')" "in_step H st req"
    "header_map H"
  shows "follows H (allows_downgrade u) req req' \<and> in_step H st' req'"
proof -
  from after_response_Next [OF assms(1)]
  have p: "prepare_next H U st r (allows_downgrade u) = (Inr (Continue req'), st')" by (simp add: allows_downgrade_def)
  from header_map.prepare_next_safe [OF assms(3) p] header_map.prepare_next_headers_kept [OF assms(3) p] assms(2)
  show ?thesis by (auto simp: follows_def hop_safe_def in_step_def)
qed

lemma hop_finish_events:
  assumes "hop_finish H U D u mh now st hops hop outcome cb = (ms, ev, turn, cb')" "hop_host hop = host_of (rq_uri req)"
  obtains e where "ev = [e]" "settlement req e"
  using assms
  by (auto simp: hop_finish_def settlement_def dest: settle_events after_response_events
      split: awaited.splits sum.splits prod.splits)

lemma hop_finish_link:
  assumes "hop_finish H U D u mh now st hops hop outcome cb = (ms, ev, Next st' req', cb')" "in_step H st req"
    "header_map H"
  shows "follows H (allows_downgrade u) req req' \<and> in_step H st' req' \<and> hops < cl_max_redirects (ups_config u)"
  using assms
  by (auto simp: hop_finish_def dest: after_response_link after_response_Next
      split: awaited.splits sum.splits prod.splits)

lemma moves_finish_hop:
  assumes "task_ok X s t" "tk_phase t = Waiting target mh st hops req hop" "header_map (si_headers X)"
  shows "moves X i s (finish_hop X i t target mh st hops hop outcome s)"
proof -
  obtain ev where w: "hop_host hop = host_of (rq_uri req)" "hop_allowed s t req"
    "tk_trace t = ev @ [Admitted (hop_host hop), Requested req]" "turning X s t target st hops req ev"
    using assms by (auto simp: task_ok_def)
  obtain ms ev' turn cb where h: "hop_finish (si_headers X) (si_urls X) (si_hosts X) (gen_upstream s t) mh (sy_now s)
      st hops hop (Ready outcome) (lp_circuit (snapshot s (tk_gen t))) = (ms, ev', turn, cb)" by (metis prod_cases4)
  from hop_finish_events [OF h w(1)] obtain e where e: "ev' = [e]" "settlement req e" .
  with w have tr: "tk_trace t @ ev' = ev @ hop_events req e" by (simp add: hop_events_def)
  note settled = turning_settled [OF w(4,2) e(2) tr]
  show ?thesis
  proof (cases turn)
    case (Return r)
    with h settled show ?thesis
      by (cases r) (auto simp: finish_hop_def gen_upstream_def task_ok_def done_proxying_def)
  next
    case (Next st' req')
    from w(4) have "in_step (si_headers X) st req" by (simp add: turning_def)
    with hop_finish_link [OF h [unfolded Next]] assms(3) turning_next [OF w(4,2) e(2) _ _ _ tr]
    have "turning X s (t\<lparr>tk_trace := tk_trace t @ ev'\<rparr>) target st' (sat_add hops 1) req' (tk_trace t @ ev')"
      by (simp add: max_hops_def)
    with h Next show ?thesis by (simp add: finish_hop_def gen_upstream_def task_ok_def)
  qed
qed

lemma moves_cancel_hop:
  assumes "task_ok X s t" "tk_phase t = Waiting target mh st hops req hop"
  shows "moves X i s (cancel_hop X timed_out i t hop s)"
proof -
  obtain ev where w: "hop_host hop = host_of (rq_uri req)" "hop_allowed s t req"
    "tk_trace t = ev @ [Admitted (hop_host hop), Requested req]" "turning X s t target st hops req ev"
    using assms by (auto simp: task_ok_def)
  have "tk_trace t @ [Failed (hop_host hop)] = ev @ hop_events req (Failed (hop_host hop))"
    using w by (simp add: hop_events_def)
  with turning_settled [OF w(4,2) _ this] w(1)
  have "done_proxying X s (t\<lparr>tk_trace := tk_trace t @ [Failed (hop_host hop)]\<rparr>) target" by (simp add: settlement_def)
  then show ?thesis by (auto simp: cancel_hop_def task_ok_def done_proxying_def split: prod.split)
qed

lemma moves_answer: "task_ok X s t \<Longrightarrow> tk_phase t = Answered target r \<Longrightarrow> moves X i s (answer_client X i t target r s)"
  by (auto simp: answer_client_def task_ok_def)

subsection \<open>Every reachable state\<close>

lemma step_moves:
  assumes "sys_step X n s s'" "\<And>i t. sy_tasks s i = Some t \<Longrightarrow> task_ok X s t" "header_map (si_headers X)"
  shows "sy_tasks s' = sy_tasks s \<or> (\<exists>i. moves X i s s')"
proof -
  have ok: "sy_tasks s i = Some t \<Longrightarrow> task_ok X s t" for i t using assms(2) .
  note finish = moves_finish_hop [OF ok _ assms(3)]
  note m = moves_entry moves_shed [OF ok] moves_authorise [OF ok] moves_guard [OF ok] moves_begin [OF ok]
    moves_start_hop [OF ok] finish moves_cancel_hop [OF ok] moves_answer [OF ok]
  from assms(1) show ?thesis
  proof cases
    case (step_reload S)
    then show ?thesis by (simp add: reload_step_def Let_def split: prod.split sum.split)
  qed (simp, simp, (blast intro: m)+)
qed

theorem reach_tasks_ok:
  assumes "sys_reach X n s" "host_map (si_hosts X)" "header_map (si_headers X)"
  shows "sy_tasks s i = Some t \<Longrightarrow> task_ok X s t"
  using assms(1)
proof (induction arbitrary: i t)
  case (reach_next s s')
  have keeps: "keeps s s'" using step_keeps [OF reach_next.hyps(2) assms(2)] .
  have "sy_tasks s' = sy_tasks s \<or> (\<exists>i. moves X i s s')"
    using step_moves [OF reach_next.hyps(2) _ assms(3)] reach_next.IH by blast
  with reach_next.prems reach_next.IH have "task_ok X s t" by (auto simp: moves_def split: if_splits)
  with keeps show ?case by (rule task_ok_keeps)
qed simp

end
