(* ===== verification/Concurrent_Inflight.thy ===== *)
theory Concurrent_Inflight
  imports Concurrent_Policies
begin

text \<open>
  The two counters of the running server: \<open>Concurrent\<close> counts requests exactly as the counter machine
  of \<open>Load_Shed\<close> does, and the gauge of requests in service is their number.
\<close>

subsection \<open>Where a request stands\<close>

fun slot_of :: "('h, 'u) phase \<Rightarrow> slot" where
  "slot_of Arrived = Outside"
| "slot_of Shedding = Refused"
| "slot_of (Unshed r) = Outside"
| "slot_of (Finished r) = Outside"
| "slot_of _ = Permitted"

fun in_service :: "('h, 'u) phase \<Rightarrow> bool" where
  "in_service (Guarded target) = True"
| "in_service (Turning target mh st hops req) = True"
| "in_service (Waiting target mh st hops req hop) = True"
| "in_service (Answered target r) = True"
| "in_service _ = False"

definition slots_of where
  "slots_of s i = (case sy_tasks s i of None \<Rightarrow> Outside | Some t \<Rightarrow> slot_of (tk_phase t))"

definition active where
  "active s = {i. \<exists>t. sy_tasks s i = Some t \<and> in_service (tk_phase t)}"

lemma tasks_cong: "sy_tasks s' = sy_tasks s \<Longrightarrow> slots_of s' = slots_of s" "sy_tasks s' = sy_tasks s \<Longrightarrow> active s' = active s"
  by (simp_all add: slots_of_def active_def fun_eq_iff)

lemma active_iff: "i \<in> active s \<longleftrightarrow> (case sy_tasks s i of None \<Rightarrow> False | Some t \<Rightarrow> in_service (tk_phase t))"
  by (auto simp: active_def split: option.split)

lemma in_service_permitted: "in_service ph \<Longrightarrow> slot_of ph = Permitted"
  by (cases ph) simp_all

lemma active_permitted: "active s \<subseteq> permitted (slots_of s)"
  by (auto simp: active_def permitted_def slots_of_def in_service_permitted)

subsection \<open>What a step does to the counters\<close>

definition inflight where
  "inflight s = sb_inflight (sy_server s)"

definition same_slot where
  "same_slot i s s' \<longleftrightarrow> (\<exists>t. sy_tasks s' = (sy_tasks s)(i \<mapsto> t) \<and> slot_of (tk_phase t) = slots_of s i) \<and> inflight s' = inflight s"

definition gauge_follows where
  "gauge_follows i s s' \<longleftrightarrow>
     (\<exists>t. sy_tasks s' = (sy_tasks s)(i \<mapsto> t) \<and>
        sy_gauge s' = sy_gauge s + of_bool (in_service (tk_phase t)) - of_bool (i \<in> active s))"

lemma same_slotI:
  "sy_tasks s' = (sy_tasks s)(i \<mapsto> t) \<Longrightarrow> slot_of (tk_phase t) = slots_of s i \<Longrightarrow> inflight s' = inflight s \<Longrightarrow> same_slot i s s'"
  by (auto simp: same_slot_def)

lemma counter_set_task [simp]:
  "sy_tasks s' = sy_tasks s \<Longrightarrow> same_slot i s (set_task i t s') \<longleftrightarrow>
     slot_of (tk_phase t) = slots_of s i \<and> inflight s' = inflight s"
  "same_slot i s (s''\<lparr>sy_gauge := k\<rparr>) = same_slot i s s''"
  "sy_tasks s' = sy_tasks s \<Longrightarrow> gauge_follows i s (set_task i t s') \<longleftrightarrow>
     sy_gauge s' = sy_gauge s + of_bool (in_service (tk_phase t)) - of_bool (i \<in> active s)"
  "sy_tasks s' = sy_tasks s \<Longrightarrow> gauge_follows i s ((set_task i t s')\<lparr>sy_gauge := k\<rparr>) \<longleftrightarrow>
     k = sy_gauge s + of_bool (in_service (tk_phase t)) - of_bool (i \<in> active s)"
  "inflight (s\<lparr>sy_gauge := k\<rparr>) = inflight s" "inflight (set_breaker g cb s) = inflight s"
  "inflight (set_limiter g lim s) = inflight s"
  by (auto simp: same_slot_def gauge_follows_def inflight_def dest: fun_upd_eqD)

lemma shed_actions:
  assumes "sy_tasks s i = Some t"
  shows "tk_phase t = Arrived \<Longrightarrow> max_inflight s \<noteq> 0 \<Longrightarrow>
      slots_of (enter i t s) = (slots_of s)(i := if max_inflight s \<le> inflight s then Refused else Permitted) \<and>
      inflight (enter i t s) = inflight s + 1"
    "slots_of (refuse X i t s) = (slots_of s)(i := Outside) \<and> inflight (refuse X i t s) = inflight s - 1"
    "max_inflight s \<noteq> 0 \<Longrightarrow>
      slots_of (release i t r s) = (slots_of s)(i := Outside) \<and> inflight (release i t r s) = inflight s - 1"
  using assms
  by (auto simp: enter_def refuse_def release_def slots_of_def inflight_def permit_drop_def Let_def)

lemma other_actions_slot:
  assumes "sy_tasks s i = Some t"
  shows "tk_phase t = Inside \<Longrightarrow> same_slot i s (authorise X i t s)"
    "tk_phase t = Authorised \<Longrightarrow> same_slot i s (guard_request X rendered i t s)"
    "tk_phase t = Guarded target \<Longrightarrow> same_slot i s (begin_proxy X fresh_id i t target s)"
    "tk_phase t = Turning target mh st hops req \<Longrightarrow> same_slot i s (start_hop X i t target mh st hops req s)"
    "tk_phase t = Waiting target mh st hops req hop \<Longrightarrow> same_slot i s (finish_hop X i t target mh st hops hop outcome s)"
    "tk_phase t = Waiting target mh st hops req hop \<Longrightarrow> same_slot i s (cancel_hop X timed_out i t hop s)"
    "tk_phase t = Answered target r \<Longrightarrow> same_slot i s (answer_client X i t target r s)"
    "tk_phase t = Unshed resp \<Longrightarrow> same_slot i s (stamp X i t resp s)"
  using assms
  by (simp_all add: authorise_def guard_request_def begin_proxy_def start_hop_def finish_hop_def cancel_hop_def
      answer_client_def stamp_def slots_of_def Let_def
      split: option.split sum.split prod.split turn.split awaited.split)

lemma actions_gauge:
  assumes "sy_tasks s i = Some t"
  shows "tk_phase t = Arrived \<Longrightarrow> gauge_follows i s (enter i t s)"
    "tk_phase t = Shedding \<Longrightarrow> gauge_follows i s (refuse X i t s)"
    "tk_phase t = Leaving resp \<Longrightarrow> gauge_follows i s (release i t resp s)"
    "tk_phase t = Inside \<Longrightarrow> gauge_follows i s (authorise X i t s)"
    "tk_phase t = Authorised \<Longrightarrow> gauge_follows i s (guard_request X rendered i t s)"
    "tk_phase t = Guarded target \<Longrightarrow> gauge_follows i s (begin_proxy X fresh_id i t target s)"
    "tk_phase t = Turning target mh st hops req \<Longrightarrow> gauge_follows i s (start_hop X i t target mh st hops req s)"
    "tk_phase t = Waiting target mh st hops req hop \<Longrightarrow> gauge_follows i s (finish_hop X i t target mh st hops hop outcome s)"
    "tk_phase t = Waiting target mh st hops req hop \<Longrightarrow> gauge_follows i s (cancel_hop X timed_out i t hop s)"
    "tk_phase t = Answered target r \<Longrightarrow> gauge_follows i s (answer_client X i t target r s)"
    "tk_phase t = Unshed resp \<Longrightarrow> gauge_follows i s (stamp X i t resp s)"
  using assms
  by (simp_all add: enter_def refuse_def release_def authorise_def guard_request_def begin_proxy_def start_hop_def
      finish_hop_def cancel_hop_def answer_client_def stamp_def active_iff hop_finish_ready Let_def
      split: option.split sum.split prod.split turn.split awaited.split)

subsection \<open>The counter machine\<close>

lemma step_slots:
  assumes "sys_step X n s s'" "max_inflight s \<noteq> 0"
    "shed_reach n (max_inflight s) (inflight s) (slots_of s)" "\<And>i. sy_tasks s i \<noteq> None \<Longrightarrow> i < n"
  shows "shed_reach n (max_inflight s) (inflight s') (slots_of s')"
proof -
  have frame: "shed_reach n (max_inflight s) (inflight s') (slots_of s')" if "same_slot i s s'" for i
  proof -
    from that obtain t where "sy_tasks s' = (sy_tasks s)(i \<mapsto> t)" "slot_of (tk_phase t) = slots_of s i"
      "inflight s' = inflight s" by (auto simp: same_slot_def)
    then have "slots_of s' = slots_of s" by (auto simp: slots_of_def fun_eq_iff)
    with assms(3) \<open>inflight s' = inflight s\<close> show ?thesis by simp
  qed
  from assms(1) show ?thesis
  proof cases
    case (step_reload S)
    then have "sy_tasks s' = sy_tasks s" "inflight s' = inflight s"
      by (simp_all add: reload_step_def inflight_def Let_def split: prod.split sum.split)
    with assms(3) show ?thesis by (simp add: tasks_cong(1) [of s' s])
  next
    case (step_enter i t)
    then show ?thesis
      using shed_actions(1) [OF step_enter(2)] assms(2,3) assms(4) [of i] shed_reach.fetch_add [OF assms(3), of i]
      by (simp add: slots_of_def)
  next
    case (step_refuse i t)
    then show ?thesis
      using shed_actions(2) [OF step_refuse(2), of X] shed_reach.refuse [OF assms(3), of i] by (simp add: slots_of_def)
  next
    case (step_release i t r)
    then show ?thesis
      using shed_actions(3) [OF step_release(2) assms(2)] shed_reach.drop_permit [OF assms(3), of i]
      by (simp add: slots_of_def)
  next
    case (step_accept i request peer)
    then show ?thesis
      by (intro frame [of i]) (simp add: accept_def new_task_def slots_of_def split: if_split)
  next
    case (step_tick now)
    then show ?thesis using assms(3) tasks_cong(1) [of s' s] by (simp add: inflight_def)
  next
    case step_signal
    then show ?thesis using assms(3) tasks_cong(1) [of s' s] by (simp add: inflight_def)
  qed (metis frame other_actions_slot)+
qed

lemma step_gauge:
  assumes "sys_step X n s s'"
  shows "sy_tasks s' = sy_tasks s \<and> sy_gauge s' = sy_gauge s \<or>
    (\<exists>i < n. sy_tasks s i = None \<and> gauge_follows i s s') \<or> (\<exists>i. sy_tasks s i \<noteq> None \<and> gauge_follows i s s')"
  using assms
proof cases
  case (step_reload S)
  then show ?thesis by (simp add: reload_step_def Let_def split: prod.split sum.split)
next
  case (step_accept i request peer)
  then have "gauge_follows i s s'"
    by (simp add: accept_def new_task_def active_iff split: if_split)
  with step_accept show ?thesis by blast
qed (simp, simp, (metis actions_gauge option.distinct(1))+)

theorem reach_tasks_indexed: "sys_reach X n s \<Longrightarrow> sy_tasks s i \<noteq> None \<Longrightarrow> i < n"
proof (induction arbitrary: i rule: sys_reach.induct)
  case (reach_next s s')
  from step_gauge [OF reach_next.hyps(2)] reach_next.IH [of i] reach_next.prems show ?case
    using reach_next.IH by (auto simp: gauge_follows_def split: if_splits)
qed simp

lemma active_finite: "sys_reach X n s \<Longrightarrow> finite (active s)"
  by (rule finite_subset [of _ "{..<n}"]) (auto simp: active_def dest: reach_tasks_indexed)

lemma gauge_follows_card:
  assumes "gauge_follows i s s'" "finite (active s)" "sy_gauge s = int (card (active s))"
  shows "sy_gauge s' = int (card (active s'))"
proof -
  from assms(1) obtain t where t: "sy_tasks s' = (sy_tasks s)(i \<mapsto> t)"
    "sy_gauge s' = sy_gauge s + of_bool (in_service (tk_phase t)) - of_bool (i \<in> active s)"
    by (auto simp: gauge_follows_def)
  have "active s' = (if in_service (tk_phase t) then insert i (active s) else active s - {i})"
    by (auto simp: active_def t(1) split: if_splits)
  moreover have "i \<in> active s \<Longrightarrow> 1 \<le> card (active s)"
    using assms(2) by (auto simp: card_gt_0_iff Suc_le_eq)
  ultimately show ?thesis
    using t(2) assms(2,3) by (auto simp: card_insert_if of_nat_diff)
qed

theorem reach_gauge: "sys_reach X n s \<Longrightarrow> sy_gauge s = int (card (active s))"
proof (induction rule: sys_reach.induct)
  case (reach_init S cfg b)
  then show ?case by (simp add: active_def)
next
  case (reach_next s s')
  note follows = gauge_follows_card [OF _ active_finite [OF reach_next.hyps(1)] reach_next.IH]
  from step_gauge [OF reach_next.hyps(2)] consider "sy_tasks s' = sy_tasks s" "sy_gauge s' = sy_gauge s"
    | i where "gauge_follows i s s'" by blast
  then show ?case by cases (use reach_next.IH follows in \<open>simp_all add: tasks_cong(2) [of s' s]\<close>)
qed

lemma step_max_inflight: "sys_step X n s s' \<Longrightarrow> host_map (si_hosts X) \<Longrightarrow> max_inflight s' = max_inflight s"
  by (erule (1) step_store) (simp_all add: max_inflight_def store_step_def reload_step_def Let_def
      split: prod.split sum.split)

lemma start_counters: "inflight (start_sys b) = sb_inflight b" "slots_of (start_sys b) = (\<lambda>_. Outside)"
  by (simp_all add: inflight_def slots_of_def fun_eq_iff)

theorem reach_shed:
  assumes "sys_reach X n s" "host_map (si_hosts X)" "max_inflight s \<noteq> 0"
  shows "shed_reach n (max_inflight s) (inflight s) (slots_of s)"
  using assms(1,3)
proof (induction rule: sys_reach.induct)
  case (reach_init S cfg b)
  then have "sb_inflight b = 0" by (auto simp: server_from_config_def bind_res_eq_Inr)
  then show ?case by (simp add: start_counters shed_reach.start)
next
  case (reach_next s s')
  have m: "max_inflight s' = max_inflight s" using step_max_inflight [OF reach_next.hyps(2) assms(2)] .
  with reach_next.prems have "max_inflight s \<noteq> 0" by simp
  with step_slots [OF reach_next.hyps(2) this reach_next.IH] reach_tasks_indexed [OF reach_next.hyps(1)] m
  show ?case by simp
qed

end
