(* ===== verification/Concurrent_Progress.thy ===== *)
theory Concurrent_Progress
  imports Concurrent_Policies
begin

text \<open>
  No request of \<open>Concurrent\<close> is ever stuck behind another one: whatever the others do, it can move
  until it is finished, and each move of its own brings it nearer to the end.
\<close>

text \<open>A bound on the moves a request has left; a hop counter of eight bits bounds its redirects.\<close>

fun moves_left :: "('h, 'u) phase \<Rightarrow> nat" where
  "moves_left Arrived = 520"
| "moves_left Shedding = 2"
| "moves_left Inside = 518"
| "moves_left Authorised = 517"
| "moves_left (Guarded target) = 516"
| "moves_left (Turning target mh st hops req) = 2 * (255 - unat hops) + 5"
| "moves_left (Waiting target mh st hops req hop) = 2 * (255 - unat hops) + 4"
| "moves_left (Answered target r) = 3"
| "moves_left (Leaving r) = 2"
| "moves_left (Unshed r) = 1"
| "moves_left (Finished r) = 0"

definition advances where
  "advances i t s s' \<longleftrightarrow> (\<exists>t'. sy_tasks s' = (sy_tasks s)(i \<mapsto> t') \<and> moves_left (tk_phase t') < moves_left (tk_phase t))"

lemma advances_set_task [simp]:
  "sy_tasks s' = sy_tasks s \<Longrightarrow> advances i t s (set_task i t' s') \<longleftrightarrow> moves_left (tk_phase t') < moves_left (tk_phase t)"
  "advances i t s (s''\<lparr>sy_gauge := k\<rparr>) = advances i t s s''"
  by (auto simp: advances_def dest: fun_upd_eqD)

lemma u8_le_255: "unat (hops :: u8) \<le> 255"
  using unsigned_less [of hops, where ?'a = nat] by simp

lemma hop_finish_counts:
  assumes "hop_finish H U D u mh now st hops hop outcome cb = (ms, ev, Next st' req', cb')"
  shows "2 * (255 - unat (sat_add hops 1)) + 5 < 2 * (255 - unat hops) + (4 :: nat)"
proof -
  have "hops < cl_max_redirects (ups_config u)"
    using assms by (auto simp: hop_finish_def dest: after_response_Next split: awaited.splits sum.splits prod.splits)
  with u8_le_255 [of "cl_max_redirects (ups_config u)"] show ?thesis
    by (simp add: unat_sat_add word_less_nat_alt)
qed

lemma actions_advance:
  "tk_phase t = Arrived \<Longrightarrow> advances i t s (enter i t s)"
  "tk_phase t = Shedding \<Longrightarrow> advances i t s (refuse X i t s)"
  "tk_phase t = Inside \<Longrightarrow> advances i t s (authorise X i t s)"
  "tk_phase t = Authorised \<Longrightarrow> advances i t s (guard_request X rendered i t s)"
  "tk_phase t = Guarded target \<Longrightarrow> advances i t s (begin_proxy X fresh_id i t target s)"
  "tk_phase t = Turning target mh st hops req \<Longrightarrow> advances i t s (start_hop X i t target mh st hops req s)"
  "tk_phase t = Waiting target mh st hops req hop \<Longrightarrow> advances i t s (finish_hop X i t target mh st hops hop outcome s)"
  "tk_phase t = Waiting target mh st hops req hop \<Longrightarrow> advances i t s (cancel_hop X timed_out i t hop s)"
  "tk_phase t = Answered target r \<Longrightarrow> advances i t s (answer_client X i t target r s)"
  "tk_phase t = Leaving resp \<Longrightarrow> advances i t s (release i t resp s)"
  "tk_phase t = Unshed resp \<Longrightarrow> advances i t s (stamp X i t resp s)"
proof -
  show "tk_phase t = Waiting target mh st hops req hop \<Longrightarrow> advances i t s (finish_hop X i t target mh st hops hop outcome s)"
    by (auto simp: finish_hop_def Let_def dest: hop_finish_counts split: prod.split turn.split awaited.split)
qed (simp_all add: enter_def refuse_def release_def authorise_def guard_request_def begin_proxy_def start_hop_def
      cancel_hop_def answer_client_def stamp_def Let_def
      split: option.split sum.split prod.split)

text \<open>A step moves no request, accepts one, or advances one.\<close>

lemma step_advances:
  assumes "sys_step X n s s'"
  shows "sy_tasks s' = sy_tasks s \<or> (\<exists>i t. sy_tasks s i = None \<and> sy_tasks s' = (sy_tasks s)(i \<mapsto> t)) \<or>
    (\<exists>i t. sy_tasks s i = Some t \<and> advances i t s s')"
  using assms
proof cases
  case (step_reload S)
  then show ?thesis by (simp add: reload_step_def Let_def split: prod.split sum.split)
next
  case (step_accept i request peer)
  then show ?thesis by (auto simp: accept_def)
qed (simp, simp, (metis actions_advance)+)

lemma step_enabled:
  assumes "sy_tasks s i = Some t" "\<nexists>r. tk_phase t = Finished r"
  shows "\<exists>s'. sys_step X n s s' \<and> advances i t s s'"
proof (cases "tk_phase t")
  case Arrived
  with sys_step.step_enter [OF assms(1)] actions_advance(1) show ?thesis by blast
next
  case Shedding
  with sys_step.step_refuse [OF assms(1)] actions_advance(2) show ?thesis by blast
next
  case Inside
  with sys_step.step_authorise [OF assms(1)] actions_advance(3) show ?thesis by blast
next
  case Authorised
  with sys_step.step_guard [OF assms(1)] actions_advance(4) show ?thesis by blast
next
  case Guarded
  with sys_step.step_begin [OF assms(1)] actions_advance(5) show ?thesis by blast
next
  case Turning
  with sys_step.step_start_hop [OF assms(1)] actions_advance(6) show ?thesis by blast
next
  case Waiting
  then show ?thesis using sys_step.step_cancel [OF assms(1)] actions_advance(8) [where timed_out = False] by metis
next
  case Answered
  with sys_step.step_answer [OF assms(1)] actions_advance(9) show ?thesis by blast
next
  case Leaving
  with sys_step.step_release [OF assms(1)] actions_advance(10) show ?thesis by blast
next
  case Unshed
  with sys_step.step_stamp [OF assms(1)] actions_advance(11) show ?thesis by blast
next
  case Finished
  with assms(2) show ?thesis by simp
qed

end
