(* ===== verification/Sequential_Run.thy ===== *)
theory Sequential_Run
  imports Concurrent_Policies
begin

text \<open>
  The router of \<open>Router\<close> as a run of \<open>Concurrent\<close>: in an environment that only lets time pass, what
  \<open>build_router\<close> computes for a request is what the steps of one task of the running server do, one
  after the other.
\<close>

subsection \<open>A quiet environment\<close>

text \<open>Nobody else touches the server, and the clock never runs backwards.\<close>

definition quiet_env where
  "quiet_env E \<longleftrightarrow>
     (\<forall>w b. se_others E w b = b) \<and>
     (\<forall>req w cb outcome w' cb'. ce_request (se_client E) req w cb = (outcome, w', cb') \<longrightarrow>
        cb' = cb \<and> ce_now (se_client E) w \<le> ce_now (se_client E) w')"

lemma quiet_others: "quiet_env E \<Longrightarrow> se_others E w b = b"
  by (simp add: quiet_env_def)

lemma quiet_request:
  "quiet_env E \<Longrightarrow> ce_request (se_client E) req w cb = (outcome, w', cb') \<Longrightarrow>
     cb' = cb \<and> ce_now (se_client E) w \<le> ce_now (se_client E) w'"
  unfolding quiet_env_def by blast

subsection \<open>The server as the current snapshot shows it\<close>

lemma server_at_sel [simp]:
  "sb_policies (server_at s g) = snapshot s g" "sb_inflight (server_at s g) = sb_inflight (sy_server s)"
  "sb_immutable_limits (server_at s g) = sb_immutable_limits (sy_server s)"
  "sb_immutable_metrics_endpoint (server_at s g) = sb_immutable_metrics_endpoint (sy_server s)"
  by (simp_all add: server_at_def)

lemma server_at_update [simp]:
  "server_at (set_task i t s) g = server_at s g"
  "server_at (s\<lparr>sy_gauge := k\<rparr>) g = server_at s g"
  "server_at (s\<lparr>sy_now := now\<rparr>) g = server_at s g"
  "server_at (s\<lparr>sy_server := (sy_server s)\<lparr>sb_inflight := m\<rparr>\<rparr>) g = (server_at s g)\<lparr>sb_inflight := m\<rparr>"
  "server_at (s\<lparr>sy_server := permit_drop (sy_server s)\<rparr>) g = permit_drop (server_at s g)"
  "server_at (set_breaker g cb s) g = with_circuit cb (server_at s g)"
  "server_at (set_limiter g lim s) g =
     with_guard ((lp_guard (snapshot s g))\<lparr>rg_rate_limit := lim\<rparr>) (server_at s g)"
  by (simp_all add: server_at_def snapshot_def with_circuit_def with_guard_def permit_drop_def set_task_def
      set_breaker_def set_limiter_def Let_def)

subsection \<open>Runs of one task\<close>

text \<open>The task \<open>i\<close> runs from one state to another while everything else but the clock stands still.\<close>

definition runs_to where
  "runs_to X n i s s' \<longleftrightarrow>
     (sys_step X n)\<^sup>*\<^sup>* s s' \<and> (\<forall>j. j \<noteq> i \<longrightarrow> sy_tasks s' j = sy_tasks s j) \<and>
     sy_current s' = sy_current s \<and> sy_gens s' = sy_gens s \<and>
     sb_immutable_limits (sy_server s') = sb_immutable_limits (sy_server s)"

lemma runs_to_refl [simp]: "runs_to X n i s s"
  by (simp add: runs_to_def)

lemma runs_to_trans: "runs_to X n i s s' \<Longrightarrow> runs_to X n i s' s'' \<Longrightarrow> runs_to X n i s s''"
  by (auto simp: runs_to_def)

lemma runs_to_step:
  "sys_step X n s s' \<Longrightarrow> (\<forall>j. j \<noteq> i \<longrightarrow> sy_tasks s' j = sy_tasks s j) \<Longrightarrow> sy_current s' = sy_current s \<Longrightarrow>
     sy_gens s' = sy_gens s \<Longrightarrow> sb_immutable_limits (sy_server s') = sb_immutable_limits (sy_server s) \<Longrightarrow>
     runs_to X n i s s'"
  by (simp add: runs_to_def)

lemma runs_to_tick: "sy_now s \<le> now \<Longrightarrow> runs_to X n i s (s\<lparr>sy_now := now\<rparr>)"
  by (simp add: runs_to_step sys_step.step_tick)

text \<open>A state in which the server is \<open>b\<close>, the time is the one of the world \<open>w\<close> and the task is \<open>t\<close>.\<close>

definition stands where
  "stands E i s b w t \<longleftrightarrow> server_now s = b \<and> sy_now s = ce_now (se_client E) w \<and> sy_tasks s i = Some t"

definition arrives where
  "arrives X n E i s b w t \<longleftrightarrow> (\<exists>s'. runs_to X n i s s' \<and> stands E i s' b w t)"

lemma arrives_here: "stands E i s b w t \<Longrightarrow> arrives X n E i s b w t"
  unfolding arrives_def using runs_to_refl by blast

lemma arrives_later: "runs_to X n i s s' \<Longrightarrow> arrives X n E i s' b w t \<Longrightarrow> arrives X n E i s b w t"
  unfolding arrives_def using runs_to_trans by blast

lemma arrives_step:
  assumes "sys_step X n s s'" "\<forall>j. j \<noteq> i \<longrightarrow> sy_tasks s' j = sy_tasks s j" "sy_current s' = sy_current s"
    "sy_gens s' = sy_gens s" "sb_immutable_limits (sy_server s') = sb_immutable_limits (sy_server s)"
    "arrives X n E i s' b w t"
  shows "arrives X n E i s b w t"
  using arrives_later [OF runs_to_step [OF assms(1-5)] assms(6)] .

lemma arrives_tick:
  "sy_now s \<le> now \<Longrightarrow> arrives X n E i (s\<lparr>sy_now := now\<rparr>) b w t \<Longrightarrow> arrives X n E i s b w t"
  using arrives_later [OF runs_to_tick] .

lemma with_circuit_twice [simp]: "with_circuit cb (with_circuit cb' b) = with_circuit cb b"
  by (simp add: with_circuit_def)

lemma with_circuit_sel [simp]:
  "lp_upstream (sb_policies (with_circuit cb b)) = lp_upstream (sb_policies b)"
  "lp_circuit (sb_policies (with_circuit cb b)) = cb"
  "with_circuit (lp_circuit (sb_policies b)) b = b"
  by (simp_all add: with_circuit_def)

lemma stands_sel:
  "stands E i s b w t \<Longrightarrow> lp_upstream (sy_gens s (sy_current s)) = lp_upstream (sb_policies b)"
  "stands E i s b w t \<Longrightarrow> sy_breakers s (sy_breaker_of s (sy_current s)) = lp_circuit (sb_policies b)"
  by (auto simp: stands_def)

subsection \<open>The upstream client\<close>

definition after_turn where
  "after_turn X timed_out target mh hops turn =
     (case turn of
        Return (Ready r) \<Rightarrow> Answered target r
      | Return Dropped \<Rightarrow> Leaving (if timed_out then Some (gateway_timeout (si_headers X)) else None)
      | Next st req \<Rightarrow> Turning target mh st (sat_add hops 1) req)"

lemma hop_turn_runs:
  assumes "quiet_env E" "stands E i s b w t" "tk_phase t = Turning target mh st hops req" "tk_gen t = sy_current s"
    "hop_turn (si_headers X) (si_urls X) (si_hosts X) (se_client E) (lp_upstream (sb_policies b)) mh st hops req w
       (lp_circuit (sb_policies b)) = (ms, ev, turn, w', cb')"
  shows "arrives X n E i s (with_circuit cb' b) w'
    (t\<lparr>tk_trace := tk_trace t @ ev, tk_phase := after_turn X timed_out target mh hops turn\<rparr>)"
proof -
  let ?u = "lp_upstream (sb_policies b)" and ?cur = "sy_current s"
  have now: "sy_now s = ce_now (se_client E) w" "sy_tasks s i = Some t" "server_now s = b" using assms(2) by (simp_all add: stands_def)
  note start = sys_step.step_start_hop [OF now(2) assms(3), of X n]
  obtain ms1 r cb1 where h: "hop_start (si_hosts X) ?u (ce_now (se_client E) w) req (lp_circuit (sb_policies b)) = (ms1, r, cb1)"
    by (metis prod_cases3)
  show ?thesis
  proof (cases r)
    case (Inl e)
    with h assms(5) have res: "ev = []" "turn = Return (Ready (Inl e))" "w' = w" "cb' = cb1"
      by (simp_all add: hop_turn_segment)
    have "start_hop X i t target mh st hops req s =
        set_task i (t\<lparr>tk_phase := Answered target (Inl e)\<rparr>) (set_breaker ?cur cb1 s)"
      using h Inl assms(4) stands_sel [OF assms(2)] now by (simp add: start_hop_def)
    then show ?thesis
      using now res by (intro arrives_step [OF start] arrives_here) (simp_all add: stands_def after_turn_def)
  next
    case (Inr hop)
    obtain outcome w1 cb2 where q: "ce_request (se_client E) req w cb1 = (outcome, w1, cb2)" by (metis prod_cases3)
    note quiet = quiet_request [OF assms(1) q]
    obtain ms2 ev2 cb3 where f: "hop_finish (si_headers X) (si_urls X) (si_hosts X) ?u mh (ce_now (se_client E) w1)
        st hops hop outcome cb1 = (ms2, ev2, turn, cb3)"
      and res: "ev = Admitted (hop_host hop) # Requested req # ev2" "w' = w1" "cb' = cb3"
      using h Inr q quiet assms(5) by (auto simp: hop_turn_segment split: prod.splits)
    let ?t1 = "t\<lparr>tk_phase := Waiting target mh st hops req hop, tk_trace := tk_trace t @ [Admitted (hop_host hop), Requested req]\<rparr>"
    let ?s1 = "set_task i ?t1 (set_breaker ?cur cb1 s)"
    let ?s2 = "?s1\<lparr>sy_now := ce_now (se_client E) w1\<rparr>"
    have first: "start_hop X i t target mh st hops req s = ?s1"
      using h Inr assms(4) stands_sel [OF assms(2)] now by (simp add: start_hop_def)
    have here: "sy_tasks ?s2 i = Some ?t1" "tk_phase ?t1 = Waiting target mh st hops req hop" by simp_all
    have "arrives X n E i ?s2 (with_circuit cb' b) w'
        (t\<lparr>tk_trace := tk_trace t @ ev, tk_phase := after_turn X timed_out target mh hops turn\<rparr>)"
    proof (cases outcome)
      case Dropped
      obtain ms4 where d: "hop_drop (si_hosts X) (ce_now (se_client E) w1) hop cb1 = (ms4, cb3)"
        and res2: "ev2 = [Failed (hop_host hop)]" "turn = Return Dropped"
        using f Dropped by (auto simp: hop_finish_def split: prod.splits)
      note step = sys_step.step_cancel [OF here, of X n timed_out]
      show ?thesis
        using now res res2 d assms(4)
        by (intro arrives_step [OF step] arrives_here)
           (simp_all add: cancel_hop_def stands_def after_turn_def)
    next
      case (Ready out)
      note step = sys_step.step_finish_hop [OF here, of X n out]
      have "turn \<noteq> Return Dropped" using f Ready hop_finish_ready by metis
      then have "(case turn of Return (Ready r) \<Rightarrow> Answered target r | Return Dropped \<Rightarrow> Leaving None
          | Next st req \<Rightarrow> Turning target mh st (sat_add hops 1) req) = after_turn X timed_out target mh hops turn"
        by (auto simp: after_turn_def split: turn.split awaited.split)
      then show ?thesis
        using now res f assms(4) Ready stands_sel [OF assms(2)]
        by (intro arrives_step [OF step] arrives_here) (simp_all add: finish_hop_def stands_def)
    qed
    then show ?thesis
      using now quiet first by (intro arrives_step [OF start]) (auto intro: arrives_tick)
  qed
qed

lemma execute_loop_runs:
  assumes "quiet_env E" "stands E i s b w t" "tk_phase t = Turning target mh st hops req" "tk_gen t = sy_current s"
    "execute_loop (si_headers X) (si_urls X) (si_hosts X) (se_client E) (lp_upstream (sb_policies b)) mh st hops req w
       (lp_circuit (sb_policies b)) = (ms, ev, r, w', cb')"
  shows "arrives X n E i s (with_circuit cb' b) w'
    (t\<lparr>tk_trace := tk_trace t @ ev, tk_phase := after_turn X timed_out target mh hops (Return r)\<rparr>)"
  using assms(2-5)
proof (induction "si_headers X" "si_urls X" "si_hosts X" "se_client E" "lp_upstream (sb_policies b)" mh st hops req w
    "lp_circuit (sb_policies b)" arbitrary: s t b ms ev r w' cb' rule: execute_loop.induct)
  case (1 mh st hops req w)
  obtain ms1 ev1 turn w1 cb1 where turn: "hop_turn (si_headers X) (si_urls X) (si_hosts X) (se_client E)
      (lp_upstream (sb_policies b)) mh st hops req w (lp_circuit (sb_policies b)) = (ms1, ev1, turn, w1, cb1)"
    by (metis prod_cases5)
  note run = hop_turn_runs [OF assms(1) "1.prems"(1-3) turn, of n timed_out]
  show ?case
  proof (cases turn)
    case (Return r')
    with "1.prems"(4) turn run show ?thesis by (simp add: execute_loop.simps [of "si_headers X"] after_turn_def)
  next
    case (Next st' req')
    obtain ms2 ev2 where
      rec: "execute_loop (si_headers X) (si_urls X) (si_hosts X) (se_client E) (lp_upstream (sb_policies b)) mh st'
        (sat_add hops 1) req' w1 cb1 = (ms2, ev2, r, w', cb')" and ev: "ev = ev1 @ ev2"
      using "1.prems"(4) turn Next by (auto simp: execute_loop.simps [of "si_headers X" _ _ _ _ mh st hops] split: prod.splits)
    let ?t = "t\<lparr>tk_trace := tk_trace t @ ev1, tk_phase := Turning target mh st' (sat_add hops 1) req'\<rparr>"
    obtain s' where s': "runs_to X n i s s'" "stands E i s' (with_circuit cb1 b) w1 ?t"
      using run Next by (auto simp: arrives_def after_turn_def)
    have "arrives X n E i s' (with_circuit cb' (with_circuit cb1 b)) w'
        (?t\<lparr>tk_trace := tk_trace ?t @ ev2, tk_phase := after_turn X timed_out target mh (sat_add hops 1) (Return r)\<rparr>)"
      using s' rec "1.prems"(3)
      by (intro "1.hyps" [OF turn [unfolded Next, symmetric] refl refl refl]) (simp_all add: runs_to_def)
    with s'(1) ev show ?thesis by (simp add: arrives_later after_turn_def)
  qed
qed

subsection \<open>The handler\<close>

text \<open>What a request leaves with, when its future was dropped by the timer or by its client.\<close>

definition left_with where
  "left_with X timed_out outcome =
     (case outcome of
        Ready r \<Rightarrow> Some r
      | Dropped \<Rightarrow> if timed_out then Some (gateway_timeout (si_headers X)) else None)"

lemma same_trace: "tk_trace t = ev \<Longrightarrow> t\<lparr>tk_trace := ev\<rparr> = t"
  by (cases t) simp

lemma answer_runs:
  assumes "stands E i s b w t" "tk_phase t = Answered target r" "tk_gen t = sy_current s"
  shows "arrives X n E i s b w (t\<lparr>tk_phase := Leaving (Some (reply_of (si_headers X)
    (finish_proxy (si_headers X) (si_urls X) b target (lm_redirect_policy (cf_limits (lp_config (sb_policies b)))) r)))\<rparr>)"
proof -
  have now: "sy_now s = ce_now (se_client E) w" "sy_tasks s i = Some t" "server_now s = b" using assms(1) by (simp_all add: stands_def)
  then have "lp_config (sy_gens s (sy_current s)) = lp_config (sb_policies b)" by auto
  then show ?thesis
    using now assms(3)
    by (intro arrives_step [OF sys_step.step_answer [OF now(2) assms(2)]] arrives_here)
       (simp_all add: answer_client_def stands_def)
qed

lemma execute_proxy_runs:
  assumes "quiet_env E" "stands E i s b w t" "tk_phase t = Guarded target" "tk_trace t = []"
    "execute_proxy (si_headers X) (si_urls X) (si_hosts X) E (tk_request t) target (tk_peer t) w b = (ms, ev, outcome, w', b')"
  shows "arrives X n E i s b' w' (t\<lparr>tk_gen := sy_current s, tk_trace := ev,
    tk_phase := Leaving (left_with X timed_out (awaited_map (reply_of (si_headers X)) outcome))\<rparr>)"
proof -
  let ?H = "si_headers X" and ?U = "si_urls X"
  have now: "sy_now s = ce_now (se_client E) w" "sy_tasks s i = Some t" "server_now s = b" using assms(2) by (simp_all add: stands_def)
  note start = sys_step.step_begin [OF now(2) assms(3), of X n "se_uuid E w"]
  show ?thesis
  proof (cases "outbound_request ?H ?U (se_uuid E w) b (tk_request t) target (tk_peer t)")
    case (Inl e)
    let ?t1 = "t\<lparr>tk_phase := Answered target (Inl e), tk_gen := sy_current s\<rparr>"
    have res: "ev = []" "outcome = Ready (Inl e)" "w' = w" "b' = b"
      using execute_proxy_segment [of ?H ?U "si_hosts X" E "tk_request t" target "tk_peer t" w b] Inl assms(5) by simp_all
    have first: "begin_proxy X (se_uuid E w) i t target s = set_task i ?t1 s"
      using Inl now by (simp add: begin_proxy_def)
    have "stands E i (set_task i ?t1 s) b w ?t1" using now by (simp add: stands_def)
    from answer_runs [OF this, of target "Inl e" X n] first res assms(4) show ?thesis
      by (intro arrives_step [OF start]) (simp_all add: finish_proxy_def awaited_map_def left_with_def same_trace)
  next
    case (Inr outbound)
    obtain st where st: "split_initial outbound = (st, outbound)" by (simp add: split_initial_def)
    let ?t1 = "t\<lparr>tk_phase := Turning target (host_of (rd_uri st)) st 0 outbound, tk_gen := sy_current s\<rparr>"
    obtain ms1 ev1 r w1 cb where run: "execute ?H ?U (si_hosts X) (se_client E) (lp_upstream (sb_policies b)) outbound w
        (lp_circuit (sb_policies b)) = (ms1, ev1, r, w1, cb)" by (metis prod_cases5)
    obtain ms2 where "execute_proxy ?H ?U (si_hosts X) E (tk_request t) target (tk_peer t) w b =
        (ms1 @ ms2, ev1, awaited_map (finish_proxy ?H ?U (with_circuit cb b) target
           (lm_redirect_policy (cf_limits (lp_config (sb_policies b))))) r, w1, with_circuit cb b)"
      using execute_proxy_segment [of ?H ?U "si_hosts X" E "tk_request t" target "tk_peer t" w b]
      by (auto simp: Inr run quiet_others [OF assms(1)] Let_def)
    with assms(5) have res: "ev = ev1" "w' = w1" "b' = with_circuit cb b"
      and outcome: "outcome = awaited_map (finish_proxy ?H ?U b' target
        (lm_redirect_policy (cf_limits (lp_config (sb_policies b))))) r"
      by auto
    have x: "execute_loop ?H ?U (si_hosts X) (se_client E) (lp_upstream (sb_policies b)) (host_of (rd_uri st)) st 0 outbound w
        (lp_circuit (sb_policies b)) = (ms1, ev, r, w', cb)"
      using run st res by (simp add: execute_def)
    have first: "begin_proxy X (se_uuid E w) i t target s = set_task i ?t1 s"
      using Inr now st by (simp add: begin_proxy_def)
    have "stands E i (set_task i ?t1 s) b w ?t1" using now by (simp add: stands_def)
    note loop = execute_loop_runs [OF assms(1) this _ _ x, of target n timed_out]
    let ?t2 = "?t1\<lparr>tk_trace := ev, tk_phase := after_turn X timed_out target (host_of (rd_uri st)) 0 (Return r)\<rparr>"
    obtain s' where s': "runs_to X n i (set_task i ?t1 s) s'" "stands E i s' b' w' ?t2"
      using loop assms(4) res(3) by (auto simp: arrives_def)
    then have cur: "sy_current s' = sy_current s" by (simp add: runs_to_def)
    have "arrives X n E i s' b' w' (t\<lparr>tk_gen := sy_current s, tk_trace := ev,
        tk_phase := Leaving (left_with X timed_out (awaited_map (reply_of ?H) outcome))\<rparr>)"
    proof (cases r)
      case (Ready a)
      have "lp_config (sb_policies b') = lp_config (sb_policies b)" by (simp add: res(3) with_circuit_def)
      with answer_runs [OF s'(2), of target a X n] Ready outcome cur show ?thesis
        by (simp add: after_turn_def awaited_map_def left_with_def)
    next
      case Dropped
      with s'(2) outcome show ?thesis
        by (simp add: arrives_here after_turn_def awaited_map_def left_with_def)
    qed
    with s'(1) first show ?thesis by (intro arrives_step [OF start]) (auto intro: arrives_later)
  qed
qed

lemma with_guard_twice [simp]: "with_guard (lp_guard (sb_policies b)) b = b"
  by (simp add: with_guard_def)

lemma with_guard_rate:
  assumes "check_rate H N L now request ip host (lp_guard (sb_policies b)) = (r, g)"
  shows "(lp_guard (sb_policies b))\<lparr>rg_rate_limit := rg_rate_limit (lp_guard (sb_policies (with_guard g b)))\<rparr> = g"
  using assms by (auto simp: check_rate_def with_guard_def Let_def split: prod.splits)

lemma preflight_guards_server:
  assumes "preflight_guards H U N L now request ip b = (r, b')"
  shows "with_guard ((lp_guard (sb_policies b))\<lparr>rg_rate_limit := rg_rate_limit (lp_guard (sb_policies b'))\<rparr>) b = b'"
  using assms by (auto simp: preflight_guards_def with_guard_rate Let_def split: if_splits sum.splits prod.splits)

lemma serve_guards_server:
  assumes "serve_guards H U N L now request ip b = (ms, a, b')"
  shows "with_guard ((lp_guard (sb_policies b))\<lparr>rg_rate_limit := rg_rate_limit (lp_guard (sb_policies b'))\<rparr>) b = b'"
  using assms
  by (auto simp: serve_guards_def with_guard_rate Let_def dest: preflight_guards_server split: if_splits sum.splits prod.splits)

lemma proxy_serve:
  assumes "proxy H U N D L E request ip w b = (ms, ev, outcome, w', b')"
  obtains ms' where "serve H U N D L E request ip w b = (ms', ev, outcome, w', b')"
  using assms by (auto simp: proxy_def Let_def split: prod.splits)

lemma respond_map: "respond H outcome = awaited_map (reply_of H) outcome"
  by (simp add: respond_def awaited_map_def reply_of_def split: awaited.split sum.split)

lemma route_runs:
  assumes "quiet_env E" "stands E i s b w t" "tk_phase t = Authorised" "tk_trace t = []"
    "route_service (si_headers X) (si_urls X) (si_nets X) (si_hosts X) (si_limiters X) E render (tk_peer t) (tk_request t) w b =
       (ms, ev, outcome, w', b')"
  shows "\<exists>t'. arrives X n E i s b' w' t' \<and> tk_phase t' = Leaving (left_with X timed_out outcome) \<and>
    tk_trace t' = ev \<and> tk_request t' = tk_request t"
proof -
  have now: "sy_now s = ce_now (se_client E) w" "sy_tasks s i = Some t" "server_now s = b" using assms(2) by (simp_all add: stands_def)
  note start = sys_step.step_guard [OF now(2) assms(3), of X n "render w"]
  show ?thesis
  proof (cases "ops_answer (si_headers X) (render w) b (tk_request t)")
    case (Some response)
    let ?t1 = "t\<lparr>tk_phase := Leaving (Some response)\<rparr>"
    have res: "ev = []" "outcome = Ready response" "w' = w" "b' = b"
      using assms(5) Some by (simp_all add: route_service_segment)
    have "guard_request X (render w) i t s = set_task i ?t1 s" using Some now by (simp add: guard_request_def)
    then have "arrives X n E i s b' w' ?t1"
      using now res by (intro arrives_step [OF start] arrives_here) (simp_all add: stands_def)
    with res assms(4) show ?thesis by (intro exI [of _ ?t1]) (simp add: left_with_def)
  next
    case None
    obtain ms1 out where p: "serve (si_headers X) (si_urls X) (si_nets X) (si_hosts X) (si_limiters X) E (tk_request t)
        (tk_peer t) w b = (ms1, ev, out, w', b')" and outcome: "outcome = awaited_map (reply_of (si_headers X)) out"
      using None assms(5) by (auto simp: route_service_segment respond_map split: prod.splits elim: proxy_serve)
    obtain ms2 a b1 where g: "serve_guards (si_headers X) (si_urls X) (si_nets X) (si_limiters X) (ce_now (se_client E) w)
        (tk_request t) (tk_peer t) b = (ms2, a, b1)" by (metis prod_cases3)
    let ?s1 = "set_limiter (sy_current s) (rg_rate_limit (lp_guard (sb_policies b1))) s"
    have b1: "server_now ?s1 = b1" using serve_guards_server [OF g] now by auto
    show ?thesis
    proof (cases a)
      case (Inl answer)
      let ?t1 = "t\<lparr>tk_phase := Leaving (Some (reply_of (si_headers X) answer))\<rparr>"
      have res: "ev = []" "out = Ready answer" "w' = w" "b' = b1" using p g Inl by (simp_all add: serve_segment)
      have "guard_request X (render w) i t s = set_task i ?t1 ?s1" using None g Inl now by (simp add: guard_request_def)
      then have "arrives X n E i s b' w' ?t1"
        using now res b1 by (intro arrives_step [OF start] arrives_here) (simp_all add: stands_def)
      with res assms(4) outcome show ?thesis by (intro exI [of _ ?t1]) (simp add: left_with_def awaited_map_def)
    next
      case (Inr target)
      let ?t1 = "t\<lparr>tk_phase := Guarded target, tk_guard := sy_current s\<rparr>"
      let ?s2 = "(set_task i ?t1 ?s1)\<lparr>sy_gauge := sy_gauge s + 1\<rparr>"
      obtain ms3 where x: "execute_proxy (si_headers X) (si_urls X) (si_hosts X) E (tk_request ?t1) target (tk_peer ?t1) w b1 =
          (ms3, ev, out, w', b')" using p g Inr by (auto simp: serve_segment split: prod.splits)
      have first: "guard_request X (render w) i t s = ?s2" using None g Inr now by (simp add: guard_request_def)
      have "stands E i ?s2 b1 w ?t1" using now b1 by (simp add: stands_def)
      from execute_proxy_runs [OF assms(1) this _ _ x, of n timed_out] assms(4)
      have "arrives X n E i ?s2 b' w' (?t1\<lparr>tk_gen := sy_current s, tk_trace := ev,
          tk_phase := Leaving (left_with X timed_out outcome)\<rparr>)" (is "arrives X n E i ?s2 b' w' ?t2")
        by (simp add: outcome)
      with first have "arrives X n E i s b' w' ?t2" by (intro arrives_step [OF start]) simp_all
      then show ?thesis by (intro exI [of _ ?t2]) simp
    qed
  qed
qed

subsection \<open>The layers\<close>

lemma auth_runs:
  assumes "quiet_env E" "stands E i s b w t" "tk_phase t = Inside" "tk_trace t = []"
    "auth_layer (si_headers X) (route_service (si_headers X) (si_urls X) (si_nets X) (si_hosts X) (si_limiters X) E render (tk_peer t))
       (tk_request t) w b = (ms, ev, outcome, w', b')"
  shows "\<exists>t'. arrives X n E i s b' w' t' \<and> tk_phase t' = Leaving (left_with X timed_out outcome) \<and>
    tk_trace t' = ev \<and> tk_request t' = tk_request t"
proof -
  have now: "sy_now s = ce_now (se_client E) w" "sy_tasks s i = Some t" "server_now s = b" using assms(2) by (simp_all add: stands_def)
  note start = sys_step.step_authorise [OF now(2) assms(3), of X n]
  have conf: "auth_refusal (si_headers X) (sb_immutable_metrics_endpoint b) (lp_config (sb_policies b)) (tk_request t) =
      auth_refusal (si_headers X) (sb_immutable_metrics_endpoint (sy_server s)) (lp_config (snapshot s (sy_current s))) (tk_request t)"
    using now(3) by auto
  show ?thesis
  proof (cases "auth_refusal (si_headers X) (sb_immutable_metrics_endpoint b) (lp_config (sb_policies b)) (tk_request t)")
    case (Some err)
    let ?t1 = "t\<lparr>tk_phase := Leaving (Some (into_response (si_headers X) err))\<rparr>"
    have "authorise X i t s = set_task i ?t1 s" using Some conf by (simp add: authorise_def)
    then have "arrives X n E i s b w ?t1"
      using now by (intro arrives_step [OF start] arrives_here) (simp_all add: stands_def)
    with Some assms(4,5) show ?thesis by (intro exI [of _ ?t1]) (auto simp: auth_layer_segment left_with_def)
  next
    case None
    let ?t1 = "t\<lparr>tk_phase := Authorised, tk_auth := sy_current s\<rparr>"
    have first: "authorise X i t s = set_task i ?t1 s" using None conf by (simp add: authorise_def)
    have at: "stands E i (set_task i ?t1 s) b w ?t1" using now by (simp add: stands_def)
    have "route_service (si_headers X) (si_urls X) (si_nets X) (si_hosts X) (si_limiters X) E render (tk_peer ?t1)
        (tk_request ?t1) w b = (ms, ev, outcome, w', b')"
      using None assms(5) by (simp add: auth_layer_segment)
    from route_runs [OF assms(1) at _ _ this, of n timed_out] assms(4) obtain t' where
      t': "arrives X n E i (set_task i ?t1 s) b' w' t'" "tk_phase t' = Leaving (left_with X timed_out outcome)"
        "tk_trace t' = ev" "tk_request t' = tk_request t" by auto
    then have "arrives X n E i s b' w' t'" using first by (intro arrives_step [OF start]) simp_all
    with t' show ?thesis by blast
  qed
qed

lemma same_inflight: "sb_inflight b = k \<Longrightarrow> b\<lparr>sb_inflight := k\<rparr> = b"
  by (cases b) simp

lemma release_runs:
  assumes "stands E i s b w t" "tk_phase t = Leaving r"
  shows "arrives X n E i s (if max_inflight s = 0 then b else permit_drop b) w (t\<lparr>tk_phase := Unshed r\<rparr>)"
proof -
  have now: "sy_now s = ce_now (se_client E) w" "sy_tasks s i = Some t" "server_now s = b" using assms(1) by (simp_all add: stands_def)
  then have "sb_inflight b = sb_inflight (sy_server s)" by auto
  then show ?thesis
    using now
    by (intro arrives_step [OF sys_step.step_release [OF now(2) assms(2)]] arrives_here)
       (simp_all add: release_def stands_def permit_drop_def split: if_split)
qed

lemma shed_runs:
  assumes "quiet_env E" "stands E i s b w t" "tk_phase t = Arrived" "tk_trace t = []"
    "load_shed_layer (si_headers X) (auth_layer (si_headers X)
       (route_service (si_headers X) (si_urls X) (si_nets X) (si_hosts X) (si_limiters X) E render (tk_peer t)))
       (tk_request t) w b = (ms, ev, outcome, w', b')"
  shows "\<exists>t'. arrives X n E i s b' w' t' \<and> tk_phase t' = Unshed (left_with X timed_out outcome) \<and>
    tk_trace t' = ev \<and> tk_request t' = tk_request t"
proof -
  let ?S = "auth_layer (si_headers X)
       (route_service (si_headers X) (si_urls X) (si_nets X) (si_hosts X) (si_limiters X) E render (tk_peer t))"
  let ?in = "t\<lparr>tk_phase := Inside\<rparr>"
  have now: "sy_now s = ce_now (se_client E) w" "sy_tasks s i = Some t" "server_now s = b" using assms(2) by (simp_all add: stands_def)
  then have b: "sb_immutable_limits b = sb_immutable_limits (sy_server s)" "sb_inflight b = sb_inflight (sy_server s)" by auto
  note start = sys_step.step_enter [OF now(2) assms(3), of X n]
  have inside: "\<exists>t'. arrives X n E i s (if max_inflight s = 0 then b2 else permit_drop b2) w2 t' \<and>
      tk_phase t' = Unshed (left_with X timed_out out2) \<and> tk_trace t' = ev2 \<and> tk_request t' = tk_request t"
    if first: "enter i t s = s1" "stands E i s1 b1 w ?in" "?S (tk_request t) w b1 = (ms2, ev2, out2, w2, b2)"
      "runs_to X n i s s1" for s1 b1 ms2 ev2 out2 w2 b2
  proof -
    from auth_runs [OF assms(1) first(2) _ _ _, of X render ms2 ev2 out2 w2 b2 n timed_out] first(3) assms(4)
    obtain t' where t': "arrives X n E i s1 b2 w2 t'" "tk_phase t' = Leaving (left_with X timed_out out2)"
      "tk_trace t' = ev2" "tk_request t' = tk_request t" by auto
    then obtain s' where s': "runs_to X n i s1 s'" "stands E i s' b2 w2 t'" by (auto simp: arrives_def)
    have "max_inflight s' = max_inflight s" using s'(1) first(4) by (simp add: runs_to_def max_inflight_def)
    with release_runs [OF s'(2) t'(2), of X n]
    have "arrives X n E i s (if max_inflight s = 0 then b2 else permit_drop b2) w2
        (t'\<lparr>tk_phase := Unshed (left_with X timed_out out2)\<rparr>)"
      using runs_to_trans [OF first(4) s'(1)] arrives_later by fastforce
    with t' show ?thesis by (intro exI [of _ "t'\<lparr>tk_phase := Unshed (left_with X timed_out out2)\<rparr>"]) simp
  qed
  have step: "runs_to X n i s (enter i t s)"
    using start by (rule runs_to_step) (simp_all add: enter_def Let_def)
  consider (off) "max_inflight s = 0" | (full) "max_inflight s \<noteq> 0" "max_inflight s \<le> sb_inflight b"
    | (room) "max_inflight s \<noteq> 0" "\<not> max_inflight s \<le> sb_inflight b" by blast
  then show ?thesis
  proof cases
    case off
    then have "?S (tk_request t) w b = (ms, ev, outcome, w', b')"
      using assms(5) by (simp add: load_shed_layer_def max_inflight_def b)
    with inside [of "enter i t s" b] step off now show ?thesis
      by (simp add: enter_def stands_def)
  next
    case room
    let ?b1 = "b\<lparr>sb_inflight := sb_inflight b + 1\<rparr>"
    obtain ms2 b2 where "?S (tk_request t) w ?b1 = (ms2, ev, outcome, w', b2)" "b' = permit_drop b2"
      using assms(5) room by (auto simp: load_shed_layer_def max_inflight_def b Let_def split: prod.splits)
    with inside [of "enter i t s" ?b1] step room now b show ?thesis
      by (simp add: enter_def stands_def Let_def)
  next
    case full
    let ?t1 = "t\<lparr>tk_phase := Shedding\<rparr>"
    let ?s1 = "set_task i ?t1 (s\<lparr>sy_server := (sy_server s)\<lparr>sb_inflight := sb_inflight b + 1\<rparr>\<rparr>)"
    let ?t2 = "?t1\<lparr>tk_phase := Unshed (Some (shed_response (si_headers X)))\<rparr>"
    have first: "enter i t s = ?s1" using full b by (simp add: enter_def Let_def)
    have res: "ev = []" "outcome = Ready (shed_response (si_headers X))" "w' = w" "b' = b"
      using assms(5) full same_inflight [OF b(2)] by (auto simp: load_shed_layer_def max_inflight_def b Let_def)
    have dropped: "server_at (refuse X i ?t1 ?s1) (sy_current s) = b"
      using now(3) by (auto simp: refuse_def server_at_def snapshot_def permit_drop_def set_task_def b(2))
    have "sys_step X n ?s1 (refuse X i ?t1 ?s1)" by (rule sys_step.step_refuse) simp_all
    then have "arrives X n E i ?s1 b w ?t2"
      using now dropped by (intro arrives_step [of X n ?s1 "refuse X i ?t1 ?s1"] arrives_here)
        (simp_all add: stands_def, simp_all add: refuse_def permit_drop_def)
    with step first have "arrives X n E i s b w ?t2" by (simp add: arrives_later)
    with res assms(4) show ?thesis by (intro exI [of _ ?t2]) (simp add: left_with_def)
  qed
qed

subsection \<open>The router\<close>

lemma stamp_runs:
  assumes "stands E i s b w t" "tk_phase t = Unshed r"
  shows "arrives X n E i s b w (t\<lparr>tk_phase := Finished (map_option (\<lambda>response.
    apply_to_response (si_headers X) response (rq_headers (tk_request t)) (lp_cors (sb_policies b))) r)\<rparr>)"
proof -
  have now: "sy_now s = ce_now (se_client E) w" "sy_tasks s i = Some t" "server_now s = b" using assms(1) by (simp_all add: stands_def)
  then have "lp_cors (sb_policies b) = lp_cors (snapshot s (sy_current s))" by auto
  with now show ?thesis
    by (intro arrives_step [OF sys_step.step_stamp [OF now(2) assms(2)]] arrives_here)
       (simp_all add: stamp_def stands_def)
qed

lemma limited_runs:
  assumes "quiet_env E" "i < n" "sy_tasks s i = None" "server_now s = b" "sy_now s = ce_now (se_client E) w"
    "header_limit_layer (si_headers X) (load_shed_layer (si_headers X) (auth_layer (si_headers X)
       (route_service (si_headers X) (si_urls X) (si_nets X) (si_hosts X) (si_limiters X) E render peer)))
       request w b = (ms, ev, outcome, w', b')"
  shows "\<exists>t'. arrives X n E i s b' w' t' \<and> tk_phase t' = Unshed (left_with X timed_out outcome) \<and>
    tk_trace t' = ev \<and> tk_request t' = request"
proof -
  have limits: "sb_immutable_limits b = sb_immutable_limits (sy_server s)" using assms(4) by auto
  note start = sys_step.step_accept [OF assms(2,3), of X request peer]
  show ?thesis
  proof (cases "(ucast (lm_max_request_header_bytes (sb_immutable_limits b)) :: u64)
      < header_map_bytes (si_headers X) (rq_headers request)")
    case True
    let ?t = "new_task request peer (Unshed (Some (text_response (si_headers X) 431 ''request header fields too large'')))"
    have "accept X i request peer s = set_task i ?t s" using True limits by (simp add: accept_def)
    then have "arrives X n E i s b w ?t"
      using assms(4,5) by (intro arrives_step [OF start] arrives_here) (simp_all add: stands_def)
    with True assms(6) show ?thesis
      by (intro exI [of _ ?t]) (auto simp: header_limit_layer_def new_task_def left_with_def)
  next
    case False
    obtain t where t: "tk_phase t = Arrived" "tk_trace t = []" "tk_request t = request" "tk_peer t = peer"
      and first: "accept X i request peer s = set_task i t s"
      by (rule that [of "new_task request peer Arrived"]) (use False limits in \<open>simp_all add: accept_def new_task_def\<close>)
    have at: "stands E i (set_task i t s) b w t" using assms(4,5) by (simp add: stands_def)
    have "load_shed_layer (si_headers X) (auth_layer (si_headers X)
       (route_service (si_headers X) (si_urls X) (si_nets X) (si_hosts X) (si_limiters X) E render (tk_peer t)))
       (tk_request t) w b = (ms, ev, outcome, w', b')"
      using False assms(6) t by (simp add: header_limit_layer_def)
    from shed_runs [OF assms(1) at t(1,2) this, of n timed_out] t(3) obtain t' where
      t': "arrives X n E i (set_task i t s) b' w' t'" "tk_phase t' = Unshed (left_with X timed_out outcome)"
        "tk_trace t' = ev" "tk_request t' = request" by auto
    then have "arrives X n E i s b' w' t'" using first by (intro arrives_step [OF start]) simp_all
    with t' show ?thesis by blast
  qed
qed

text \<open>
  The router is a run of the server: in a state where the server is \<open>b\<close>, if nobody else steps in,
  some run of one task ends with exactly what \<open>build_router\<close> answers on \<open>b\<close>, the same response or none,
  the same requests sent and settled, the same server afterwards, and every other task untouched; so
  what is proved of the router for one request holds of a run of the interleaved server.
\<close>

theorem router_run:
  assumes "quiet_env E" "i < n" "sy_tasks s i = None" "server_now s = b" "sy_now s = ce_now (se_client E) w"
    "build_router (si_headers X) (si_urls X) (si_nets X) (si_hosts X) (si_limiters X) E render timed_out peer request w b =
       (entry, ms, ev, outcome, w', b')"
  shows "\<exists>s' t. runs_to X n i s s' \<and> server_now s' = b' \<and> sy_now s' = ce_now (se_client E) w' \<and>
    sy_tasks s' i = Some t \<and> tk_request t = request \<and> tk_trace t = ev \<and>
    tk_phase t = Finished (case outcome of Ready response \<Rightarrow> Some response | Dropped \<Rightarrow> None)"
proof -
  obtain ms1 out where inner: "header_limit_layer (si_headers X) (load_shed_layer (si_headers X) (auth_layer (si_headers X)
       (route_service (si_headers X) (si_urls X) (si_nets X) (si_hosts X) (si_limiters X) E render peer)))
       request w b = (ms1, ev, out, w', b')"
    and out: "outcome = (case left_with X (timed_out w') out of None \<Rightarrow> Dropped
      | Some r \<Rightarrow> Ready (apply_to_response (si_headers X) r (rq_headers request) (lp_cors (sb_policies b'))))"
    using assms(6)
    by (auto simp: build_router_def access_log_layer_def cors_layer_def timeout_layer_def left_with_def gateway_timeout_def Let_def
        split: prod.splits awaited.splits if_splits)
  from limited_runs [OF assms(1-5) inner, of "timed_out w'"] obtain t s1 where
    t: "runs_to X n i s s1" "stands E i s1 b' w' t" "tk_phase t = Unshed (left_with X (timed_out w') out)"
      "tk_trace t = ev" "tk_request t = request" by (auto simp: arrives_def)
  from stamp_runs [OF t(2,3), of X n] obtain s2 where "runs_to X n i s1 s2"
    "stands E i s2 b' w' (t\<lparr>tk_phase := Finished (map_option (\<lambda>response. apply_to_response (si_headers X) response
       (rq_headers request) (lp_cors (sb_policies b'))) (left_with X (timed_out w') out))\<rparr>)"
    unfolding t(5) by (auto simp: arrives_def)
  moreover have "(case outcome of Ready response \<Rightarrow> Some response | Dropped \<Rightarrow> None) = map_option (\<lambda>response.
      apply_to_response (si_headers X) response (rq_headers request) (lp_cors (sb_policies b'))) (left_with X (timed_out w') out)"
    by (simp add: out split: option.split)
  ultimately show ?thesis
    using t(4,5) runs_to_trans [OF t(1)] by (auto simp: stands_def intro!: exI [of _ s2])
qed

lemma router_run_witness:
  "\<exists>s' t r. runs_to \<lparr>si_headers = list_headers, si_urls = plain_urls, si_nets = plain_nets, si_hosts = alist_dash,
       si_limiters = example_limiters, si_roots = Inr (), si_handle = hot_reload example_server, si_path = None\<rparr>
       1 0 (start_sys example_server) s' \<and>
     sy_tasks s' 0 = Some t \<and> tk_request t = example_probe \<and> tk_trace t = [] \<and> tk_phase t = Finished (Some r) \<and>
     rs_status r = 200"
proof -
  let ?X = "\<lparr>si_headers = list_headers, si_urls = plain_urls, si_nets = plain_nets, si_hosts = alist_dash,
       si_limiters = example_limiters, si_roots = Inr (), si_handle = hot_reload example_server, si_path = None\<rparr>"
  let ?s = "start_sys example_server :: (entries, _, _, _, _, _, _, _, _) sys"
  have start: "sy_tasks ?s 0 = None" "server_now ?s = example_server" "sy_now ?s = ce_now (se_client example_serve_env) [example_ok]"
    by (simp_all add: server_at_def snapshot_start example_serve_env_def example_env_def)
  have quiet: "quiet_env example_serve_env"
    by (auto simp: quiet_env_def example_serve_env_def example_env_def split: list.splits)
  obtain entry ms r where run: "build_router list_headers plain_urls plain_nets alist_dash example_limiters
      example_serve_env (\<lambda>_. []) (\<lambda>_. False) (V4 1) example_probe [example_ok] example_server =
      (entry, ms, [], Ready r, [example_ok], example_server) \<and> rs_status r = 200"
    by (simp add: build_router_def access_log_layer_def cors_layer_def timeout_layer_def
      header_limit_layer_def load_shed_layer_def auth_layer_def is_ops_path_def route_service_def
      ops_route_def example_probe_def example_inbound_def example_server_def
      default_limits_config_def default_inflight_max_def permit_drop_def header_map_bytes_def
      list_headers_sel ORIGIN_def sat_add_def livez_def text_response_def typed_response_def apply_to_response_def Let_def)
  from router_run [where X = ?X and s = ?s, OF quiet _ start] run show ?thesis by fastforce
qed

end
