(* ===== verification/Concurrent_Server.thy ===== *)
theory Concurrent_Server
  imports Concurrent_Requests Concurrent_Inflight Concurrent_Progress Sequential_Run Connect
begin

text \<open>
  What the invariants of the running server say of it: any number of requests, reloads and the
  shutdown signal, interleaved at every await and between any two loads of the snapshot.
\<close>

subsection \<open>A running server to evaluate on\<close>

definition plain_config :: config where
  "plain_config = default_config\<lparr>cf_rate_limit := default_rate_limit_config\<lparr>rl_enabled := False\<rparr>\<rparr>"

definition example_site where
  "example_site =
     \<lparr>si_headers = list_headers, si_urls = plain_urls, si_nets = plain_nets,
      si_hosts = (alist_dash :: ((string, host_circuit) alist_map) hosts_lib), si_limiters = example_limiters,
      si_roots = Inr (), si_handle = example_handle, si_path = None\<rparr>"

lemma plain_load: "load (example_sources plain_config) None = Inr plain_config"
proof -
  have "vr_errors (validate_full (\<lambda>_. False) plain_config) = []"
    by (simp add: validate_full_no_errors_iff cors_safe_def target_ok_def auth_ok_def
        rate_limit_ok_def server_ok_def dimension_ok_def plain_config_def default_config_eval str_simps)
  then show ?thesis by (simp add: load_def load_raw_def example_sources_def)
qed

text \<open>The snapshot of a server started from it, as far as a request looks at it.\<close>

definition plain_snapshot where
  "plain_snapshot p \<longleftrightarrow>
     lp_config p = plain_config \<and> rg_origin (lp_guard p) = origin_from_config list_headers default_security_config \<and>
     \<not> rt_enabled (rg_rate_limit (lp_guard p)) \<and> lp_target_policy p = target_from_config default_target_config \<and>
     ups_target_policy (lp_upstream p) = target_from_config default_target_config \<and>
     br_hosts (lp_circuit p) = dm_empty alist_dash \<and>
     cl_max_redirects (ups_config (lp_upstream p)) = lm_max_redirects default_limits_config"

lemma plain_start:
  obtains b where "server_from_config list_headers plain_nets
      (alist_dash :: ((string, host_circuit) alist_map) hosts_lib) example_limiters (Inr ()) plain_config = Inr b"
    "hot_reload b = example_handle" "plain_snapshot (sb_policies b)"
    "sb_immutable_limits b = default_limits_config" "sb_immutable_metrics_endpoint b = ''/metrics''" "sb_inflight b = 0"
proof -
  obtain p where p: "build_from list_headers plain_nets (alist_dash :: ((string, host_circuit) alist_map) hosts_lib)
      example_limiters (Inr ()) plain_config None = Inr p"
    by (auto simp: build_from_def Let_def plain_config_def default_config_def rate_from_config_def
      default_security_config_def default_filters context_err_def upstream_new_def)
  note q = build_from_InrD [OF p] build_from_as_configured [OF _ p]
  have "plain_snapshot p"
    using q by (auto simp: plain_snapshot_def as_configured_def client_config_of_def plain_config_def default_config_def
        rate_from_config_def circuit_from_config_def)
  with p that show thesis
    by (simp add: server_from_config_def build_policies_def hot_reload_def example_handle_def
        plain_config_def default_config_eval)
qed

text \<open>The first request of such a server, up to the await of its answer.\<close>

definition plain_at where
  "plain_at s ph \<longleftrightarrow>
     sys_reach example_site 1 s \<and> sy_current s = 0 \<and> plain_snapshot (snapshot s 0) \<and>
     sb_immutable_limits (sy_server s) = default_limits_config \<and>
     sb_immutable_metrics_endpoint (sy_server s) = ''/metrics'' \<and> (ph = Arrived \<longrightarrow> sb_inflight (sy_server s) = 0) \<and>
     (\<exists>t. sy_tasks s 0 = Some t \<and> tk_request t = example_inbound \<and> tk_phase t = ph \<and> tk_trace t = [] \<and> tk_gen t = 0)"

lemma snapshot_same [simp]:
  "snapshot (set_task i t s) g = snapshot s g" "snapshot (s\<lparr>sy_server := x\<rparr>) g = snapshot s g"
  "snapshot (s\<lparr>sy_gauge := k\<rparr>) g = snapshot s g"
  "snapshot (set_limiter g (sy_limiters s (sy_limiter_of s g)) s) g = snapshot s g"
  by (simp_all add: snapshot_def Let_def)

lemma example_site_sel [simp]:
  "si_headers example_site = list_headers" "si_urls example_site = plain_urls" "si_nets example_site = plain_nets"
  "si_hosts example_site = alist_dash" "si_limiters example_site = example_limiters" "si_roots example_site = Inr ()"
  "si_handle example_site = example_handle" "si_path example_site = None"
  by (simp_all add: example_site_def)

lemma plain_arrived: "\<exists>s. plain_at s Arrived"
proof -
  obtain b where b: "server_from_config list_headers plain_nets
      (alist_dash :: ((string, host_circuit) alist_map) hosts_lib) example_limiters (Inr ()) plain_config = Inr b"
    "hot_reload b = example_handle" "plain_snapshot (sb_policies b)"
    "sb_immutable_limits b = default_limits_config" "sb_immutable_metrics_endpoint b = ''/metrics''" "sb_inflight b = 0"
    using plain_start by metis
  have "sys_reach example_site 1 (start_sys b)"
    by (rule sys_reach.reach_init [of _ _ plain_config]) (use b plain_load in simp_all)
  moreover have "\<not> (ucast (lm_max_request_header_bytes default_limits_config) :: u64)
      < header_map_bytes list_headers (rq_headers example_inbound)"
    by (simp add: header_map_bytes_def default_limits_config_def example_inbound_def list_headers_sel ORIGIN_def sat_add_def)
  ultimately have "plain_at (accept example_site 0 example_inbound (V4 1) (start_sys b)) Arrived"
    using sys_reach.reach_next [OF _ sys_step.step_accept, of example_site 1 "start_sys b" 0 example_inbound "V4 1"] b
    by (simp add: plain_at_def accept_def snapshot_start new_task_def)
  then show ?thesis ..
qed

lemma plain_atE:
  assumes "plain_at s ph"
  obtains t where "sys_reach example_site 1 s" "sy_current s = 0" "plain_snapshot (snapshot s 0)"
    "sb_immutable_limits (sy_server s) = default_limits_config"
    "sb_immutable_metrics_endpoint (sy_server s) = ''/metrics''" "(ph = Arrived \<longrightarrow> sb_inflight (sy_server s) = 0)"
    "sy_tasks s 0 = Some t" "tk_request t = example_inbound" "tk_phase t = ph" "tk_trace t = []" "tk_gen t = 0"
  using assms by (auto simp: plain_at_def)

lemma plain_inside: "plain_at s Arrived \<Longrightarrow> \<exists>s'. plain_at s' Inside"
proof (erule plain_atE)
  fix t assume t: "sys_reach example_site 1 s" "sy_tasks s 0 = Some t" "tk_phase t = Arrived"
    "tk_request t = example_inbound" "tk_trace t = []" "tk_gen t = 0" "sy_current s = 0" "plain_snapshot (snapshot s 0)"
    "sb_immutable_limits (sy_server s) = default_limits_config" "sb_immutable_metrics_endpoint (sy_server s) = ''/metrics''"
    "Arrived = Arrived \<longrightarrow> sb_inflight (sy_server s) = 0"
  have "plain_at (enter 0 t s) Inside"
    using sys_reach.reach_next [OF t(1) sys_step.step_enter [OF t(2,3)]] t
    by (simp add: plain_at_def enter_def max_inflight_def default_limits_config_def default_inflight_max_def Let_def)
  then show ?thesis ..
qed

lemma plain_authorised: "plain_at s Inside \<Longrightarrow> \<exists>s'. plain_at s' Authorised"
proof (erule plain_atE)
  fix t assume t: "sys_reach example_site 1 s" "sy_tasks s 0 = Some t" "tk_phase t = Inside"
    "tk_request t = example_inbound" "tk_trace t = []" "tk_gen t = 0" "sy_current s = 0" "plain_snapshot (snapshot s 0)"
    "sb_immutable_limits (sy_server s) = default_limits_config" "sb_immutable_metrics_endpoint (sy_server s) = ''/metrics''"
  have "auth_refusal list_headers ''/metrics'' plain_config example_inbound = None"
    by (simp add: auth_refusal_def plain_config_def default_config_eval)
  then have "plain_at (authorise example_site 0 t s) Authorised"
    using sys_reach.reach_next [OF t(1) sys_step.step_authorise [OF t(2,3)]] t
    by (simp add: plain_at_def authorise_def plain_snapshot_def)
  then show ?thesis ..
qed

lemma plain_guarded: "plain_at s Authorised \<Longrightarrow> \<exists>s'. plain_at s' (Guarded example_target)"
proof (erule plain_atE)
  fix t assume t: "sys_reach example_site 1 s" "sy_tasks s 0 = Some t" "tk_phase t = Authorised"
    "tk_request t = example_inbound" "tk_trace t = []" "tk_gen t = 0" "sy_current s = 0" "plain_snapshot (snapshot s 0)"
    "sb_immutable_limits (sy_server s) = default_limits_config" "sb_immutable_metrics_endpoint (sy_server s) = ''/metrics''"
  let ?b = "server_at s 0"
  have guards: "check_origin list_headers (lp_guard (snapshot s 0)) example_inbound = Inr ()"
    "check_target plain_urls (lp_target_policy (sy_gens s 0)) example_target = Inr ()"
    using example_guards t(8) by (simp_all add: check_origin_def plain_snapshot_def example_server_def)
  have rate: "check_rate list_headers plain_nets example_limiters now example_inbound ip host (lp_guard (snapshot s 0)) =
      (([], Inr ()), lp_guard (snapshot s 0))" for now ip host
    using t(8) by (simp add: check_rate_def rate_check_def plain_snapshot_def Let_def)
  have "serve_guards list_headers plain_urls plain_nets example_limiters now example_inbound ip ?b = ([], Inr example_target, ?b)" for now ip
    using with_guard_twice [of ?b]
    by (simp add: serve_guards_def example_guards(1) guards example_extract rate Let_def)
  moreover have "ops_answer list_headers [] ?b example_inbound = None"
    using t(10) by (simp add: ops_answer_def ops_route_def example_inbound_def)
  ultimately have "plain_at (guard_request example_site [] 0 t s) (Guarded example_target)"
    using sys_reach.reach_next [OF t(1) sys_step.step_guard [OF t(2,3)], of "[]"] t
    by (simp add: plain_at_def guard_request_def Let_def)
  then show ?thesis ..
qed

lemma plain_turning:
  "plain_at s (Guarded example_target) \<Longrightarrow>
     \<exists>s' mh st req. plain_at s' (Turning example_target mh st 0 req) \<and> rq_uri req = example_target_uri"
proof (erule plain_atE)
  fix t assume t: "sys_reach example_site 1 s" "sy_tasks s 0 = Some t" "tk_phase t = Guarded example_target"
    "tk_request t = example_inbound" "tk_trace t = []" "tk_gen t = 0" "sy_current s = 0" "plain_snapshot (snapshot s 0)"
    "sb_immutable_limits (sy_server s) = default_limits_config" "sb_immutable_metrics_endpoint (sy_server s) = ''/metrics''"
  obtain req where req: "outbound_request list_headers plain_urls ''id'' (server_at s 0) example_inbound example_target
      (tk_peer t) = Inr req" "rq_uri req = example_target_uri"
    by (simp add: outbound_request_def example_to_uri)
  obtain st where st: "split_initial req = (st, req)" by (simp add: split_initial_def)
  have "plain_at (begin_proxy example_site ''id'' 0 t example_target s) (Turning example_target (host_of (rd_uri st)) st 0 req)"
    using sys_reach.reach_next [OF t(1) sys_step.step_begin [OF t(2,3)], of "''id''"] t req st
    by (simp add: plain_at_def begin_proxy_def)
  with req(2) show ?thesis by blast
qed

lemma plain_waiting:
  assumes "plain_at s (Turning example_target mh st 0 req)" "rq_uri req = example_target_uri"
  shows "\<exists>s' t hop. sys_reach example_site 1 s' \<and> sy_tasks s' 0 = Some t \<and> sent (tk_trace t) = [req] \<and>
    tk_phase t = Waiting example_target mh st 0 req hop \<and> tk_request t = example_inbound"
  using assms(1)
proof (rule plain_atE)
  fix t assume t: "sys_reach example_site 1 s" "sy_tasks s 0 = Some t" "tk_phase t = Turning example_target mh st 0 req"
    "tk_request t = example_inbound" "tk_trace t = []" "tk_gen t = 0" "sy_current s = 0" "plain_snapshot (snapshot s 0)"
  have "check_uri (target_from_config default_target_config) example_target_uri = Inr ()"
    by (simp add: check_uri_def check_authority_def target_from_config_def default_target_config_def
      default_schemes_def str_simps example_target_uri_def example_uri_def)
  moreover have "\<exists>cb. check_circuit alist_dash (sy_now s) (host_of example_target_uri) (lp_circuit (snapshot s 0)) = ([], Inr (), cb)"
    using t(8) by (simp add: check_circuit_def plain_snapshot_def entry_or_new_def alist_dash_eval
        transition_on_check_def host_circuit_new_def)
  then obtain ms hop cb where "hop_admit alist_dash (sy_now s) (host_of example_target_uri) (lp_circuit (snapshot s 0)) =
      (ms, Inr hop, cb)"
    by (auto simp: hop_admit_def)
  ultimately have "hop_start alist_dash (lp_upstream (snapshot s 0)) (sy_now s) req (lp_circuit (snapshot s 0)) = (ms, Inr hop, cb)"
    using t(8) assms(2) by (simp add: hop_start_def plain_snapshot_def)
  with sys_reach.reach_next [OF t(1) sys_step.step_start_hop [OF t(2,3)]] t show ?thesis
    by (intro exI [of _ "start_hop example_site 0 t example_target mh st 0 req s"]) (simp add: start_hop_def)
qed

lemma plain_run:
  obtains s t req mh st hop where "sys_reach example_site 1 s" "sy_tasks s 0 = Some t" "sent (tk_trace t) = [req]"
    "tk_phase t = Waiting example_target mh st 0 req hop" "tk_request t = example_inbound"
  using plain_arrived plain_inside plain_authorised plain_guarded plain_turning plain_waiting by metis

subsection \<open>Properties\<close>

text \<open>
  C6. However requests, reloads and the passing of time are interleaved, every snapshot a request may
  still hold, the one in force and each one it has replaced, is compiled from its own configuration,
  that configuration was loaded and validated and agrees with the running listener on every frozen
  field, and its breaker, shared with other snapshots and other requests or not, keeps the invariants
  of the breaker.
\<close>

theorem running_snapshots_sound:
  assumes "sys_reach X n s" "host_map (si_hosts X)" "g \<le> sy_current s"
  shows "let p = snapshot s g; cfg = lp_config p
    in as_configured (si_headers X) (si_nets X) (si_hosts X) (si_limiters X) p \<and>
       (\<exists>S. load S (si_path X) = Inr cfg) \<and>
       frozen_fields cfg = handle_fields (hot_reload (sy_server s)) \<and>
       (\<forall>h c. dm_get (si_hosts X) (br_hosts (lp_circuit p)) h = Some c \<longrightarrow>
          host_inv (circuit_from_config (si_hosts X) (cf_circuit_breaker cfg)) (sy_now s) c)"
proof -
  let ?p = "snapshot s g"
  let ?cb = "circuit_from_config (si_hosts X) (cf_circuit_breaker (lp_config ?p))"
  have sound: "policies_sound X (sy_now s) ?p" "hot_reload (sy_server s) = si_handle X"
    using reach_store_sound [OF assms(1,2)] assms(3) by (auto simp: store_sound_def gen_sound_def)
  then obtain t where "t \<le> sy_now s" "cb_reach ?cb t (dm_get (si_hosts X) (br_hosts (lp_circuit ?p)))"
    by (auto simp: policies_sound_def)
  then have "host_inv ?cb (sy_now s) c" if "dm_get (si_hosts X) (br_hosts (lp_circuit ?p)) h = Some c" for h c
    using reach_inv [where M = "dm_get (si_hosts X) (br_hosts (lp_circuit ?p))", OF _ from_config_params that]
      host_inv_later by blast
  with sound show ?thesis unfolding policies_sound_def Let_def by auto
qed

lemma running_snapshots_sound_witness:
  "\<exists>s t. sys_reach example_site 1 s \<and> sy_tasks s 0 = Some t \<and> sent (tk_trace t) \<noteq> [] \<and>
     as_configured list_headers plain_nets alist_dash example_limiters (snapshot s 0)"
proof -
  obtain s t req mh st hop where s: "sys_reach example_site 1 s" "sy_tasks s 0 = Some t" "sent (tk_trace t) = [req]"
    "tk_phase t = Waiting example_target mh st 0 req hop" "tk_request t = example_inbound" by (rule plain_run)
  from running_snapshots_sound [OF s(1), of 0] alist_hosts.host_map_axioms
  have "as_configured list_headers plain_nets alist_dash example_limiters (snapshot s 0)" by (simp add: Let_def)
  with s show ?thesis by auto
qed

text \<open>
  C5. Nothing is sent upstream unguarded, with any number of requests in flight and reloads between
  any two of their steps: a request that has sent anything carried a valid token under the snapshot
  it was authorised with, is no preflight, and passed the origin guard and the target policy of the
  snapshot it was guarded with, which is that one or a later one; its first upstream request is the
  one its client asked for, its later ones follow the redirect rules and the hop policy of the one
  snapshot it is proxied with, however often a reload replaced that one in between; it sends at most
  \<open>max_redirects + 1\<close>, and every hop but the one it waits for has been settled with the breaker once.
\<close>

theorem running_requests_guarded:
  assumes "sys_reach X n s" "host_map (si_hosts X)" "header_map (si_headers X)"
    "sy_tasks s i = Some t" "sent (tk_trace t) \<noteq> []"
  shows "tk_auth t \<le> tk_guard t \<and> tk_guard t \<le> tk_gen t \<and> tk_gen t \<le> sy_current s \<and>
    auth_refusal (si_headers X) (sb_immutable_metrics_endpoint (sy_server s))
      (lp_config (sy_gens s (tk_auth t))) (tk_request t) = None \<and>
    \<not> is_preflight (si_headers X) (tk_request t) \<and>
    check_origin (si_headers X) (lp_guard (sy_gens s (tk_guard t))) (tk_request t) = Inr () \<and>
    (\<exists>target. extract_target (si_urls X) (rq_uri (tk_request t)) = Inr target \<and>
       check_target (si_urls X) (lp_target_policy (sy_gens s (tk_guard t))) target = Inr () \<and>
       (\<exists>fresh_id. outbound_request (si_headers X) (si_urls X) fresh_id
          ((sy_server s)\<lparr>sb_policies := sy_gens s (tk_gen t)\<rparr>) (tk_request t) target (tk_peer t) =
          Inr (hd (sent (tk_trace t))))) \<and>
    (let u = lp_upstream (sy_gens s (tk_gen t)); qs = sent (tk_trace t)
     in (\<forall>q \<in> set qs. check_uri (ups_target_policy u) (rq_uri q) = Inr ()) \<and>
        successively (follows (si_headers X) (allows_downgrade u)) qs \<and>
        length qs \<le> unat (cl_max_redirects (ups_config u)) + 1) \<and>
    (well_settled (tk_trace t) \<or>
       (\<exists>target mh st hops req hop ev. tk_phase t = Waiting target mh st hops req hop \<and> well_settled ev \<and>
          tk_trace t = ev @ [Admitted (host_of (rq_uri req)), Requested req]))"
proof -
  have ok: "task_ok X s t" by (rule reach_tasks_ok [OF assms(1-4)])
  note unfolded = task_ok_def done_proxying_def turning_def proxies_def passed_guards_def passed_auth_def chained_def
    first_request_def gen_upstream_def max_hops_def hop_allowed_def list_all_iff
  from ok assms(5) consider (served) target where "done_proxying X s t target"
    | (turning) target st hops req where "turning X s t target st hops req (tk_trace t)"
    | (waiting) target mh st hops req hop ev where "tk_phase t = Waiting target mh st hops req hop"
        "tk_trace t = ev @ [Admitted (host_of (rq_uri req)), Requested req]" "turning X s t target st hops req ev"
        "hop_allowed s t req"
    by (auto simp: task_ok_def split: phase.splits)
  then show ?thesis
  proof cases
    case served
    with assms(5) show ?thesis by (auto simp: unfolded Let_def)
  next
    case turning
    with assms(5) show ?thesis
      by (auto simp: unfolded Let_def successively_append_iff hd_append word_le_nat_alt)
  next
    case waiting
    then show ?thesis
      by (auto simp: unfolded Let_def sent_append word_le_nat_alt)
  qed
qed

lemma running_requests_guarded_witness:
  "\<exists>s t. sys_reach example_site 1 s \<and> sy_tasks s 0 = Some t \<and> length (sent (tk_trace t)) = 1 \<and>
     check_origin list_headers (lp_guard (sy_gens s (tk_guard t))) (tk_request t) = Inr ()"
proof -
  obtain s t req mh st hop where s: "sys_reach example_site 1 s" "sy_tasks s 0 = Some t" "sent (tk_trace t) = [req]"
    "tk_phase t = Waiting example_target mh st 0 req hop" "tk_request t = example_inbound" by (rule plain_run)
  from running_requests_guarded [OF s(1) _ _ s(2)] s(3) alist_hosts.host_map_axioms list_hdrs.header_map_axioms
  have "check_origin list_headers (lp_guard (sy_gens s (tk_guard t))) (tk_request t) = Inr ()" by simp
  with s show ?thesis by auto
qed

text \<open>
  C24. The counters are exact under every interleaving, of requests that are served, refused, timed out or
  given up: the in-flight counter is a run of the counter machine, so it is the number of requests
  counted and at most \<open>inflight_max\<close> of them are past the cap; the gauge is the number of requests in
  service, which are all past the cap.
\<close>

theorem running_counters_exact:
  assumes "sys_reach X n s" "host_map (si_hosts X)" "n < 2 ^ 64"
  shows "sy_gauge s = int (card (active s)) \<and>
    (max_inflight s \<noteq> 0 \<longrightarrow>
       shed_reach n (max_inflight s) (sb_inflight (sy_server s)) (slots_of s) \<and>
       unat (sb_inflight (sy_server s)) = card (counted (slots_of s)) \<and>
       card (permitted (slots_of s)) \<le> unat (max_inflight s) \<and>
       sy_gauge s \<le> int (unat (max_inflight s)))"
proof (intro conjI impI)
  show gauge: "sy_gauge s = int (card (active s))" by (rule reach_gauge [OF assms(1)])
  assume cap: "max_inflight s \<noteq> 0"
  have shed: "shed_reach n (max_inflight s) (sb_inflight (sy_server s)) (slots_of s)"
    using reach_shed [OF assms(1,2) cap] by (simp add: inflight_def)
  note inv = shed_reach_invariant [OF shed assms(3)]
  show "unat (sb_inflight (sy_server s)) = card (counted (slots_of s))" by (rule counter_exact [OF inv assms(3)])
  show permits: "card (permitted (slots_of s)) \<le> unat (max_inflight s)" using inv by (simp add: shed_invariant_def)
  have "card (active s) \<le> card (permitted (slots_of s))"
    by (intro card_mono active_permitted finite_subset [OF permitted_counted counted_finite [OF inv]])
  with permits gauge show "sy_gauge s \<le> int (unat (max_inflight s))" by linarith
qed (use reach_shed [OF assms(1,2)] in \<open>simp add: inflight_def\<close>)

lemma running_counters_exact_witness:
  "\<exists>s t. sys_reach example_site 1 s \<and> sy_tasks s 0 = Some t \<and> sent (tk_trace t) \<noteq> [] \<and> sy_gauge s = 1"
proof -
  obtain s t req mh st hop where s: "sys_reach example_site 1 s" "sy_tasks s 0 = Some t" "sent (tk_trace t) = [req]"
    "tk_phase t = Waiting example_target mh st 0 req hop" "tk_request t = example_inbound" by (rule plain_run)
  have "active s = {0}"
    using reach_tasks_indexed [OF s(1)] s(2,4) by (fastforce simp: active_def)
  with running_counters_exact [OF s(1)] alist_hosts.host_map_axioms have "sy_gauge s = 1" by simp
  with s show ?thesis by auto
qed

text \<open>
  In the model no request waits for another one: a request that is not finished can move in every state, each
  move of its own takes it nearer to the end, no step of another request, of the clock or of a reload
  sets it back, and it has at most 520 moves to make.
\<close>

theorem running_requests_progress:
  assumes "sy_tasks s i = Some t"
  shows "moves_left (tk_phase t) \<le> 520 \<and>
    ((\<nexists>r. tk_phase t = Finished r) \<longrightarrow>
       (\<exists>s' t'. sys_step X n s s' \<and> sy_tasks s' i = Some t' \<and> moves_left (tk_phase t') < moves_left (tk_phase t))) \<and>
    (\<forall>s'. sys_step X n s s' \<longrightarrow>
       sy_tasks s' i = Some t \<or>
       (\<exists>t'. sy_tasks s' i = Some t' \<and> moves_left (tk_phase t') < moves_left (tk_phase t)))"
proof (intro conjI impI allI)
  show "moves_left (tk_phase t) \<le> 520" by (cases "tk_phase t") simp_all
  show "\<exists>s' t'. sys_step X n s s' \<and> sy_tasks s' i = Some t' \<and> moves_left (tk_phase t') < moves_left (tk_phase t)"
    if "\<nexists>r. tk_phase t = Finished r"
    using step_enabled [OF assms that, of X n] by (fastforce simp: advances_def)
  show "sy_tasks s' i = Some t \<or>
      (\<exists>t'. sy_tasks s' i = Some t' \<and> moves_left (tk_phase t') < moves_left (tk_phase t))"
    if "sys_step X n s s'" for s'
    using step_advances [OF that] assms by (auto simp: advances_def)
qed

lemma running_requests_progress_witness:
  "\<exists>s t s' t'. sys_reach example_site 1 s \<and> sy_tasks s 0 = Some t \<and> sent (tk_trace t) \<noteq> [] \<and>
     sys_step example_site 1 s s' \<and> sy_tasks s' 0 = Some t' \<and> moves_left (tk_phase t') < moves_left (tk_phase t)"
proof -
  obtain s t req mh st hop where s: "sys_reach example_site 1 s" "sy_tasks s 0 = Some t" "sent (tk_trace t) = [req]"
    "tk_phase t = Waiting example_target mh st 0 req hop" "tk_request t = example_inbound" by (rule plain_run)
  from running_requests_progress [OF s(2), of example_site 1] s(4) obtain s' t' where
    "sys_step example_site 1 s s'" "sy_tasks s' 0 = Some t'" "moves_left (tk_phase t') < moves_left (tk_phase t)"
    by auto
  with s show ?thesis by (intro exI [of _ s] exI [of _ t] exI [of _ s'] exI [of _ t']) simp
qed

subsection \<open>A reload in the middle of a request\<close>

text \<open>
  A request is not served under one snapshot: a reload that switches bearer authentication on after a
  request was guarded, and before it is proxied, leaves it to be sent under a snapshot that would have
  refused it.
\<close>

definition bearer_config :: config where
  "bearer_config = plain_config
     \<lparr>cf_security := default_security_config\<lparr>sc_auth := \<lparr>au_mode = Bearer, au_bearer_tokens = [''s3cret'']\<rparr>\<rparr>\<rparr>"

lemma bearer_load: "load (example_sources bearer_config) None = Inr bearer_config"
proof -
  have "vr_errors (validate_full (\<lambda>_. False) bearer_config) = []"
    by (simp add: validate_full_no_errors_iff cors_safe_def target_ok_def auth_ok_def
        rate_limit_ok_def server_ok_def dimension_ok_def bearer_config_def plain_config_def default_config_eval str_simps)
  then show ?thesis by (simp add: load_def load_raw_def example_sources_def)
qed

lemma bearer_reload:
  assumes "plain_snapshot p"
  obtains q where "reload list_headers plain_nets (alist_dash :: ((string, host_circuit) alist_map) hosts_lib)
    example_limiters (Inr ()) (example_sources bearer_config) example_handle None p = (Inr (), q)" "lp_config q = bearer_config"
proof -
  have "assert_immutable example_handle bearer_config = Inr ()"
    by (simp add: assert_immutable_def example_handle_def bearer_config_def plain_config_def default_config_eval tls_eq_def)
  moreover obtain q where q: "build_from list_headers plain_nets (alist_dash :: ((string, host_circuit) alist_map) hosts_lib)
      example_limiters (Inr ()) bearer_config (Some p) = Inr q"
    using assms by (auto simp: plain_snapshot_def build_from_def Let_def bearer_config_def plain_config_def default_config_def
      default_security_config_def default_filters context_err_def upstream_config_eq_def)
  ultimately show thesis
    using that [of q] build_from_InrD(1) [OF q] by (simp add: reload_def bearer_load)
qed

lemma request_mixes_snapshots:
  "\<exists>s t target mh st req. sys_reach example_site 1 s \<and> sy_tasks s 0 = Some t \<and> tk_phase t = Turning target mh st 0 req \<and>
     auth_refusal list_headers (sb_immutable_metrics_endpoint (sy_server s)) (lp_config (sy_gens s (tk_gen t))) (tk_request t) \<noteq> None"
proof -
  obtain s where "plain_at s (Guarded example_target)" using plain_arrived plain_inside plain_authorised plain_guarded by metis
  then show ?thesis
  proof (rule plain_atE)
    fix t assume t: "sys_reach example_site 1 s" "sy_tasks s 0 = Some t" "tk_phase t = Guarded example_target"
      "tk_request t = example_inbound" "sy_current s = 0" "plain_snapshot (snapshot s 0)"
      "sb_immutable_metrics_endpoint (sy_server s) = ''/metrics''"
    obtain q where q: "reload list_headers plain_nets alist_dash example_limiters (Inr ()) (example_sources bearer_config)
        example_handle None (snapshot s 0) = (Inr (), q)" "lp_config q = bearer_config"
      using bearer_reload [OF t(6)] .
    let ?s = "reload_step example_site (example_sources bearer_config) s"
    have s: "sys_reach example_site 1 ?s" using sys_reach.reach_next [OF t(1) sys_step.step_reload] .
    have now: "sy_tasks ?s 0 = Some t" "sy_current ?s = 1" "sy_gens ?s 1 = q" "sy_server ?s = sy_server s"
      using q t by (simp_all add: reload_step_def Let_def)
    obtain req where req: "outbound_request list_headers plain_urls ''id'' (server_at ?s 1) example_inbound example_target
        (tk_peer t) = Inr req" by (simp add: outbound_request_def example_to_uri)
    obtain st where st: "split_initial req = (st, req)" by (simp add: split_initial_def)
    have "auth_refusal list_headers ''/metrics'' bearer_config example_inbound \<noteq> None"
      by (simp add: auth_refusal_def bearer_config_def example_inbound_def is_ops_path_def check_bearer_def
          list_headers_sel ORIGIN_def AUTHORIZATION_def)
    then show ?thesis
      using sys_reach.reach_next [OF s sys_step.step_begin [OF now(1) t(3), of _ _ "''id''"]] req st now t(4,7) q(2)
      by (intro exI [of _ "begin_proxy example_site ''id'' 0 t example_target ?s"]) (simp add: begin_proxy_def)
  qed
qed

end
