(* ===== verification/Panics.thy ===== *)
theory Panics
  imports Router Validate
begin

text \<open>
  The two places where the code can panic on a configuration the validator accepts. A release build
  aborts on a panic (\<open>panic = "abort"\<close> in \<open>Cargo.toml\<close>), so \<open>CatchPanicLayer\<close> does not help there.
  \<open>build_router\<close> hands the metrics endpoint to \<open>Router::route\<close> of \<open>axum\<close>, which is documented to panic
  on a path without a leading slash and on a path already taken; \<open>record_failure_on\<close> adds a duration
  to an \<open>Instant\<close>, which is documented to panic when the sum is not representable.
\<close>

subsection \<open>Routes\<close>

definition operational_routes :: "string list" where
  "operational_routes = [''/'', ''/livez'', ''/readyz'', ''/healthz'', ''/iscorsneeded'']"

definition registered_routes :: "('m, 'gs, 'gi, 'gd, 'ms, 'mi, 'r) server_build \<Rightarrow> string list" where
  "registered_routes b =
     operational_routes @
     (if sb_immutable_metrics_endpoint b \<noteq> [] then [sb_immutable_metrics_endpoint b] else [])"

text \<open>\<open>accepts present path\<close>: \<open>route(path, _)\<close> does not panic. \<open>None\<close> is the panic.\<close>

fun register :: "(string list \<Rightarrow> string \<Rightarrow> bool) \<Rightarrow> string list \<Rightarrow> string list \<Rightarrow> string list option" where
  "register accepts present [] = Some present"
| "register accepts present (path # paths) =
     (if accepts present path then register accepts (present @ [path]) paths else None)"

definition router_routes ::
  "(string list \<Rightarrow> string \<Rightarrow> bool) \<Rightarrow> ('m, 'gs, 'gi, 'gd, 'ms, 'mi, 'r) server_build \<Rightarrow> string list option" where
  "router_routes accepts b = register accepts [] (registered_routes b)"

text \<open>A path without the characters that make a segment a capture or a wildcard.\<close>

definition literal_path :: "string \<Rightarrow> bool" where
  "literal_path path \<longleftrightarrow> starts_with ''/'' path \<and> list_all (\<lambda>c. c \<notin> set ''{}:*'') path"

locale route_table =
  fixes accepts :: "string list \<Rightarrow> string \<Rightarrow> bool"
  assumes leading_slash: "accepts present path \<Longrightarrow> starts_with ''/'' path"
    and overlap: "accepts present path \<Longrightarrow> path \<notin> set present"
    and literal: "list_all literal_path present \<Longrightarrow> literal_path path \<Longrightarrow> path \<notin> set present \<Longrightarrow>
      accepts present path"
begin

lemma register_literal:
  "list_all literal_path (present @ paths) \<Longrightarrow> distinct (present @ paths) \<Longrightarrow>
     register accepts present paths = Some (present @ paths)"
proof (induction paths arbitrary: present)
  case Nil
  then show ?case by simp
next
  case (Cons path paths)
  then have "accepts present path" by (intro literal) simp_all
  with Cons show ?case by simp
qed

lemma register_Some: "register accepts present paths = Some rs \<Longrightarrow> rs = present @ paths"
  by (induction paths arbitrary: present) (fastforce split: if_splits)+

lemma register_last: "register accepts present (paths @ [path]) = Some rs \<Longrightarrow> accepts (present @ paths) path"
proof (induction paths arbitrary: present)
  case Nil
  then show ?case by (simp split: if_splits)
next
  case (Cons p paths)
  then show ?case using Cons.IH [of "present @ [p]"] by (simp split: if_splits)
qed

lemma router_routes_iff:
  assumes "list_all (\<lambda>c. c \<notin> set ''{}:*'') (sb_immutable_metrics_endpoint b)"
  shows "router_routes accepts b \<noteq> None \<longleftrightarrow>
    sb_immutable_metrics_endpoint b = [] \<or>
    starts_with ''/'' (sb_immutable_metrics_endpoint b) \<and> sb_immutable_metrics_endpoint b \<notin> set operational_routes"
    (is "_ \<longleftrightarrow> ?m = [] \<or> ?ok")
proof -
  have ops: "list_all literal_path operational_routes" "distinct operational_routes" by code_simp+
  show ?thesis
  proof (cases "?m = []")
    case True
    then show ?thesis
      using register_literal [of "[]" operational_routes] ops by (simp add: router_routes_def registered_routes_def)
  next
    case False
    then have reg: "registered_routes b = operational_routes @ [?m]" by (simp add: registered_routes_def)
    have "router_routes accepts b \<noteq> None" if ?ok
      using that assms ops register_literal [of "[]" "operational_routes @ [?m]"]
      by (simp add: router_routes_def reg literal_path_def)
    moreover have ?ok if "router_routes accepts b = Some rs" for rs
      using register_last [of "[]" operational_routes ?m rs] that leading_slash overlap
      by (auto simp: router_routes_def reg)
    ultimately show ?thesis using False by blast
  qed
qed

end

definition literal_routes :: "string list \<Rightarrow> string \<Rightarrow> bool" where
  "literal_routes present path \<longleftrightarrow> starts_with ''/'' path \<and> path \<notin> set present"

interpretation literal_routes: route_table literal_routes
  by unfold_locales (simp_all add: literal_routes_def literal_path_def)

text \<open>The routes registered are those the dispatch of \<open>route_service\<close> answers itself.\<close>

lemma ops_route_registered: "ops_route H rendered b path \<noteq> None \<longleftrightarrow> path \<in> set (registered_routes b)"
  by (auto simp: ops_route_def registered_routes_def operational_routes_def)

text \<open>The validator does not look at the metrics endpoint, nor at how long a circuit stays open.\<close>

lemma checks_ignore:
  fixes cfg :: config and obs :: observability_config and d :: duration
  defines "cfg' \<equiv> cfg\<lparr>cf_observability := obs, cf_circuit_breaker := (cf_circuit_breaker cfg)\<lparr>cb_open_duration := d\<rparr>\<rparr>"
  shows "validate_cors cfg' = validate_cors cfg" "validate_target cfg' = validate_target cfg"
    "validate_auth cfg' = validate_auth cfg" "validate_circuit cfg' = validate_circuit cfg"
    "validate_limits cfg' = validate_limits cfg" "validate_upstream cfg' = validate_upstream cfg"
    "validate_tls is_file cfg' = validate_tls is_file cfg" "validate_ssrf cfg' = validate_ssrf cfg"
  unfolding cfg'_def
  by (intro ext, simp only: validate_cors_def validate_target_def validate_auth_def validate_circuit_def
      validate_limits_def validate_upstream_def validate_tls_def validate_ssrf_def has_client_binding_def Let_def, simp)+

lemma validate_ignores:
  "validate is_file (cfg\<lparr>cf_observability := obs,
     cf_circuit_breaker := (cf_circuit_breaker cfg)\<lparr>cb_open_duration := d\<rparr>\<rparr>) = validate is_file cfg"
  unfolding validate_def validate_full_def checks_ignore by simp

subsection \<open>Instants\<close>

definition failure_panics ::
  "(instant \<Rightarrow> bool) \<Rightarrow> 'm hosts_lib \<Rightarrow> instant \<Rightarrow> string \<Rightarrow> 'm circuit_breaker \<Rightarrow> bool" where
  "failure_panics representable D now host cb \<longleftrightarrow>
     br_enabled cb \<and>
     fst (record_failure_on (entry_or_new D (br_hosts cb) host) now (br_window cb)
       (br_failure_threshold cb) (br_open_duration cb)) \<and>
     \<not> representable (now + br_open_duration cb)"

lemma failures_before_horizon:
  assumes "\<And>s t. s \<le> t \<Longrightarrow> representable t \<Longrightarrow> representable s"
    and "representable (horizon + br_open_duration cb)" "now \<le> horizon"
  shows "\<not> failure_panics representable D now host cb"
  using assms(1) [of "now + br_open_duration cb" "horizon + br_open_duration cb"] assms(2,3)
  by (simp add: failure_panics_def)

lemma unbounded_open_duration_panics:
  assumes "br_enabled cb" "br_failure_threshold cb = 1" "\<not> representable (now + br_open_duration cb)"
  shows "failure_panics representable D now host cb"
proof -
  have pos: "1 \<le> w \<longleftrightarrow> w \<noteq> 0" for w :: u32
    using word_le_nat_alt [of 1 w] unat_gt_0 [of w] by (simp add: Suc_le_eq)
  have "1 \<le> (case u32_try_from (length (filter p xs @ [x])) of Some n \<Rightarrow> n | None \<Rightarrow> - 1)"
    for p and xs :: "instant list" and x
    unfolding pos by (auto simp: u32_try_from_def word_of_nat_eq_0_iff simp del: of_nat_Suc dest: dvd_imp_le)
  with assms show ?thesis
    by (simp add: failure_panics_def record_failure_on_def Let_def)
qed

subsection \<open>Validated configurations that panic\<close>

definition with_endpoint :: "string \<Rightarrow> config \<Rightarrow> config" where
  "with_endpoint path cfg = cfg\<lparr>cf_observability := (cf_observability cfg)\<lparr>ob_metrics_endpoint := path\<rparr>\<rparr>"

definition with_open_duration :: "duration \<Rightarrow> config \<Rightarrow> config" where
  "with_open_duration d cfg =
     cfg\<lparr>cf_circuit_breaker := (cf_circuit_breaker cfg)\<lparr>cb_failure_threshold := 1, cb_open_duration := d\<rparr>\<rparr>"

text \<open>
  A server starts to route exactly when its metrics endpoint is off, or starts with a slash and is not one
  of the operational paths; the validator accepts any endpoint.
\<close>

theorem endpoint_decides_start:
  assumes "route_table accepts" "list_all (\<lambda>c. c \<notin> set ''{}:*'') path"
    "server_from_config H N D L tls_roots (with_endpoint path cfg) = Inr b"
  shows "(router_routes accepts b \<noteq> None \<longleftrightarrow>
      path = [] \<or> starts_with ''/'' path \<and> path \<notin> set operational_routes) \<and>
    validate is_file (with_endpoint path cfg) = validate is_file cfg"
proof -
  have "sb_immutable_metrics_endpoint b = path"
    using assms(3) by (auto simp: server_from_config_def bind_res_eq_Inr with_endpoint_def)
  moreover have "validate is_file (with_endpoint path cfg) = validate is_file cfg"
    using validate_ignores [where cfg = cfg and d = "cb_open_duration (cf_circuit_breaker cfg)"] by (simp add: with_endpoint_def)
  ultimately show ?thesis
    using route_table.router_routes_iff [OF assms(1), of b] assms(2) by simp
qed

text \<open>With \<open>failure_threshold = 1\<close> and an open duration out of range the first failure of any host panics.\<close>

theorem open_duration_decides_panic:
  assumes "cb_enabled (cf_circuit_breaker cfg)" "\<not> representable (now + d)"
  shows "failure_panics representable D now host (circuit_from_config D (cf_circuit_breaker (with_open_duration d cfg))) \<and>
    (validate is_file cfg = Inr () \<longrightarrow> validate is_file (with_open_duration d cfg) = Inr ())"
proof -
  have "failure_panics representable D now host (circuit_from_config D (cf_circuit_breaker (with_open_duration d cfg)))"
    using assms by (intro unbounded_open_duration_panics) (simp_all add: circuit_from_config_def with_open_duration_def)
  moreover have "validate is_file (with_open_duration d cfg) = Inr ()" if "validate is_file cfg = Inr ()"
    using that unfolding validate_Inr_iff validate_full_no_errors_iff
    by (simp add: with_open_duration_def cors_safe_def target_ok_def auth_ok_def has_client_binding_def server_ok_def)
  ultimately show ?thesis by blast
qed

end
