(* ===== verification/Client.thy ===== *)
theory Client
  imports Server_State
begin

text \<open>
  The HTTP client that \<open>Upstream::new\<close> of \<open>corx-core/src/proxy/upstream.rs\<close> assembles: the settings it
  gives to the connector, to the TLS connector around it and to the connection pool.
\<close>

record client_settings =
  st_enforce_http :: bool
  st_connect_timeout :: "duration option"
  st_nodelay :: bool
  st_keepalive :: "duration option"
  st_https_only :: bool
  st_http1 :: bool
  st_http2 :: bool
  st_pool_max_idle_per_host :: usize
  st_pool_idle_timeout :: duration

definition client_settings_of :: "client_config \<Rightarrow> client_settings" where
  "client_settings_of cfg =
     \<lparr>st_enforce_http = False, st_connect_timeout = Some (cl_connect_timeout cfg), st_nodelay = True,
      st_keepalive = Some (from_secs 30), st_https_only = False, st_http1 = True, st_http2 = True,
      st_pool_max_idle_per_host = cl_pool_max_idle_per_host cfg,
      st_pool_idle_timeout = cl_pool_idle_timeout cfg\<rparr>"

text \<open>The client is built once, with the rest of \<open>Upstream\<close>.\<close>

definition client_of :: "upstream \<Rightarrow> client_settings" where
  "client_of u = client_settings_of (ups_config u)"

lemma upstream_new_client: "upstream_new tls_roots cfg guard policy = Inr u \<Longrightarrow> client_of u = client_settings_of cfg"
  by (auto simp: upstream_new_def client_of_def split: sum.splits)

text \<open>
  A client taken over by a reload has the settings of the new configuration: \<open>upstream_config_eq\<close>
  looks at everything the client is made from.
\<close>

theorem reloaded_client_settings:
  assumes "case previous of None \<Rightarrow> True | Some prev \<Rightarrow> as_configured H N D L prev"
    "build_from H N D L tls_roots cfg previous = Inr p"
  shows "client_of (lp_upstream p) =
    \<lparr>st_enforce_http = False, st_connect_timeout = Some (lm_connect_timeout (cf_limits cfg)), st_nodelay = True,
     st_keepalive = Some (from_secs 30), st_https_only = False, st_http1 = True, st_http2 = True,
     st_pool_max_idle_per_host = up_pool_max_idle_per_host (cf_upstream cfg),
     st_pool_idle_timeout = up_pool_idle_timeout (cf_upstream cfg)\<rparr>"
  using build_from_as_configured [OF assms] build_from_InrD(1) [OF assms(2)]
  by (simp add: as_configured_def Let_def client_of_def client_settings_of_def client_config_of_def)

end
