(* ===== verification/Unit_Tests_Cors.thy ===== *)
theory Unit_Tests_Cors
  imports Unit_Tests_Proxy
begin

text \<open>
  The unit tests of \<open>corx-core/src/proxy/cors.rs\<close>, over every header map that obeys the laws of
  \<open>header_map\<close>. A body plays no part in them.
\<close>

subsection \<open>Fixtures\<close>

definition test_policy :: "'h header_lib \<Rightarrow> cors_policy_kind \<Rightarrow> string list \<Rightarrow> bool \<Rightarrow> cors_policy" where
  "test_policy H kind origins allow_any_origin =
     cors_from_config H
       \<lparr>cc_policy = kind, cc_origins = origins, cc_allow_any_origin = allow_any_origin,
        cc_allowed_methods = [''GET'', ''POST'', ''OPTIONS''], cc_allowed_headers = [''content-type''],
        cc_exposed_headers = [''x-corx-status''], cc_max_age = from_mins 10,
        cc_allow_credentials = False, cc_allow_private_network = False\<rparr>"

definition root_uri :: uri where
  "root_uri = \<lparr>u_scheme = None, u_authority = None, u_host = None, u_path = ''/'', u_query = None\<rparr>"

definition test_request :: "'h header_lib \<Rightarrow> http_method \<Rightarrow> string option \<Rightarrow> string option \<Rightarrow> 'h request" where
  "test_request H http_method org preflight_method =
     (let headers = hm_new H;
          headers = (case org of Some o' \<Rightarrow> hm_insert H headers ''origin'' o' | None \<Rightarrow> headers);
          headers = (case preflight_method of
            Some m \<Rightarrow> hm_insert H headers ''access-control-request-method'' m | None \<Rightarrow> headers)
      in \<lparr>rq_method = http_method, rq_uri = root_uri, rq_headers = headers, rq_body = []\<rparr>)"

definition new_response :: "'h header_lib \<Rightarrow> 'h response" where
  "new_response H = \<lparr>rs_status = 200, rs_headers = hm_new H, rs_body = []\<rparr>"

text \<open>The headers a plain \<open>GET\<close> from an origin gets back.\<close>

definition stamped_get :: "'h header_lib \<Rightarrow> cors_policy \<Rightarrow> string \<Rightarrow> 'h" where
  "stamped_get H pol org =
     rs_headers (apply_to_response H (new_response H) (rq_headers (test_request H ''GET'' (Some org) None)) pol)"

subsection \<open>Tests\<close>

definition wildcard_returns_star :: "'h header_lib \<Rightarrow> bool" where
  "wildcard_returns_star H =
     (let pol = test_policy H WildcardKind [] False
      in header_is H (stamped_get H pol ''https://app.test'') ''access-control-allow-origin'' ''*'')"

definition reflect_with_allow_any_origin_echoes :: "'h header_lib \<Rightarrow> bool" where
  "reflect_with_allow_any_origin_echoes H =
     (let pol = test_policy H ReflectKind [] True; resp = stamped_get H pol ''https://app.test''
      in header_is H resp ''access-control-allow-origin'' ''https://app.test'' \<and> header_is H resp ''vary'' ''origin'')"

definition reflect_fail_closed_without_origins_or_flag :: "'h header_lib \<Rightarrow> bool" where
  "reflect_fail_closed_without_origins_or_flag H =
     (let pol = test_policy H ReflectKind [] False
      in hm_get H (stamped_get H pol ''https://app.test'') ''access-control-allow-origin'' = None)"

definition reflect_with_origins_gates :: "'h header_lib \<Rightarrow> bool" where
  "reflect_with_origins_gates H =
     (let pol = test_policy H ReflectKind [''https://good.test''] False
      in hm_get H (stamped_get H pol ''https://bad.test'') ''access-control-allow-origin'' = None)"

definition explicit_only_matches_configured :: "'h header_lib \<Rightarrow> bool" where
  "explicit_only_matches_configured H =
     (let pol = test_policy H ExplicitKind [''https://ok.test''] False
      in header_is H (stamped_get H pol ''https://ok.test'') ''access-control-allow-origin'' ''https://ok.test'' \<and>
         hm_get H (stamped_get H pol ''https://x.test'') ''access-control-allow-origin'' = None)"

definition preflight_uses_configured_allowed_methods :: "'h header_lib \<Rightarrow> bool" where
  "preflight_uses_configured_allowed_methods H =
     (let pol = test_policy H WildcardKind [] False;
          req = test_request H ''OPTIONS'' (Some ''https://a.test'') (Some ''POST'');
          resp = build_preflight_response H req pol;
          vary = (case Option.bind (hm_get H (rs_headers resp) ''vary'') (hv_to_str H) of Some v \<Rightarrow> v | None \<Rightarrow> [])
      in is_preflight H req \<and> rs_status resp = 204 \<and>
         header_is H (rs_headers resp) ''access-control-allow-methods'' ''GET, POST, OPTIONS'' \<and>
         header_is H (rs_headers resp) ''access-control-allow-headers'' ''content-type'' \<and>
         header_is H (rs_headers resp) ''access-control-max-age'' ''600'' \<and>
         contains_str ''origin'' vary \<and> contains_str ''access-control-request-method'' vary)"

definition exposed_headers_are_emitted_on_real_response :: "'h header_lib \<Rightarrow> bool" where
  "exposed_headers_are_emitted_on_real_response H =
     (let pol = test_policy H ReflectKind [] True
      in header_is H (stamped_get H pol ''https://app.test'') ''access-control-expose-headers'' ''x-corx-status'')"

definition pna_handshake_replies_when_enabled :: "'h header_lib \<Rightarrow> bool" where
  "pna_handshake_replies_when_enabled H =
     (let cfg = \<lparr>cc_policy = WildcardKind, cc_origins = [], cc_allow_any_origin = False,
            cc_allowed_methods = [''GET''], cc_allowed_headers = [''content-type''], cc_exposed_headers = [],
            cc_max_age = from_mins 1, cc_allow_credentials = False, cc_allow_private_network = True\<rparr>;
          pol = cors_from_config H cfg;
          req = test_request H ''OPTIONS'' (Some ''https://app.test'') (Some ''GET'');
          req = req\<lparr>rq_headers := hm_insert H (rq_headers req) ''access-control-request-private-network'' ''true''\<rparr>;
          resp = build_preflight_response H req pol;
          pol_off = cors_from_config H (cfg\<lparr>cc_allow_private_network := False\<rparr>);
          resp_off = build_preflight_response H req pol_off
      in header_is H (rs_headers resp) ''access-control-allow-private-network'' ''true'' \<and>
         hm_get H (rs_headers resp_off) ''access-control-allow-private-network'' = None)"

definition wildcard_with_credentials_falls_back_to_origin_echo :: "'h header_lib \<Rightarrow> bool" where
  "wildcard_with_credentials_falls_back_to_origin_echo H =
     (let cfg = \<lparr>cc_policy = WildcardKind, cc_origins = [], cc_allow_any_origin = False,
            cc_allowed_methods = [], cc_allowed_headers = [], cc_exposed_headers = [],
            cc_max_age = from_mins 1, cc_allow_credentials = True, cc_allow_private_network = False\<rparr>;
          resp = stamped_get H (cors_from_config H cfg) ''https://app.test'';
          resp2 = stamped_get H (cors_from_config H (cfg\<lparr>cc_allow_credentials := False\<rparr>)) ''https://app.test''
      in header_is H resp ''access-control-allow-origin'' ''https://app.test'' \<and>
         header_is H resp ''access-control-allow-credentials'' ''true'' \<and>
         header_is H resp2 ''access-control-allow-origin'' ''*'')"

subsection \<open>They hold\<close>

text \<open>The \<open>Vary\<close> line of a preflight, token by token.\<close>

lemma preflight_vary_line:
  "\<not> vary_lists ''access-control-request-method'' ''origin''"
  "\<not> vary_lists ''access-control-request-headers'' ''origin, access-control-request-method''"
  "contains_str ''origin'' ''origin, access-control-request-method, access-control-request-headers''"
  "contains_str ''access-control-request-method'' ''origin, access-control-request-method, access-control-request-headers''"
  by code_simp+

lemma preflight_minutes: "show_nat 600 = ''600''" "show_nat 60 = ''60''"
  by code_simp+

context header_map begin

lemmas cors_eval =
  test_policy_def test_request_def new_response_def stamped_get_def header_is_def
  cors_from_config_def compile_mode_def to_origin_set_def encode_token_list_def encode_max_age_def
  apply_to_response_def apply_cors_base_def resolve_allow_origin_def insert_option_def append_vary_def
  configured_or_echo_def build_preflight_response_def is_preflight_def cors_names hm_simps
  to_str_visible from_str_visible visible_byte_def as_secs_def from_mins_def from_secs_def Let_def

lemma wildcard_returns_star_holds: "wildcard_returns_star H"
  by (simp add: wildcard_returns_star_def cors_eval)

lemma reflect_with_allow_any_origin_echoes_holds: "reflect_with_allow_any_origin_echoes H"
  by (simp add: reflect_with_allow_any_origin_echoes_def cors_eval)

lemma reflect_fail_closed_without_origins_or_flag_holds: "reflect_fail_closed_without_origins_or_flag H"
  by (simp add: reflect_fail_closed_without_origins_or_flag_def cors_eval)

lemma reflect_with_origins_gates_holds: "reflect_with_origins_gates H"
  by (simp add: reflect_with_origins_gates_def cors_eval)

lemma explicit_only_matches_configured_holds: "explicit_only_matches_configured H"
  by (simp add: explicit_only_matches_configured_def cors_eval)

lemma exposed_headers_are_emitted_on_real_response_holds: "exposed_headers_are_emitted_on_real_response H"
  by (simp add: exposed_headers_are_emitted_on_real_response_def cors_eval)

lemma wildcard_with_credentials_falls_back_to_origin_echo_holds: "wildcard_with_credentials_falls_back_to_origin_echo H"
  by (simp add: wildcard_with_credentials_falls_back_to_origin_echo_def cors_eval)

lemma pna_handshake_replies_when_enabled_holds: "pna_handshake_replies_when_enabled H"
  by (simp add: pna_handshake_replies_when_enabled_def cors_eval preflight_vary_line preflight_minutes)

lemma preflight_uses_configured_allowed_methods_holds: "preflight_uses_configured_allowed_methods H"
  by (simp add: preflight_uses_configured_allowed_methods_def cors_eval preflight_vary_line preflight_minutes)

end

end
