(* ===== verification/Unit_Tests_Forward.thy ===== *)
theory Unit_Tests_Forward
  imports Unit_Tests_Cors
begin

text \<open>
  The unit tests of \<open>corx-core/src/proxy/forwarded.rs\<close>, over every header map that obeys the laws of
  \<open>header_map\<close>, and of \<open>redirect.rs\<close>, on \<open>plain_urls\<close>. \<open>is_uuid\<close> is \<open>Uuid::from_str\<close> of the crate
  \<open>uuid\<close>, and \<open>fresh_id\<close> what it prints.
\<close>

subsection \<open>Forwarding headers\<close>

definition ipv4_new :: "nat \<Rightarrow> nat \<Rightarrow> nat \<Rightarrow> nat \<Rightarrow> ip_addr" where
  "ipv4_new a b c d = V4 (word_of_nat (((a * 256 + b) * 256 + c) * 256 + d))"

definition forwarded_target :: "'u url_lib \<Rightarrow> ('u target_url \<Rightarrow> bool) \<Rightarrow> bool" where
  "forwarded_target U P = test_target U ''https://api.example.com/v1'' P"

definition forwarded_cfg :: forwarded_config where
  "forwarded_cfg = \<lparr>fc_inject = True, fc_trust_inbound_xff = False, fc_inject_request_id = True\<rparr>"

definition inbound_of :: "ip_addr option \<Rightarrow> string \<Rightarrow> string option \<Rightarrow> 16 word \<Rightarrow> inbound_context" where
  "inbound_of client_ip scheme host local_port =
     \<lparr>ib_client_ip = client_ip, ib_scheme = scheme, ib_host = host, ib_local_port = local_port\<rparr>"

definition injects_xff_proto_host_port :: "'h header_lib \<Rightarrow> string \<Rightarrow> 'u target_url \<Rightarrow> bool" where
  "injects_xff_proto_host_port H fresh_id target =
     (let inbound = inbound_of (Some (ipv4_new 203 0 113 5)) ''https'' (Some ''proxy.example'') 8080;
          headers = inject H fresh_id (hm_new H) inbound target forwarded_cfg
      in header_is H headers ''x-forwarded-for'' ''203.0.113.5'' \<and>
         header_is H headers ''x-forwarded-proto'' ''https'' \<and>
         header_is H headers ''x-forwarded-host'' ''proxy.example'' \<and>
         header_is H headers ''x-forwarded-port'' ''8080'' \<and>
         (case Option.bind (hm_get H headers ''forwarded'') (hv_to_str H) of
            None \<Rightarrow> False
          | Some forwarded \<Rightarrow>
              contains_str ''for=203.0.113.5'' forwarded \<and> contains_str ''proto=https'' forwarded \<and>
              contains_str ''host=proxy.example'' forwarded))"

definition replaces_inbound_xff_by_default :: "'h header_lib \<Rightarrow> string \<Rightarrow> 'u target_url \<Rightarrow> bool" where
  "replaces_inbound_xff_by_default H fresh_id target =
     (let headers = hm_insert H (hm_new H) ''x-forwarded-for'' ''1.2.3.4, 5.6.7.8'';
          inbound = inbound_of (Some (ipv4_new 203 0 113 5)) ''http'' None 80;
          headers = inject H fresh_id headers inbound target forwarded_cfg
      in header_is H headers ''x-forwarded-for'' ''203.0.113.5'')"

definition appends_when_trusted :: "'h header_lib \<Rightarrow> string \<Rightarrow> 'u target_url \<Rightarrow> bool" where
  "appends_when_trusted H fresh_id target =
     (let headers = hm_insert H (hm_new H) ''x-forwarded-for'' ''1.2.3.4'';
          inbound = inbound_of (Some (ipv4_new 203 0 113 5)) ''http'' None 80;
          cfg = forwarded_cfg\<lparr>fc_trust_inbound_xff := True\<rparr>;
          headers = inject H fresh_id headers inbound target cfg
      in header_is H headers ''x-forwarded-for'' ''1.2.3.4, 203.0.113.5'')"

definition generates_request_id_when_missing ::
  "'h header_lib \<Rightarrow> (string \<Rightarrow> bool) \<Rightarrow> string \<Rightarrow> 'u target_url \<Rightarrow> bool" where
  "generates_request_id_when_missing H is_uuid fresh_id target =
     (let inbound = inbound_of None ''https'' None 443;
          headers = inject H fresh_id (hm_new H) inbound target forwarded_cfg
      in case Option.bind (hm_get H headers REQUEST_ID_HEADER) (hv_to_str H) of
           None \<Rightarrow> False
         | Some request_id \<Rightarrow> length request_id = 36 \<and> is_uuid request_id)"

definition preserves_inbound_request_id :: "'h header_lib \<Rightarrow> string \<Rightarrow> 'u target_url \<Rightarrow> bool" where
  "preserves_inbound_request_id H fresh_id target =
     (let headers = hm_insert H (hm_new H) ''x-request-id'' ''client-supplied'';
          inbound = inbound_of None ''https'' None 443;
          headers = inject H fresh_id headers inbound target forwarded_cfg
      in header_is H headers ''x-request-id'' ''client-supplied'')"

lemma test_client: "show_ip (ipv4_new 203 0 113 5) = ''203.0.113.5''"
  by (simp add: ipv4_new_def show_ip_def show_ipv4_def octets_def show_nat_def digits_def show_base.simps)

lemma test_ports: "show_nat 8080 = ''8080''" "show_nat 80 = ''80''" "show_nat 443 = ''443''"
  by (simp_all add: show_nat_def digits_def show_base.simps)

lemma contains_str_middle: "s = a @ pat @ b \<Longrightarrow> contains_str pat s"
  unfolding contains_str_iff by blast

context header_map begin

lemmas inject_eval =
  inject_def set_static_def ensure_request_id_def append_xff_def replace_xff_def
  inbound_of_def forwarded_cfg_def header_is_def test_client test_ports forwarded_names hm_simps
  to_str_visible from_str_visible visible_byte_def Let_def

lemma forwarded_value:
  assumes "visible (tu_host t)"
  shows "build_forwarded_value H (inbound_of (Some (ipv4_new 203 0 113 5)) ''https'' (Some ''proxy.example'') 8080) t =
    Some (''for=203.0.113.5'' @ '';'' @ ''proto=https'' @ '';'' @ ''host=proxy.example'' @ '';by='' @ tu_host t)"
  using assms test_client
  by (simp add: build_forwarded_value_def inbound_of_def from_str_visible visible_byte_def ipv4_new_def show_ip_def)

lemma inject_tests:
  "replaces_inbound_xff_by_default H fresh_id t" "appends_when_trusted H fresh_id t"
  "preserves_inbound_request_id H fresh_id t"
  by (auto simp: replaces_inbound_xff_by_default_def appends_when_trusted_def preserves_inbound_request_id_def
      inject_eval split: option.splits)

lemma generates_request_id_test:
  assumes "visible fresh_id" "length fresh_id = 36" "is_uuid fresh_id"
  shows "generates_request_id_when_missing H is_uuid fresh_id t"
  using assms
  by (auto simp: generates_request_id_when_missing_def inject_eval contains_get split: option.splits)

lemma injects_xff_proto_host_port_holds:
  assumes "visible (tu_host t)"
  shows "injects_xff_proto_host_port H fresh_id t"
proof -
  let ?v = "''for=203.0.113.5'' @ '';'' @ ''proto=https'' @ '';'' @ ''host=proxy.example'' @ '';by='' @ tu_host t"
  have "contains_str ''for=203.0.113.5'' ?v" "contains_str ''proto=https'' ?v" "contains_str ''host=proxy.example'' ?v"
    by (rule contains_str_middle [where a = "[]"], simp)
       (rule contains_str_middle [where a = "''for=203.0.113.5;''"], simp,
        rule contains_str_middle [where a = "''for=203.0.113.5;proto=https;''"], simp)
  moreover have "visible ?v" using assms by (simp add: visible_byte_def)
  ultimately show ?thesis
    using forwarded_value [OF assms]
    by (auto simp: injects_xff_proto_host_port_def inject_eval split: option.splits)
qed

end

text \<open>The target the tests share has a printable host.\<close>

lemma forwarded_tests:
  assumes "header_map H"
  shows "forwarded_target plain_urls (injects_xff_proto_host_port H fresh_id)"
    "forwarded_target plain_urls (replaces_inbound_xff_by_default H fresh_id)"
    "forwarded_target plain_urls (appends_when_trusted H fresh_id)"
    "forwarded_target plain_urls (preserves_inbound_request_id H fresh_id)"
proof -
  have "forwarded_target plain_urls (\<lambda>t. tu_host t = ''api.example.com'')" by code_simp
  then obtain t where t: "tu_host t = ''api.example.com''" "forwarded_target plain_urls P \<longleftrightarrow> P t" for P
    by (auto simp: forwarded_target_def test_target_def unwrapped_def split: sum.splits)
  have "visible (tu_host t)" by (simp add: t visible_byte_def)
  then have "injects_xff_proto_host_port H fresh_id t"
    by (rule header_map.injects_xff_proto_host_port_holds [OF assms])
  with header_map.inject_tests [OF assms]
  show "forwarded_target plain_urls (injects_xff_proto_host_port H fresh_id)"
    "forwarded_target plain_urls (replaces_inbound_xff_by_default H fresh_id)"
    "forwarded_target plain_urls (appends_when_trusted H fresh_id)"
    "forwarded_target plain_urls (preserves_inbound_request_id H fresh_id)"
    by (simp_all add: t)
qed

subsection \<open>Redirects\<close>

definition is_redirect_matches_expected_statuses :: bool where
  "is_redirect_matches_expected_statuses \<longleftrightarrow>
     is_redirect 301 \<and> is_redirect 302 \<and> is_redirect 303 \<and> is_redirect 307 \<and> is_redirect 308 \<and>
     \<not> is_redirect 200 \<and> \<not> is_redirect 304"

definition post_downgrades_to_get_on_303 :: bool where
  "post_downgrades_to_get_on_303 \<longleftrightarrow>
     (case classify_transition ''POST'' 303 of (m, drop_body) \<Rightarrow> m = ''GET'' \<and> drop_body)"

definition get_stays_get_on_308 :: bool where
  "get_stays_get_on_308 \<longleftrightarrow>
     (case classify_transition ''GET'' 308 of (m, drop_body) \<Rightarrow> m = ''GET'' \<and> \<not> drop_body)"

definition relative_redirect_is_resolved_against_base :: "'u url_lib \<Rightarrow> bool" where
  "relative_redirect_is_resolved_against_base U =
     unwrapped (uri_parse U ''http://a.test/foo/bar'') (\<lambda>base.
       unwrapped (resolve_location U base ''/baz'') (\<lambda>next_uri. uri_to_string U next_uri = ''http://a.test/baz''))"

definition absolute_redirect_is_returned_verbatim :: "'u url_lib \<Rightarrow> bool" where
  "absolute_redirect_is_returned_verbatim U =
     unwrapped (uri_parse U ''http://a.test/'') (\<lambda>base.
       unwrapped (resolve_location U base ''https://b.test/path'')
         (\<lambda>next_uri. uri_to_string U next_uri = ''https://b.test/path''))"

definition authority_comparison_is_case_insensitive :: "'u url_lib \<Rightarrow> bool" where
  "authority_comparison_is_case_insensitive U =
     unwrapped (uri_parse U ''http://A.Test/'') (\<lambda>a.
       unwrapped (uri_parse U ''http://a.test/'') (\<lambda>b. \<not> authority_differs a b))"

definition state_constructor_preserves_inputs :: "'h header_lib \<Rightarrow> 'u url_lib \<Rightarrow> bool" where
  "state_constructor_preserves_inputs H U =
     unwrapped (uri_parse U ''http://a.test/'') (\<lambda>uri.
       let st = from_initial ''POST'' uri (hm_new H)
       in rd_method st = ''POST'' \<and> uri_to_string U (rd_uri st) = ''http://a.test/'' \<and> hm_entries H (rd_headers st) = [])"

definition file_scheme_is_rejected :: "'u url_lib \<Rightarrow> bool" where
  "file_scheme_is_rejected U =
     unwrapped (uri_parse U ''file://localhost/etc/passwd'') (\<lambda>uri. \<not> is_ok (require_safe_scheme uri))"

definition ftp_scheme_is_rejected :: "'u url_lib \<Rightarrow> bool" where
  "ftp_scheme_is_rejected U =
     unwrapped (uri_parse U ''ftp://example.com/'') (\<lambda>uri. \<not> is_ok (require_safe_scheme uri))"

definition ws_scheme_is_rejected :: "'u url_lib \<Rightarrow> bool" where
  "ws_scheme_is_rejected U =
     unwrapped (uri_parse U ''ws://example.com/socket'') (\<lambda>uri. \<not> is_ok (require_safe_scheme uri))"

definition gopher_scheme_is_rejected :: "'u url_lib \<Rightarrow> bool" where
  "gopher_scheme_is_rejected U =
     unwrapped (uri_parse U ''gopher://example.com/'') (\<lambda>uri. \<not> is_ok (require_safe_scheme uri))"

definition detects_https_to_http_downgrade :: "'u url_lib \<Rightarrow> bool" where
  "detects_https_to_http_downgrade U =
     unwrapped (uri_parse U ''https://a.test/'') (\<lambda>src.
       unwrapped (uri_parse U ''http://a.test/'') (\<lambda>dst. is_https_to_http_downgrade src dst) \<and>
       unwrapped (uri_parse U ''https://b.test/'') (\<lambda>to_https. \<not> is_https_to_http_downgrade src to_https))"

lemma redirect_tests:
  "is_redirect_matches_expected_statuses" "post_downgrades_to_get_on_303" "get_stays_get_on_308"
  "relative_redirect_is_resolved_against_base plain_urls" "absolute_redirect_is_returned_verbatim plain_urls"
  "authority_comparison_is_case_insensitive plain_urls" "state_constructor_preserves_inputs list_headers plain_urls"
  "file_scheme_is_rejected plain_urls" "ftp_scheme_is_rejected plain_urls" "ws_scheme_is_rejected plain_urls"
  "gopher_scheme_is_rejected plain_urls" "detects_https_to_http_downgrade plain_urls"
  by code_simp+

end
