(* ===== verification/Unit_Tests_Policy.thy ===== *)
theory Unit_Tests_Policy
  imports Unit_Tests_Forward Ssrf Circuit Validate
begin

text \<open>
  The unit tests of \<open>corx-core/src/proxy/ssrf.rs\<close>, over every \<open>ip_nets\<close>, of \<open>policy/circuit.rs\<close>,
  on \<open>alist_dash\<close>, and of \<open>config/validate.rs\<close>.
\<close>

subsection \<open>SSRF guard\<close>

definition LOCALHOST :: ip_addr where "LOCALHOST = ipv4_new 127 0 0 1"
definition LOCALHOST_V6 :: ip_addr where "LOCALHOST_V6 = V6 1"

definition test_guard :: "net_lib \<Rightarrow> ssrf_mode \<Rightarrow> ip_net list \<Rightarrow> ip_net list \<Rightarrow> ssrf_guard" where
  "test_guard N mode extras_block extras_allow =
     ssrf_new N \<lparr>sf_mode = mode, sf_allow_ipv6 = True,
       sf_extra_blocked_cidrs = extras_block, sf_extra_allowed_cidrs = extras_allow\<rparr>"

definition guard_admits :: "net_lib \<Rightarrow> ssrf_guard \<Rightarrow> ip_addr \<Rightarrow> bool" where
  "guard_admits N g ip \<longleftrightarrow> is_ok (snd (check_ip N g ip))"

definition default_list_blocks_loopback :: "net_lib \<Rightarrow> bool" where
  "default_list_blocks_loopback N \<longleftrightarrow>
     list_ex (\<lambda>net. net_contains N net LOCALHOST) (compile_cidr_list N DEFAULT_BLOCKED_CIDRS [])"

definition default_list_blocks_ipv6_loopback :: "net_lib \<Rightarrow> bool" where
  "default_list_blocks_ipv6_loopback N \<longleftrightarrow>
     list_ex (\<lambda>net. net_contains N net LOCALHOST_V6) (compile_cidr_list N DEFAULT_BLOCKED_CIDRS [])"

definition default_list_blocks_link_local :: "net_lib \<Rightarrow> bool" where
  "default_list_blocks_link_local N \<longleftrightarrow>
     list_ex (\<lambda>net. net_contains N net (ipv4_new 169 254 169 254)) (compile_cidr_list N DEFAULT_BLOCKED_CIDRS [])"

definition public_ip_is_not_blocked :: "net_lib \<Rightarrow> bool" where
  "public_ip_is_not_blocked N \<longleftrightarrow>
     \<not> list_ex (\<lambda>net. net_contains N net (ipv4_new 1 1 1 1)) (compile_cidr_list N DEFAULT_BLOCKED_CIDRS [])"

definition ipv4_mapped_ipv6_is_canonicalised :: bool where
  "ipv4_mapped_ipv6_is_canonicalised \<longleftrightarrow>
     (case parse_ip ''::ffff:127.0.0.1'' of None \<Rightarrow> False | Some mapped \<Rightarrow> canonicalise mapped = LOCALHOST)"

definition strict_mode_rejects_loopback :: "net_lib \<Rightarrow> bool" where
  "strict_mode_rejects_loopback N \<longleftrightarrow> \<not> guard_admits N (test_guard N Strict [] []) LOCALHOST"

definition strict_mode_rejects_ipv4_mapped_loopback :: "net_lib \<Rightarrow> bool" where
  "strict_mode_rejects_ipv4_mapped_loopback N \<longleftrightarrow>
     (case parse_ip ''::ffff:127.0.0.1'' of
        None \<Rightarrow> False
      | Some mapped \<Rightarrow> \<not> guard_admits N (test_guard N Strict [] []) mapped)"

definition permissive_allow_private_admits_loopback :: "net_lib \<Rightarrow> bool" where
  "permissive_allow_private_admits_loopback N \<longleftrightarrow> guard_admits N (test_guard N (Permissive True) [] []) LOCALHOST"

definition permissive_no_private_still_rejects_loopback :: "net_lib \<Rightarrow> bool" where
  "permissive_no_private_still_rejects_loopback N \<longleftrightarrow> \<not> guard_admits N (test_guard N (Permissive False) [] []) LOCALHOST"

definition allowlist_overrides_default_block :: "net_lib \<Rightarrow> bool" where
  "allowlist_overrides_default_block N =
     (case net_parse N ''10.0.0.0/24'' of
        None \<Rightarrow> False
      | Some net \<Rightarrow>
          (let g = test_guard N Strict [] [net]
           in guard_admits N g (ipv4_new 10 0 0 5) \<and> \<not> guard_admits N g (ipv4_new 10 0 1 5)))"

definition extra_block_extends_default :: "net_lib \<Rightarrow> bool" where
  "extra_block_extends_default N =
     (case net_parse N ''203.0.113.0/24'' of
        None \<Rightarrow> False
      | Some net \<Rightarrow> \<not> guard_admits N (test_guard N Strict [net] []) (ipv4_new 203 0 113 7))"

lemmas test_addresses = LOCALHOST_def LOCALHOST_V6_def ipv4_new_def

lemma mapped_loopback: "parse_ip ''::ffff:127.0.0.1'' = Some (V6 (to_ipv6_mapped 0x7F000001))"
  by (simp add: parse_ip_eval to_ipv6_mapped_def)

lemma test_cidrs:
  "cidr_of ''10.0.0.0/24'' = Some (V4 0x0A000000, 24)" "cidr_of ''203.0.113.0/24'' = Some (V4 0xCB007100, 24)"
  by (simp_all add: cidr_eval)

context ip_nets begin

lemmas guard_eval =
  test_guard_def guard_admits_def check_ip_cases address_admitted_def ip_admitted_def new_nets test_addresses
  canonicalise_def mapped_loopback default_blocked_def default_private_def is_ipv6_def in_nets_def
  contains_cidr addr_width_def

lemma compiled_default: "list_ex (\<lambda>net. net_contains N net ip) (compile_cidr_list N DEFAULT_BLOCKED_CIDRS []) \<longleftrightarrow>
    list_ex (\<lambda>(a, l). same_top_bits l a ip) default_blocked"
  using in_nets_default [OF default_nets_wf(1)] compile_builtin [OF cidrs_blocked, of "[]"]
  by (simp add: in_nets_def)

lemma default_list_tests:
  "default_list_blocks_loopback N" "default_list_blocks_ipv6_loopback N"
  "default_list_blocks_link_local N" "public_ip_is_not_blocked N"
  by (simp_all add: default_list_blocks_loopback_def default_list_blocks_ipv6_loopback_def
      default_list_blocks_link_local_def public_ip_is_not_blocked_def compiled_default default_blocked_def
      test_addresses)

lemma guard_tests:
  "strict_mode_rejects_loopback N" "strict_mode_rejects_ipv4_mapped_loopback N"
  "permissive_allow_private_admits_loopback N" "permissive_no_private_still_rejects_loopback N"
  by (simp_all add: strict_mode_rejects_loopback_def strict_mode_rejects_ipv4_mapped_loopback_def
      permissive_allow_private_admits_loopback_def permissive_no_private_still_rejects_loopback_def guard_eval)

lemma extra_range_tests: "allowlist_overrides_default_block N" "extra_block_extends_default N"
  by (simp_all add: allowlist_overrides_default_block_def extra_block_extends_default_def parse_cidr [OF test_cidrs(1)]
      parse_cidr [OF test_cidrs(2)] guard_eval)

end

lemma canonical_test: "ipv4_mapped_ipv6_is_canonicalised"
  by (simp add: ipv4_mapped_ipv6_is_canonicalised_def mapped_loopback canonicalise_def test_addresses)

subsection \<open>Circuit breaker\<close>

text \<open>
  A test reads the clock once per call: \<open>at n\<close> is its \<open>n\<close>-th reading. The tests mean to run within the
  50 ms their circuits stay open, which is the hypothesis below.
\<close>

definition from_millis :: "nat \<Rightarrow> duration" where
  "from_millis n = n * 1000000"

definition breaker_cfg :: "u32 \<Rightarrow> circuit_breaker_config" where
  "breaker_cfg threshold =
     \<lparr>cb_enabled = True, cb_failure_threshold = threshold, cb_window = from_mins 1,
      cb_open_duration = from_millis 50, cb_half_open_max = 1, cb_count_5xx = True, cb_max_hosts = 8192\<rparr>"

definition fails :: "'m hosts_lib \<Rightarrow> instant \<Rightarrow> string \<Rightarrow> 'm circuit_breaker \<Rightarrow> 'm circuit_breaker" where
  "fails D now host cb = snd (record_failure D now host cb)"

definition check_ok :: "'m hosts_lib \<Rightarrow> instant \<Rightarrow> string \<Rightarrow> 'm circuit_breaker \<Rightarrow> bool \<times> 'm circuit_breaker" where
  "check_ok D now host cb = (case check_circuit D now host cb of (ms, r, cb) \<Rightarrow> (is_ok r, cb))"

definition trips_after_threshold_failures :: "'m hosts_lib \<Rightarrow> (nat \<Rightarrow> instant) \<Rightarrow> bool" where
  "trips_after_threshold_failures D at =
     (let cb = circuit_from_config D (breaker_cfg 3);
          (ok1, cb) = check_ok D (at 0) ''h.test'' cb;
          cb = fails D (at 1) ''h.test'' cb;
          cb = fails D (at 2) ''h.test'' cb;
          (ok2, cb) = check_ok D (at 3) ''h.test'' cb;
          cb = fails D (at 4) ''h.test'' cb;
          (ok3, cb) = check_ok D (at 5) ''h.test'' cb
      in ok1 \<and> ok2 \<and> \<not> ok3)"

definition success_resets :: "'m hosts_lib \<Rightarrow> (nat \<Rightarrow> instant) \<Rightarrow> bool" where
  "success_resets D at =
     (let cb = circuit_from_config D (breaker_cfg 2);
          cb = fails D (at 0) ''h.test'' cb;
          cb = record_success D ''h.test'' cb;
          cb = fails D (at 1) ''h.test'' cb
      in fst (check_ok D (at 2) ''h.test'' cb))"

definition disabled_never_trips :: "'m hosts_lib \<Rightarrow> (nat \<Rightarrow> instant) \<Rightarrow> bool" where
  "disabled_never_trips D at =
     (let c = (breaker_cfg 1)\<lparr>cb_enabled := False\<rparr>;
          cb = circuit_from_config D c;
          cb = fails D (at 0) ''h.test'' cb;
          cb = fails D (at 1) ''h.test'' cb
      in fst (check_ok D (at 2) ''h.test'' cb))"

definition max_hosts_evicts_idle_closed :: "'m hosts_lib \<Rightarrow> (nat \<Rightarrow> instant) \<Rightarrow> bool" where
  "max_hosts_evicts_idle_closed D at =
     (let c = (breaker_cfg 10)\<lparr>cb_max_hosts := 2\<rparr>;
          cb = circuit_from_config D c;
          (ok1, cb) = check_ok D (at 0) ''a.test'' cb;
          (ok2, cb) = check_ok D (at 1) ''b.test'' cb;
          (ok3, cb) = check_ok D (at 2) ''c.test'' cb
      in ok1 \<and> ok2 \<and> ok3 \<and> tracked_hosts D cb \<le> 2)"

definition hop_guard_records_failure_on_drop :: "'m hosts_lib \<Rightarrow> (nat \<Rightarrow> instant) \<Rightarrow> bool" where
  "hop_guard_records_failure_on_drop D at =
     (let cb = circuit_from_config D (breaker_cfg 1)
      in case hop_admit D (at 0) ''h.test'' cb of
           (_, Inl _, _) \<Rightarrow> False
         | (_, Inr hop, cb) \<Rightarrow>
             hop_host hop = ''h.test'' \<and>
             \<not> fst (check_ok D (at 2) ''h.test'' (snd (hop_drop D (at 1) hop cb))))"

definition hop_guard_success_disarms_drop :: "'m hosts_lib \<Rightarrow> (nat \<Rightarrow> instant) \<Rightarrow> bool" where
  "hop_guard_success_disarms_drop D at =
     (let cb = circuit_from_config D (breaker_cfg 1)
      in case hop_admit D (at 0) ''h.test'' cb of
           (_, Inl _, _) \<Rightarrow> False
         | (_, Inr hop, cb) \<Rightarrow> fst (check_ok D (at 2) ''h.test'' (snd (hop_success D (at 1) hop cb))))"

text \<open>A table of one host stays one: nothing is evicted.\<close>

lemma am_insert_twice: "am_insert (am_insert am_empty k v) k w = am_insert am_empty k w"
  by transfer simp

lemma evict_one_host:
  "br_max_hosts cb \<noteq> 0 \<Longrightarrow>
     evict_if_needed alist_dash now (cb\<lparr>br_hosts := am_insert am_empty host e\<rparr>) = cb\<lparr>br_hosts := am_insert am_empty host e\<rparr>"
  by (simp add: evict_if_needed_def dm_len_def alist_dash_eval Let_def word_gt_0 flip: unat_eq_0)

lemmas breaker_eval =
  circuit_from_config_def breaker_cfg_def check_ok_def fails_def check_circuit_def record_failure_def record_success_def
  transition_on_check_def record_failure_on_def entry_or_new_def host_circuit_new_def
  hop_admit_def hop_success_def hop_drop_def u32_try_from_def Let_def

lemma alist_dash_sel:
  "dm_empty alist_dash = am_empty" "dm_get alist_dash = am_get" "dm_insert alist_dash = am_insert"
  by (simp_all add: alist_dash_def)

lemmas one_host_eval = breaker_eval alist_dash_sel am_get_empty am_get_insert am_insert_twice
  evict_one_host [of "\<lparr>br_enabled = en, br_failure_threshold = th, br_window = w, br_open_duration = od,
    br_half_open_max = hm, br_count_5xx = c5, br_max_hosts = mh, br_hosts = m\<rparr>" for en th w od hm c5 mh m, simplified]

lemma circuit_tests:
  assumes quick: "\<And>i j. at i < at j + from_millis 50"
  shows "trips_after_threshold_failures alist_dash at" "success_resets alist_dash at"
    "disabled_never_trips alist_dash at" "max_hosts_evicts_idle_closed alist_dash at"
    "hop_guard_records_failure_on_drop alist_dash at" "hop_guard_success_disarms_drop alist_dash at"
proof -
  have window: "at i - at j \<le> from_mins (Suc 0)" "\<not> at j + from_millis 50 \<le> at i" for i j
    using quick [of i j] by (simp_all add: from_millis_def from_mins_def from_secs_def)
  have small: "\<not> (2 :: u32) \<le> 1" "\<not> (3 :: u32) \<le> 1" by (simp_all add: word_le_nat_alt)
  show "disabled_never_trips alist_dash at"
    by (simp add: disabled_never_trips_def one_host_eval)
  show "success_resets alist_dash at"
    by (simp add: success_resets_def one_host_eval window small)
  show "trips_after_threshold_failures alist_dash at"
    by (simp add: trips_after_threshold_failures_def one_host_eval window small)
  show "hop_guard_records_failure_on_drop alist_dash at"
    by (simp add: hop_guard_records_failure_on_drop_def one_host_eval window)
  show "hop_guard_success_disarms_drop alist_dash at"
    by (simp add: hop_guard_success_disarms_drop_def one_host_eval window)
  show "max_hosts_evicts_idle_closed alist_dash at"
    by (simp add: max_hosts_evicts_idle_closed_def breaker_eval window evict_if_needed_def alist_dash_eval dm_len_def
        tracked_hosts_def evict_matching_def dm_retain_def is_idle_closed_def)
qed

subsection \<open>Configuration validator\<close>

text \<open>\<open>unwrap_err\<close> and the path of what is in it.\<close>

definition error_at :: "config_error + unit \<Rightarrow> string \<Rightarrow> bool" where
  "error_at r p = (case r of Inl err \<Rightarrow> ce_path err = p | Inr _ \<Rightarrow> False)"

definition defaults_validate_clean :: "(string \<Rightarrow> bool) \<Rightarrow> bool" where
  "defaults_validate_clean is_file \<longleftrightarrow> \<not> has_errors (validate_full is_file default_config)"

definition wildcard_with_credentials_is_rejected :: "(string \<Rightarrow> bool) \<Rightarrow> bool" where
  "wildcard_with_credentials_is_rejected is_file =
     (let cfg = default_config;
          cfg = cfg\<lparr>cf_cors := (cf_cors cfg)\<lparr>cc_policy := WildcardKind\<rparr>\<rparr>;
          cfg = cfg\<lparr>cf_cors := (cf_cors cfg)\<lparr>cc_allow_credentials := True\<rparr>\<rparr>
      in error_at (validate is_file cfg) ''cors.allow_credentials'')"

definition explicit_without_origins_is_rejected :: "(string \<Rightarrow> bool) \<Rightarrow> bool" where
  "explicit_without_origins_is_rejected is_file =
     (let cfg = default_config;
          cfg = cfg\<lparr>cf_cors := (cf_cors cfg)\<lparr>cc_policy := ExplicitKind\<rparr>\<rparr>;
          cfg = cfg\<lparr>cf_cors := (cf_cors cfg)\<lparr>cc_origins := []\<rparr>\<rparr>
      in error_at (validate is_file cfg) ''cors.origins'')"

definition rate_limit_enabled_with_all_dimensions_zero_is_rejected :: "(string \<Rightarrow> bool) \<Rightarrow> bool" where
  "rate_limit_enabled_with_all_dimensions_zero_is_rejected is_file =
     (let cfg = default_config;
          rl = (cf_rate_limit cfg)\<lparr>rl_enabled := True\<rparr>;
          rl = rl\<lparr>rl_origin := (rl_origin rl)\<lparr>ol_rps := 0\<rparr>\<rparr>;
          rl = rl\<lparr>rl_ip := (rl_ip rl)\<lparr>il_rps := 0\<rparr>\<rparr>;
          rl = rl\<lparr>rl_target_host := (rl_target_host rl)\<lparr>hl_rps := 0\<rparr>\<rparr>;
          rl = rl\<lparr>rl_global := (rl_global rl)\<lparr>gl_rps := 0\<rparr>\<rparr>;
          cfg = cfg\<lparr>cf_rate_limit := rl\<rparr>
      in error_at (validate is_file cfg) ''rate_limit'')"

definition rate_limit_dimension_with_zero_burst_is_rejected :: "(string \<Rightarrow> bool) \<Rightarrow> bool" where
  "rate_limit_dimension_with_zero_burst_is_rejected is_file =
     (let cfg = default_config;
          rl = (cf_rate_limit cfg)\<lparr>rl_enabled := True\<rparr>;
          rl = rl\<lparr>rl_origin := (rl_origin rl)\<lparr>ol_rps := 10\<rparr>\<rparr>;
          rl = rl\<lparr>rl_origin := (rl_origin rl)\<lparr>ol_burst := 0\<rparr>\<rparr>;
          cfg = cfg\<lparr>cf_rate_limit := rl\<rparr>
      in error_at (validate is_file cfg) ''rate_limit.origin.burst'')"

definition pool_max_idle_zero_is_rejected :: "(string \<Rightarrow> bool) \<Rightarrow> bool" where
  "pool_max_idle_zero_is_rejected is_file =
     (let cfg = default_config;
          cfg = cfg\<lparr>cf_upstream := (cf_upstream cfg)\<lparr>up_pool_max_idle_per_host := 0\<rparr>\<rparr>
      in error_at (validate is_file cfg) ''upstream.pool_max_idle_per_host'')"

definition missing_tls_cert_is_rejected :: "(string \<Rightarrow> bool) \<Rightarrow> bool" where
  "missing_tls_cert_is_rejected is_file =
     (let cfg = default_config;
          tls = \<lparr>tls_cert_path = ''/does/not/exist.pem'', tls_key_path = ''/does/not/exist.key'',
                 tls_client_ca_path = None, tls_alpn_protocols = [''h2'', ''http/1.1'']\<rparr>;
          cfg = cfg\<lparr>cf_server := (cf_server cfg)\<lparr>sv_tls := Some tls\<rparr>\<rparr>;
          report = validate_full is_file cfg;
          paths = map ce_path (vr_errors report)
      in has_errors report \<and> ''server.tls.cert_path'' \<in> set paths \<and> ''server.tls.key_path'' \<in> set paths)"

lemmas validator_eval =
  validate_full_def validate_cors_def validate_target_def validate_auth_def validate_circuit_def validate_limits_def
  check_dimension_def validate_rate_limit_def validate_upstream_def validate_tls_def validate_ssrf_def
  has_client_binding_def empty_report_def config_error_new_def default_config_eval Let_def str_simps

lemma validator_tests:
  "defaults_validate_clean is_file" "wildcard_with_credentials_is_rejected is_file"
  "explicit_without_origins_is_rejected is_file"
  "rate_limit_enabled_with_all_dimensions_zero_is_rejected is_file"
  "rate_limit_dimension_with_zero_burst_is_rejected is_file" "pool_max_idle_zero_is_rejected is_file"
  by (simp_all add: defaults_validate_clean_def wildcard_with_credentials_is_rejected_def
      explicit_without_origins_is_rejected_def rate_limit_enabled_with_all_dimensions_zero_is_rejected_def
      rate_limit_dimension_with_zero_burst_is_rejected_def pool_max_idle_zero_is_rejected_def
      error_at_def has_errors_def validate_def validator_eval)

lemma errors_kept:
  "set (vr_errors r) \<subseteq> set (vr_errors (validate_circuit cfg (validate_auth cfg (validate_target cfg (validate_ssrf cfg r)))))"
  by (auto simp: validate_circuit_def validate_auth_def validate_target_def validate_ssrf_def Let_def)

text \<open>The two files of the last test are not there.\<close>

lemma missing_tls_cert_test:
  assumes "\<not> is_file ''/does/not/exist.pem''" "\<not> is_file ''/does/not/exist.key''"
  shows "missing_tls_cert_is_rejected is_file"
proof -
  have "ce_path ` {config_error_new ''server.tls.cert_path'' (''certificate file not found: '' @ tls_cert_path t),
      config_error_new ''server.tls.key_path'' (''private key file not found: '' @ tls_key_path t)} \<subseteq>
      ce_path ` set (vr_errors (validate_full is_file cfg))"
    if "sv_tls (cf_server cfg) = Some t" "\<not> is_file (tls_cert_path t)" "\<not> is_file (tls_key_path t)" for cfg t
    using that unfolding validate_full_def by (intro image_mono subset_trans [OF _ errors_kept]) (simp add: validate_tls_def)
  then have paths: "''server.tls.cert_path'' \<in> ce_path ` set (vr_errors (validate_full is_file cfg))"
      "''server.tls.key_path'' \<in> ce_path ` set (vr_errors (validate_full is_file cfg))"
    if "sv_tls (cf_server cfg) = Some t" "\<not> is_file (tls_cert_path t)" "\<not> is_file (tls_key_path t)" for cfg t
    using that by (simp_all add: config_error_new_def)
  then have "vr_errors (validate_full is_file cfg) \<noteq> []"
    if "sv_tls (cf_server cfg) = Some t" "\<not> is_file (tls_cert_path t)" "\<not> is_file (tls_key_path t)" for cfg t
    using that by fastforce
  with paths show ?thesis
    unfolding missing_tls_cert_is_rejected_def has_errors_def Let_def set_map
    by (intro conjI) (use assms in simp_all)
qed

end
