(* ===== verification/Unit_Tests_Server.thy ===== *)
theory Unit_Tests_Server
  imports Unit_Tests_Policy Origin_Guard Auth Router Hot_Reload
begin

text \<open>
  The unit tests of \<open>corx-server\<close>: \<open>middleware/origin_guard.rs\<close>, \<open>auth.rs\<close> and \<open>header_limit.rs\<close> over
  every header map that obeys the laws of \<open>header_map\<close>, and \<open>hot_reload.rs\<close> on the example libraries.
\<close>

subsection \<open>Origin guard\<close>

definition origin_headers :: "'h header_lib \<Rightarrow> string option \<Rightarrow> 'h" where
  "origin_headers H org =
     (case org of
        Some org \<Rightarrow> hm_insert H (hm_new H) ''origin'' org
      | None \<Rightarrow> hm_new H)"

definition origin_cfg :: security_config where
  "origin_cfg = default_security_config\<lparr>sc_require_header := [], sc_block_methods := [],
     sc_remove_request_headers := [], sc_remove_response_headers := [],
     sc_origin_blacklist := [], sc_origin_whitelist := []\<rparr>"

definition blacklist_blocks_origin :: "'h header_lib \<Rightarrow> bool" where
  "blacklist_blocks_origin H =
     (let pol = origin_from_config H (origin_cfg\<lparr>sc_origin_blacklist := [''https://bad.test'']\<rparr>)
      in \<not> is_ok (origin_evaluate H pol ''GET'' (origin_headers H (Some ''https://bad.test''))))"

definition whitelist_gates_origin :: "'h header_lib \<Rightarrow> bool" where
  "whitelist_gates_origin H =
     (let pol = origin_from_config H (origin_cfg\<lparr>sc_origin_whitelist := [''https://ok.test'']\<rparr>)
      in is_ok (origin_evaluate H pol ''GET'' (origin_headers H (Some ''https://ok.test''))) \<and>
         \<not> is_ok (origin_evaluate H pol ''GET'' (origin_headers H (Some ''https://no.test''))) \<and>
         \<not> is_ok (origin_evaluate H pol ''GET'' (origin_headers H None)))"

definition blocked_method_is_rejected :: "'h header_lib \<Rightarrow> bool" where
  "blocked_method_is_rejected H =
     (let pol = origin_from_config H (origin_cfg\<lparr>sc_block_methods := [''CONNECT'']\<rparr>)
      in \<not> is_ok (origin_evaluate H pol ''CONNECT'' (origin_headers H None)))"

definition required_header_must_be_present :: "'h header_lib \<Rightarrow> bool" where
  "required_header_must_be_present H =
     (let pol = origin_from_config H (origin_cfg\<lparr>sc_require_header := [''origin'', ''x-requested-with'']\<rparr>)
      in \<not> is_ok (origin_evaluate H pol ''GET'' (origin_headers H None)) \<and>
         is_ok (origin_evaluate H pol ''GET'' (origin_headers H (Some ''https://ok.test''))))"

subsection \<open>Bearer tokens\<close>

definition accepts_matching_token :: "'h header_lib \<Rightarrow> bool" where
  "accepts_matching_token H =
     (let headers = hm_insert H (hm_new H) AUTHORIZATION ''Bearer secret''
      in is_ok (check_bearer H headers [''secret'']))"

definition rejects_wrong_token :: "'h header_lib \<Rightarrow> bool" where
  "rejects_wrong_token H =
     (let headers = hm_insert H (hm_new H) AUTHORIZATION ''Bearer nope''
      in \<not> is_ok (check_bearer H headers [''secret'']))"

definition rejects_missing :: "'h header_lib \<Rightarrow> bool" where
  "rejects_missing H \<longleftrightarrow> \<not> is_ok (check_bearer H (hm_new H) [''secret''])"

subsection \<open>Header limit\<close>

definition empty_map_is_zero :: "'h header_lib \<Rightarrow> bool" where
  "empty_map_is_zero H \<longleftrightarrow> header_map_bytes H (hm_new H) = 0"

definition counts_name_and_value :: "'h header_lib \<Rightarrow> bool" where
  "counts_name_and_value H =
     (let map = hm_insert H (hm_new H) ''x-a'' ''bb''
      in header_map_bytes H map = 5)"

subsection \<open>They hold\<close>

context header_map begin

lemma connect_method: "method_from_bytes H ''CONNECT'' = Some ''CONNECT''"
  by (rule method_from_bytes_token) code_simp

lemma origin_tests:
  "blacklist_blocks_origin H" "whitelist_gates_origin H" "blocked_method_is_rejected H"
  "required_header_must_be_present H"
  by (simp_all add: blacklist_blocks_origin_def whitelist_gates_origin_def blocked_method_is_rejected_def
      required_header_must_be_present_def origin_evaluate_def origin_from_config_def origin_cfg_def
      default_security_config_def origin_headers_def to_origin_set_def contains_name_def List.map_filter_simps
      ORIGIN_def connect_method contains_get_all hm_simps to_str_visible visible_byte_def name_from_str_token str_simps Let_def)

lemma bearer_tests:
  "accepts_matching_token H" "rejects_wrong_token H" "rejects_missing H"
  by (simp_all add: accepts_matching_token_def rejects_wrong_token_def rejects_missing_def check_bearer_def
      AUTHORIZATION_def hm_simps to_str_visible visible_byte_def ct_eq_eq str_simps Let_def)

lemma entries_new: "hm_entries H (hm_new H) = []"
  using entries_mem [of _ _ "hm_new H"] by (cases "hm_entries H (hm_new H)") (force simp: get_all_new)+

lemma entries_single: "hm_entries H (hm_insert H (hm_new H) n v) = [(n, v)]" (is "?es = _")
proof -
  have names: "fst e = n" if "e \<in> set ?es" for e
    using that entries_mem [of "fst e" "snd e" "hm_insert H (hm_new H) n v"]
    by (simp add: get_all_insert get_all_new split: if_splits)
  have "filter (\<lambda>e. fst e = n) ?es = ?es"
    by (rule filter_True) (use names in blast)
  then have "map snd ?es = [v]"
    using entries_get_all [of n "hm_insert H (hm_new H) n v"] by (simp add: get_all_insert)
  with names show ?thesis by (cases ?es) auto
qed

lemma header_limit_tests: "empty_map_is_zero H" "counts_name_and_value H"
  by (simp_all add: empty_map_is_zero_def counts_name_and_value_def header_map_bytes_def entries_new entries_single
      sat_add_def)

end

subsection \<open>Reload handle\<close>

text \<open>\<open>make_handle\<close> builds a snapshot of the built-in configuration first; the handle does not look into it.\<close>

definition make_handle ::
  "'h header_lib \<Rightarrow> net_lib \<Rightarrow> 'm hosts_lib \<Rightarrow> ('gs, 'gi, 'gd, 'ms, 'mi, 'r) limiter_lib \<Rightarrow> string + unit \<Rightarrow>
     string + reload_handle \<times> config" where
  "make_handle H N D L tls_roots =
     (let config = default_config
      in bind_res (build_policies H N D L tls_roots config) (\<lambda>policies.
         Inr (\<lparr>rh_server = cf_server config,
               rh_metrics_endpoint = ob_metrics_endpoint (cf_observability config),
               rh_max_body_bytes = lm_max_request_body_bytes (cf_limits config),
               rh_max_request_header_bytes = lm_max_request_header_bytes (cf_limits config),
               rh_request_timeout = lm_request_timeout (cf_limits config),
               rh_inflight_max = lm_inflight_max (cf_limits config),
               rh_max_response_body_bytes = lm_max_response_body_bytes (cf_limits config)\<rparr>, config)))"

text \<open>\<open>expect_err\<close> and what its text contains.\<close>

definition error_contains :: "string + unit \<Rightarrow> string \<Rightarrow> bool" where
  "error_contains r pat = (case r of Inl err \<Rightarrow> contains_str pat err | Inr _ \<Rightarrow> False)"

definition assert_immutable_accepts_unchanged_config :: "reload_handle \<times> config \<Rightarrow> bool" where
  "assert_immutable_accepts_unchanged_config made =
     (let (handle, original) = made in is_ok (assert_immutable handle original))"

definition assert_immutable_rejects_bind_change :: "reload_handle \<times> config \<Rightarrow> bool" where
  "assert_immutable_rejects_bind_change made =
     (let (handle, next_cfg) = made;
          next_cfg = next_cfg\<lparr>cf_server := (cf_server next_cfg)\<lparr>sv_bind := (ipv4_new 127 0 0 1, 31415)\<rparr>\<rparr>
      in error_contains (assert_immutable handle next_cfg) ''server.bind'')"

definition assert_immutable_rejects_request_timeout_change :: "reload_handle \<times> config \<Rightarrow> bool" where
  "assert_immutable_rejects_request_timeout_change made =
     (let (handle, next_cfg) = made;
          next_cfg = next_cfg\<lparr>cf_limits := (cf_limits next_cfg)\<lparr>lm_request_timeout := from_secs 123\<rparr>\<rparr>
      in error_contains (assert_immutable handle next_cfg) ''limits.request_timeout'')"

definition assert_immutable_accepts_mutable_field_change :: "reload_handle \<times> config \<Rightarrow> bool" where
  "assert_immutable_accepts_mutable_field_change made =
     (let (handle, next_cfg) = made;
          next_cfg = next_cfg\<lparr>cf_forwarded := (cf_forwarded next_cfg)\<lparr>fc_inject := \<not> fc_inject (cf_forwarded next_cfg)\<rparr>\<rparr>
      in is_ok (assert_immutable handle next_cfg))"

definition rebuild_retains_circuit_when_only_cors_changes ::
  "'h header_lib \<Rightarrow> net_lib \<Rightarrow> 'm hosts_lib \<Rightarrow> ('gs, 'gi, 'gd, 'ms, 'mi, 'r) limiter_lib \<Rightarrow> string + unit \<Rightarrow>
     (nat \<Rightarrow> instant) \<Rightarrow> bool" where
  "rebuild_retains_circuit_when_only_cors_changes H N D L tls_roots at =
     (let config = default_config
      in unwrapped (build_policies H N D L tls_roots config) (\<lambda>first.
           let cb = fails D (at 0) ''h.test'' (lp_circuit first);
               cb = fails D (at 1) ''h.test'' cb;
               cb = fails D (at 2) ''h.test'' cb;
               cb = fails D (at 3) ''h.test'' cb;
               cb = fails D (at 4) ''h.test'' cb;
               (ok, cb) = check_ok D (at 5) ''h.test'' cb;
               next_cfg = config\<lparr>cf_cors := (cf_cors config)\<lparr>cc_allow_any_origin := \<not> cc_allow_any_origin (cf_cors config)\<rparr>\<rparr>
           in \<not> ok \<and>
              unwrapped (build_from H N D L tls_roots next_cfg (Some (first\<lparr>lp_circuit := cb\<rparr>))) (\<lambda>second.
                \<not> fst (check_ok D (at 6) ''h.test'' (lp_circuit second)))))"

definition tls_eq_compares_field_wise :: bool where
  "tls_eq_compares_field_wise \<longleftrightarrow>
     (let cfg_a = \<lparr>tls_cert_path = ''/a.pem'', tls_key_path = ''/a.key'', tls_client_ca_path = None,
                   tls_alpn_protocols = [''h2'']\<rparr>;
          cfg_b = cfg_a;
          cfg_c = cfg_a\<lparr>tls_alpn_protocols := [''http/1.1'']\<rparr>
      in tls_eq None None \<and> tls_eq (Some cfg_a) (Some cfg_b) \<and> \<not> tls_eq (Some cfg_a) (Some cfg_c) \<and>
         \<not> tls_eq (Some cfg_a) None)"

lemma tls_eq_test: "tls_eq_compares_field_wise"
  by (simp add: tls_eq_compares_field_wise_def tls_eq_iff Let_def)

lemma contains_field: "contains_str name (frozen_field name)"
  unfolding contains_str_iff frozen_field_def by (metis append_Nil)

lemma contains_bind: "contains_str ''server.bind'' (''server.bind cannot be changed by reload (was '' @ s)"
proof -
  have "''server.bind cannot be changed by reload (was '' @ s =
      [] @ ''server.bind'' @ ('' cannot be changed by reload (was '' @ s)" by simp
  then show ?thesis unfolding contains_str_iff by blast
qed

lemma immutable_tests:
  assumes "make_handle H N D L tls_roots = Inr made"
  shows "assert_immutable_accepts_unchanged_config made" "assert_immutable_accepts_mutable_field_change made"
    "assert_immutable_rejects_bind_change made" "assert_immutable_rejects_request_timeout_change made"
proof -
  from assms have made: "snd made = default_config" "handle_fields (fst made) = frozen_fields default_config"
    by (auto simp: make_handle_def bind_res_eq_Inr handle_fields_def frozen_fields_def Let_def)
  from made have same: "assert_immutable (fst made) cfg = Inr () \<longleftrightarrow> frozen_fields cfg = frozen_fields default_config" for cfg
    by (simp add: assert_immutable_Inr)
  have ok: "is_ok (assert_immutable (fst made) cfg)" if "frozen_fields cfg = frozen_fields default_config" for cfg
    using that by (simp add: same [symmetric])
  show "assert_immutable_accepts_unchanged_config made"
    using ok [of default_config] made(1) by (simp add: assert_immutable_accepts_unchanged_config_def case_prod_beta)
  show "assert_immutable_accepts_mutable_field_change made"
    unfolding assert_immutable_accepts_mutable_field_change_def Let_def case_prod_beta made(1)
    by (rule ok) (simp add: frozen_fields_def)
  from made(2) show "assert_immutable_rejects_bind_change made"
    using contains_bind
    by (auto simp: assert_immutable_rejects_bind_change_def case_prod_beta made(1) assert_immutable_def error_contains_def
        handle_fields_def frozen_fields_def default_config_def default_server_config_def ipv4_new_def Let_def)
  from made(2) show "assert_immutable_rejects_request_timeout_change made"
    using contains_field
    by (auto simp: assert_immutable_rejects_request_timeout_change_def case_prod_beta made(1) assert_immutable_def
        error_contains_def handle_fields_def frozen_fields_def tls_eq_iff default_config_eval Let_def)
qed

text \<open>The breaker of the built-in configuration after the five failures of the test: it stays open.\<close>

definition tripped :: "(nat \<Rightarrow> instant) \<Rightarrow> (string, host_circuit) alist_map circuit_breaker" where
  "tripped at =
     (circuit_from_config alist_dash default_circuit_breaker_config)
       \<lparr>br_hosts := am_insert am_empty ''h.test'' \<lparr>hc_state = Open_Until (at 4 + from_secs 30), hc_failures = []\<rparr>\<rparr>"

lemma tripped_facts:
  assumes quick: "\<And>i j. at i < at j + from_secs 30"
  shows five_failures: "fails alist_dash (at 4) ''h.test'' (fails alist_dash (at 3) ''h.test'' (fails alist_dash (at 2) ''h.test''
      (fails alist_dash (at 1) ''h.test'' (fails alist_dash (at 0) ''h.test''
        (circuit_from_config alist_dash default_circuit_breaker_config))))) = tripped at"
    and tripped_refuses: "check_ok alist_dash (at n) ''h.test'' (tripped at) = (False, tripped at)"
proof -
  have window: "at i - at j \<le> from_secs 30" "\<not> at j + from_secs 30 \<le> at i" for i j
    using quick [of i j] by (simp_all add: from_secs_def)
  have small: "\<not> (5 :: u32) \<le> 1" "\<not> (5 :: u32) \<le> 2" "\<not> (5 :: u32) \<le> 3" "\<not> (5 :: u32) \<le> 4"
    by (simp_all add: word_le_nat_alt)
  note eval = one_host_eval default_circuit_breaker_config_def default_failure_threshold_def default_half_open_max_def
    default_window_def default_open_duration_def default_max_hosts_def window small
  show "fails alist_dash (at 4) ''h.test'' (fails alist_dash (at 3) ''h.test'' (fails alist_dash (at 2) ''h.test''
      (fails alist_dash (at 1) ''h.test'' (fails alist_dash (at 0) ''h.test''
        (circuit_from_config alist_dash default_circuit_breaker_config))))) = tripped at"
    by (simp add: tripped_def eval)
  show "check_ok alist_dash (at n) ''h.test'' (tripped at) = (False, tripped at)"
    by (simp add: tripped_def eval)
qed

lemma rebuild_test:
  assumes quick: "\<And>i j. at i < at j + from_secs 30"
  shows "rebuild_retains_circuit_when_only_cors_changes list_headers plain_nets alist_dash example_limiters (Inr ()) at"
proof -
  obtain p where p: "build_policies list_headers plain_nets alist_dash example_limiters (Inr ()) default_config = Inr p"
    using example_policies_Inr by (auto simp: example_policies_def)
  then have b: "build_from list_headers plain_nets alist_dash example_limiters (Inr ()) default_config None = Inr p"
    by (simp add: build_policies_def)
  have cfg: "lp_config p = default_config" "lp_circuit p = circuit_from_config alist_dash default_circuit_breaker_config"
    using build_from_InrD(1,8) [OF b] by (simp_all add: default_config_def)
  let ?next = "default_config\<lparr>cf_cors := (cf_cors default_config)
    \<lparr>cc_allow_any_origin := \<not> cc_allow_any_origin (cf_cors default_config)\<rparr>\<rparr>"
  have "\<exists>q. build_from list_headers plain_nets alist_dash example_limiters (Inr ()) ?next
      (Some (p\<lparr>lp_circuit := tripped at\<rparr>)) = Inr q"
    using cfg by (simp add: build_from_def Let_def upstream_config_eq_def default_config_def default_security_config_def
        default_filters context_err_def)
  then obtain q where q: "build_from list_headers plain_nets alist_dash example_limiters (Inr ()) ?next
      (Some (p\<lparr>lp_circuit := tripped at\<rparr>)) = Inr q" by blast
  from build_from_InrD(8) [OF q] cfg have "lp_circuit q = tripped at" by simp
  with q show ?thesis
    using five_failures [of at, OF quick] tripped_refuses [of at, OF quick]
    by (simp add: rebuild_retains_circuit_when_only_cors_changes_def p cfg(2))
qed

lemma handle_tests:
  "unwrapped (make_handle list_headers plain_nets alist_dash example_limiters (Inr ())) (\<lambda>made.
     assert_immutable_accepts_unchanged_config made \<and> assert_immutable_accepts_mutable_field_change made \<and>
     assert_immutable_rejects_bind_change made \<and> assert_immutable_rejects_request_timeout_change made)"
proof -
  obtain made where "make_handle list_headers plain_nets alist_dash example_limiters (Inr ()) = Inr made"
    using example_policies_Inr by (auto simp: make_handle_def example_policies_def Let_def)
  with immutable_tests [OF this] show ?thesis by simp
qed

end
