(* ===== verification/Unit_Tests_Rate.thy ===== *)
theory Unit_Tests_Rate
  imports Unit_Tests_Policy Rate_Limit
begin

text \<open>
  The unit tests of \<open>corx-server/src/middleware/rate_limit.rs\<close>, on token buckets that do not refill
  within a test and, for patterns, on a matcher of anchored literals.
\<close>

subsection \<open>Fixtures\<close>

definition rate_cfg :: rate_limit_config where
  "rate_cfg =
     \<lparr>rl_enabled = True, rl_max_keys = 16384,
      rl_origin = \<lparr>ol_rps = 0, ol_burst = 0, ol_unlimited_patterns = []\<rparr>,
      rl_ip = \<lparr>il_rps = 0, il_burst = 0, il_trusted_cidrs = []\<rparr>,
      rl_target_host = \<lparr>hl_rps = 0, hl_burst = 0\<rparr>, rl_global = \<lparr>gl_rps = 0, gl_burst = 0\<rparr>\<rparr>"

definition rate_ctx :: "string option \<Rightarrow> string \<Rightarrow> string \<Rightarrow> rate_context option" where
  "rate_ctx org ip host =
     map_option (\<lambda>client_ip. \<lparr>rc_origin = org, rc_client_ip = client_ip, rc_target_host = Some host\<rparr>) (parse_ip ip)"

text \<open>\<open>assert!(lim.check(&ctx).is_ok())\<close> or \<open>is_err()\<close>, one after the other on one limiter.\<close>

fun asserts ::
  "net_lib \<Rightarrow> ('gs, 'gi, 'gd, 'ms, 'mi, 'r) limiter_lib \<Rightarrow> instant \<Rightarrow> (rate_context option \<times> bool) list \<Rightarrow>
     ('gs, 'gi, 'gd, 'ms, 'mi, 'r) rate_limiter \<Rightarrow> bool" where
  "asserts N L now [] lim = True"
| "asserts N L now ((None, ok) # rest) lim = False"
| "asserts N L now ((Some ctx, ok) # rest) lim =
     (case rate_check N L now ctx lim of ((ms, r), lim) \<Rightarrow> is_ok r = ok \<and> asserts N L now rest lim)"

subsection \<open>Tests\<close>

definition disabled_admits_everything ::
  "net_lib \<Rightarrow> ('gs, 'gi, 'gd, 'ms, 'mi, 'r) limiter_lib \<Rightarrow> instant \<Rightarrow> bool" where
  "disabled_admits_everything N L now =
     (let c = rate_cfg\<lparr>rl_enabled := False\<rparr>
      in unwrapped (rate_from_config L c)
           (asserts N L now (replicate 100 (rate_ctx (Some ''https://a.test'') ''1.2.3.4'' ''x.test'', True))))"

definition origin_dimension_rejects_after_burst ::
  "net_lib \<Rightarrow> ('gs, 'gi, 'gd, 'ms, 'mi, 'r) limiter_lib \<Rightarrow> instant \<Rightarrow> bool" where
  "origin_dimension_rejects_after_burst N L now =
     (let c = rate_cfg\<lparr>rl_origin := (rl_origin rate_cfg)\<lparr>ol_rps := 1, ol_burst := 2\<rparr>\<rparr>;
          ctx = rate_ctx (Some ''https://a.test'') ''1.2.3.4'' ''x.test''
      in unwrapped (rate_from_config L c) (asserts N L now [(ctx, True), (ctx, True), (ctx, False)]))"

definition origin_unlimited_pattern_bypasses ::
  "net_lib \<Rightarrow> ('gs, 'gi, 'gd, 'ms, 'mi, 'r) limiter_lib \<Rightarrow> instant \<Rightarrow> bool" where
  "origin_unlimited_pattern_bypasses N L now =
     (let c = rate_cfg\<lparr>rl_origin := (rl_origin rate_cfg)\<lparr>ol_rps := 1, ol_burst := 1,
            ol_unlimited_patterns := [''^https://whitelisted'' @ [CHR 0x5C] @ ''.test$'']\<rparr>\<rparr>
      in unwrapped (rate_from_config L c)
           (asserts N L now (replicate 10 (rate_ctx (Some ''https://whitelisted.test'') ''1.2.3.4'' ''x.test'', True))))"

definition ip_dimension_independent_of_origin ::
  "net_lib \<Rightarrow> ('gs, 'gi, 'gd, 'ms, 'mi, 'r) limiter_lib \<Rightarrow> instant \<Rightarrow> bool" where
  "ip_dimension_independent_of_origin N L now =
     (let c = rate_cfg\<lparr>rl_ip := (rl_ip rate_cfg)\<lparr>il_rps := 1, il_burst := 1\<rparr>\<rparr>
      in unwrapped (rate_from_config L c) (asserts N L now
           [(rate_ctx None ''1.2.3.4'' ''x.test'', True), (rate_ctx None ''1.2.3.4'' ''x.test'', False),
            (rate_ctx None ''1.2.3.5'' ''x.test'', True)]))"

definition ip_trusted_cidr_bypasses ::
  "net_lib \<Rightarrow> ('gs, 'gi, 'gd, 'ms, 'mi, 'r) limiter_lib \<Rightarrow> instant \<Rightarrow> bool" where
  "ip_trusted_cidr_bypasses N L now =
     (case net_parse N ''10.0.0.0/8'' of
        None \<Rightarrow> False
      | Some net \<Rightarrow>
          (let c = rate_cfg\<lparr>rl_ip := (rl_ip rate_cfg)\<lparr>il_rps := 1, il_burst := 1, il_trusted_cidrs := [net]\<rparr>\<rparr>
           in unwrapped (rate_from_config L c)
                (asserts N L now (replicate 10 (rate_ctx None ''10.1.2.3'' ''x.test'', True)))))"

definition target_host_dimension_buckets_per_host ::
  "net_lib \<Rightarrow> ('gs, 'gi, 'gd, 'ms, 'mi, 'r) limiter_lib \<Rightarrow> instant \<Rightarrow> bool" where
  "target_host_dimension_buckets_per_host N L now =
     (let c = rate_cfg\<lparr>rl_target_host := (rl_target_host rate_cfg)\<lparr>hl_rps := 1, hl_burst := 1\<rparr>\<rparr>
      in unwrapped (rate_from_config L c) (asserts N L now
           [(rate_ctx None ''1.1.1.1'' ''popular.test'', True), (rate_ctx None ''2.2.2.2'' ''popular.test'', False),
            (rate_ctx None ''3.3.3.3'' ''rare.test'', True)]))"

definition global_dimension_caps_total_throughput ::
  "net_lib \<Rightarrow> ('gs, 'gi, 'gd, 'ms, 'mi, 'r) limiter_lib \<Rightarrow> instant \<Rightarrow> bool" where
  "global_dimension_caps_total_throughput N L now =
     (let c = rate_cfg\<lparr>rl_global := (rl_global rate_cfg)\<lparr>gl_rps := 1, gl_burst := 1\<rparr>\<rparr>
      in unwrapped (rate_from_config L c) (asserts N L now
           [(rate_ctx None ''1.1.1.1'' ''a.test'', True), (rate_ctx None ''9.9.9.9'' ''z.test'', False)]))"

definition first_failing_dimension_wins ::
  "net_lib \<Rightarrow> ('gs, 'gi, 'gd, 'ms, 'mi, 'r) limiter_lib \<Rightarrow> instant \<Rightarrow> bool" where
  "first_failing_dimension_wins N L now =
     (let c = rate_cfg\<lparr>rl_origin := (rl_origin rate_cfg)\<lparr>ol_rps := 1, ol_burst := 1\<rparr>,
            rl_global := (rl_global rate_cfg)\<lparr>gl_rps := 1000, gl_burst := 1000\<rparr>\<rparr>;
          ctx = rate_ctx (Some ''o'') ''1.1.1.1'' ''a.test''
      in unwrapped (rate_from_config L c) (asserts N L now [(ctx, True), (ctx, False)]))"

definition max_keys_rejects_new_keys_when_full ::
  "net_lib \<Rightarrow> ('gs, 'gi, 'gd, 'ms, 'mi, 'r) limiter_lib \<Rightarrow> instant \<Rightarrow> bool" where
  "max_keys_rejects_new_keys_when_full N L now =
     (let c = rate_cfg\<lparr>rl_max_keys := 1, rl_origin := (rl_origin rate_cfg)\<lparr>ol_rps := 100, ol_burst := 100\<rparr>\<rparr>
      in unwrapped (rate_from_config L c) (asserts N L now
           [(rate_ctx (Some ''https://a.test'') ''1.1.1.1'' ''h'', True),
            (rate_ctx (Some ''https://b.test'') ''1.1.1.1'' ''h'', False),
            (rate_ctx (Some ''https://a.test'') ''1.1.1.1'' ''h'', True)]))"

subsection \<open>They hold\<close>

lemma rate_addresses:
  "parse_ip ''1.2.3.4'' = Some (V4 0x01020304)" "parse_ip ''1.2.3.5'' = Some (V4 0x01020305)"
  "parse_ip ''10.1.2.3'' = Some (V4 0x0A010203)" "parse_ip ''1.1.1.1'' = Some (V4 0x01010101)"
  "parse_ip ''2.2.2.2'' = Some (V4 0x02020202)" "parse_ip ''3.3.3.3'' = Some (V4 0x03030303)"
  "parse_ip ''9.9.9.9'' = Some (V4 0x09090909)"
  by (simp_all add: parse_ip_eval)

text \<open>A check that admits and changes nothing can be repeated.\<close>

lemma asserts_replicate:
  "rate_check N L now ctx lim = (([], Inr ()), lim) \<Longrightarrow> asserts N L now (replicate n (Some ctx, True)) lim"
  by (induction n) simp_all

lemma burst_words: "\<not> (2 :: u32) \<le> 1" "\<not> (16384 :: usize) \<le> 1"
  by (simp_all add: word_le_nat_alt)

lemmas limiter_eval = burst_words
  rate_ctx_def rate_addresses rate_cfg_def rate_from_config_def build_origin_def build_ip_def build_host_def
  build_global_def quota_def rate_check_def check_origin_dim_def check_ip_dim_def check_host_dim_def
  check_global_dim_def and_then_def admit_and_check_def admit_and_check_str_def admit_key_def reject_def
  is_trusted_def example_limiters_def example_bucket_def gov_new_def gov_check_def alist_dash_eval dm_len_def dm_contains_def max_def Let_def

lemma burst_tests:
  "origin_dimension_rejects_after_burst N example_limiters now"
  "first_failing_dimension_wins N example_limiters now"
  by (simp_all add: origin_dimension_rejects_after_burst_def first_failing_dimension_wins_def limiter_eval)

lemma key_tests:
  "ip_dimension_independent_of_origin N example_limiters now"
  "target_host_dimension_buckets_per_host N example_limiters now"
  by (simp_all add: ip_dimension_independent_of_origin_def target_host_dimension_buckets_per_host_def limiter_eval)

lemma cap_tests:
  "global_dimension_caps_total_throughput N example_limiters now"
  "max_keys_rejects_new_keys_when_full N example_limiters now"
  by (simp_all add: global_dimension_caps_total_throughput_def max_keys_rejects_new_keys_when_full_def limiter_eval)

lemma disabled_test: "disabled_admits_everything N L now"
  by (simp add: disabled_admits_everything_def rate_from_config_def rate_ctx_def rate_addresses rate_cfg_def Let_def
      asserts_replicate rate_check_def)

lemma trusted_test: "ip_trusted_cidr_bypasses plain_nets example_limiters now"
proof -
  have "cidr_of ''10.0.0.0/8'' = Some (V4 0x0A000000, 8)" by (simp add: cidr_eval)
  then show ?thesis
    by (simp add: ip_trusted_cidr_bypasses_def plain_nets_def asserts_replicate limiter_eval)
qed

definition escape_dots :: "string \<Rightarrow> string" where
  "escape_dots s = concat (map (\<lambda>c. if c = CHR ''.'' then [CHR 0x5C, c] else [c]) s)"

definition anchored_limiters where
  "anchored_limiters = example_limiters\<lparr>ll_regex_match := (\<lambda>pats s. ''^'' @ escape_dots s @ ''$'' \<in> set pats)\<rparr>"

lemma unlimited_test: "origin_unlimited_pattern_bypasses N anchored_limiters now"
  by (simp add: origin_unlimited_pattern_bypasses_def anchored_limiters_def escape_dots_def asserts_replicate limiter_eval)

end
