(* ===== verification/Test_Stack.thy ===== *)
theory Test_Stack
  imports Unit_Tests_Proxy Connect
begin

text \<open>
  The fixtures of \<open>corx-server/tests/integration_proxy.rs\<close>: a server assembled from a configuration on
  the example libraries, the requests of the tests, and a mock of the upstream that answers mounted
  paths and records what it receives. A test asks the router once and looks at the response.
\<close>

subsection \<open>The stack\<close>

definition base_config :: config where
  "base_config = default_config
     \<lparr>cf_ssrf := default_ssrf_config\<lparr>sf_mode := Strict, sf_extra_allowed_cidrs := [(V4 0x7F000000, 8)]\<rparr>,
      cf_cors := default_cors_config\<lparr>cc_allow_any_origin := True\<rparr>,
      cf_circuit_breaker := default_circuit_breaker_config\<lparr>cb_failure_threshold := 10000\<rparr>,
      cf_rate_limit := default_rate_limit_config\<lparr>rl_enabled := False\<rparr>\<rparr>"

definition make_stack where
  "make_stack mutator =
     server_from_config list_headers plain_nets (alist_dash :: (string, host_circuit) alist_map hosts_lib)
       example_limiters (Inr ()) (mutator base_config)"

definition with_peer :: "http_method \<Rightarrow> string \<Rightarrow> entries \<Rightarrow> string + entries request" where
  "with_peer m target headers =
     bind_res (uri_parse plain_urls target) (\<lambda>uri.
       Inr \<lparr>rq_method = m, rq_uri = uri,
            rq_headers = (if hm_contains list_headers headers ORIGIN then headers
                          else hm_insert list_headers headers ORIGIN ''https://test.local''),
            rq_body = []\<rparr>)"

text \<open>\<open>router.oneshot(request)\<close>: the response and the state of the upstream after it.\<close>

definition oneshot where
  "oneshot E request w b =
     (case build_router list_headers plain_urls plain_nets alist_dash example_limiters E (\<lambda>_. []) (\<lambda>_. False)
             (V4 0x7F000001) request w b of
        (entry, ms, ev, Ready r, w', b') \<Rightarrow> Some (r, w')
      | _ \<Rightarrow> None)"

text \<open>A test: build the stack and the request, ask, look.\<close>

definition responds where
  "responds mutator E request w P =
     unwrapped (make_stack mutator) (\<lambda>b. unwrapped request (\<lambda>request.
       case oneshot (E b) request w b of Some (r, w') \<Rightarrow> P r w' | None \<Rightarrow> False))"

subsection \<open>The mock upstream\<close>

definition mock_authority :: string where "mock_authority = ''127.0.0.1:9000''"
definition upstream_url :: "string \<Rightarrow> string" where
  "upstream_url path_and_query = ''/http://'' @ mock_authority @ path_and_query"

type_synonym mount = "string \<times> string \<times> entries response"

text \<open>What is not mounted is answered with 404.\<close>

definition mock_answer :: "mount list \<Rightarrow> entries request \<Rightarrow> entries response" where
  "mock_answer mounts request =
     (case List.find (\<lambda>(authority, path, r). rq_method request = ''GET'' \<and>
             u_authority (rq_uri request) = Some authority \<and> u_path (rq_uri request) = path) mounts of
        Some (authority, path, r) \<Rightarrow> r
      | None \<Rightarrow> \<lparr>rs_status = 404, rs_headers = [], rs_body = []\<rparr>)"

definition mock_env where
  "mock_env mounts b =
     \<lparr>se_client = \<lparr>ce_now = (\<lambda>_. 0),
        ce_request = (\<lambda>request received cb. (Ready (Inr (mock_answer mounts request)), received @ [request],
            cb))\<rparr>,
      se_uuid = (\<lambda>_. ''0190163d-8694-739b-aea5-966c26f8ad91''), se_others = (\<lambda>_ b. b)\<rparr>"

text \<open>A client that resolves names through the guard of the server it belongs to and reaches nobody else.\<close>

definition resolving_env where
  "resolving_env dns b =
     \<lparr>se_client = dialling_env dns (lp_upstream (sb_policies b)), se_uuid = (\<lambda>_. ''id''), se_others =
         (\<lambda>_ b. b)\<rparr>"

subsection \<open>What a stack is made of\<close>

definition stack_of where
  "stack_of cfg b \<longleftrightarrow>
     (let p = sb_policies b in
        lp_config p = cfg \<and> lp_cors p = cors_from_config list_headers (cf_cors cfg) \<and>
        lp_request_filter p = \<lparr>hf_extra_deny = [''cookie'', ''cookie2'']\<rparr> \<and>
        lp_response_filter p = \<lparr>hf_extra_deny = [''set-cookie'', ''set-cookie2'']\<rparr> \<and>
        rg_origin (lp_guard p) = origin_from_config list_headers (cf_security cfg) \<and>
        \<not> rt_enabled (rg_rate_limit (lp_guard p)) \<and>
        lp_target_policy p = target_from_config (cf_target cfg) \<and>
        lp_circuit p = circuit_from_config alist_dash (cf_circuit_breaker cfg) \<and>
        lp_upstream p = \<lparr>ups_guard = ssrf_new plain_nets (cf_ssrf cfg), ups_config = client_config_of cfg,
          ups_target_policy = target_from_config (cf_target cfg)\<rparr> \<and>
        sb_ready b \<and> sb_immutable_server b = cf_server cfg \<and> sb_immutable_limits b = cf_limits cfg \<and>
        sb_immutable_metrics_endpoint b = ob_metrics_endpoint (cf_observability cfg))"

text \<open>The tests leave the header filters alone and the rate limiter off.\<close>

definition test_config :: "config \<Rightarrow> bool" where
  "test_config cfg \<longleftrightarrow>
     sc_remove_request_headers (cf_security cfg) = [''cookie'', ''cookie2''] \<and>
     sc_remove_response_headers (cf_security cfg) = [''set-cookie'', ''set-cookie2''] \<and>
     \<not> rl_enabled (cf_rate_limit cfg)"

lemma make_stack_builds:
  assumes "test_config (mutator base_config)"
  obtains b where "make_stack mutator = Inr b" "stack_of (mutator base_config) b" "sb_inflight b = 0"
proof -
  let ?cfg = "mutator base_config"
  have "\<exists>p. build_from list_headers plain_nets (alist_dash :: (string, host_circuit) alist_map hosts_lib)
      example_limiters (Inr ()) ?cfg None = Inr p"
    using assms by (simp add: build_from_def Let_def test_config_def default_filters context_err_def upstream_new_def
        rate_from_config_def)
  then obtain p where p: "build_from list_headers plain_nets (alist_dash :: (string, host_circuit) alist_map hosts_lib)
      example_limiters (Inr ()) ?cfg None = Inr p" by blast
  note facts = build_from_InrD [OF p]
  have "\<not> rt_enabled (rg_rate_limit (lp_guard p))"
    using facts(7) assms by (auto simp: test_config_def rate_from_config_def)
  with p facts assms show ?thesis
    by (intro that) (auto simp: make_stack_def server_from_config_def build_policies_def stack_of_def Let_def
        test_config_def default_filters)
qed

text \<open>A test holds when its assertion holds of every stack of its configuration.\<close>

lemma respondsI:
  assumes "test_config (mutator base_config)" "request = Inr rq"
    "\<And>b. stack_of (mutator base_config) b \<Longrightarrow> sb_inflight b = 0 \<Longrightarrow>
       \<exists>r w'. oneshot (E b) rq w b = Some (r, w') \<and> P r w'"
  shows "responds mutator E request w P"
proof -
  from assms(1) obtain b where "make_stack mutator = Inr b" "stack_of (mutator base_config) b" "sb_inflight b = 0"
    by (rule make_stack_builds)
  with assms(2,3) show ?thesis by (fastforce simp: responds_def)
qed

end
