(* ===== verification/Integration_Tests.thy ===== *)
theory Integration_Tests
  imports Test_Stack Unit_Tests_Policy
begin

text \<open>
  The integration tests of \<open>corx-server/tests/integration_proxy.rs\<close>, run through the whole router of the
  model on \<open>Test_Stack\<close>.
\<close>

text \<open>The server on the example libraries.\<close>

type_synonym example_build = "((string, host_circuit) alist_map, string list,
  ip_addr list, unit list, (string, unit) alist_map,
  (ip_addr, unit) alist_map, string list) server_build"

subsection \<open>Through the layers\<close>

text \<open>A request the layers in front of the handler let through.\<close>

definition passes_front :: "config \<Rightarrow> entries request \<Rightarrow> bool" where
  "passes_front cfg rq \<longleftrightarrow>
     header_map_bytes list_headers (rq_headers rq) \<le> ucast (lm_max_request_header_bytes (cf_limits cfg)) \<and>
     lm_inflight_max (cf_limits cfg) = 1000 \<and>
     (rq_method rq = ''OPTIONS'' \<or> au_mode (sc_auth (cf_security cfg)) \<noteq> Bearer \<or>
      check_bearer list_headers (rq_headers rq) (au_bearer_tokens (sc_auth (cf_security cfg))) = Inr ())"

definition proxied_path :: "config \<Rightarrow> entries request \<Rightarrow> bool" where
  "proxied_path cfg rq \<longleftrightarrow>
     u_path (rq_uri rq) \<notin> {''/'', ''/livez'', ''/readyz'', ''/healthz'', ''/iscorsneeded'',
       ob_metrics_endpoint (cf_observability cfg)}"

definition cors_stamped :: "config \<Rightarrow> entries request \<Rightarrow> entries response \<Rightarrow> entries
    response" where
  "cors_stamped cfg rq r = apply_to_response list_headers r (rq_headers rq) (cors_from_config list_headers (cf_cors cfg))"

lemma cors_stamped_status [simp]: "rs_status (cors_stamped cfg rq r) = rs_status r" "rs_body (cors_stamped cfg rq r) =
    rs_body r"
  by (simp_all add: cors_stamped_def apply_to_response_def)

lemma oneshot_routed:
  assumes "stack_of cfg b" "sb_inflight b = 0" "passes_front cfg rq"
    "route_service list_headers plain_urls plain_nets alist_dash example_limiters E (\<lambda>_. []) (V4 0x7F000001) rq w
       (b\<lparr>sb_inflight := 1\<rparr>) = (ms, ev, Ready r, w', b')"
    "lp_cors (sb_policies b') = lp_cors (sb_policies b)"
  shows "oneshot E rq w b = Some (cors_stamped cfg rq r, w')"
proof -
  let ?service = "route_service list_headers plain_urls plain_nets alist_dash example_limiters E (\<lambda>_. []) (V4
      0x7F000001)"
  from assms(1) have b: "lp_config (sb_policies b) = cfg" "lp_cors (sb_policies b) = cors_from_config list_headers
      (cf_cors cfg)"
    "sb_immutable_limits b = cf_limits cfg"
    by (simp_all add: stack_of_def Let_def)
  have "auth_layer list_headers ?service rq w (b\<lparr>sb_inflight := 1\<rparr>) = (ms, ev, Ready r, w', b')"
    using assms(3,4) by (auto simp: auth_layer_def passes_front_def b Let_def)
  then have "load_shed_layer list_headers (auth_layer list_headers ?service) rq w b = (ms, ev, Ready r, w', permit_drop b')"
    using assms(2,3) by (simp add: load_shed_layer_def passes_front_def b Let_def)
  moreover have "\<not> (ucast (lm_max_request_header_bytes (cf_limits cfg)) :: u64) < header_map_bytes list_headers
      (rq_headers rq)"
    using assms(3) by (simp add: passes_front_def not_less)
  ultimately have "header_limit_layer list_headers (load_shed_layer list_headers (auth_layer list_headers ?service)) rq w b =
      (ms, ev, Ready r, w', permit_drop b')"
    by (simp add: header_limit_layer_def b)
  then show ?thesis
    by (simp add: oneshot_def build_router_def access_log_layer_def cors_layer_def timeout_layer_def cors_stamped_def
        assms(5) b Let_def)
qed

lemma oneshot_served:
  assumes "stack_of cfg b" "sb_inflight b = 0" "passes_front cfg rq" "proxied_path cfg rq"
    "serve list_headers plain_urls plain_nets alist_dash example_limiters E rq (V4 0x7F000001) w
       (b\<lparr>sb_inflight := 1\<rparr>) = (ms, ev, Ready outcome, w', b')"
    "lp_cors (sb_policies b') = lp_cors (sb_policies b)"
  shows "oneshot E rq w b =
    Some (cors_stamped cfg rq (case outcome of Inr r \<Rightarrow> r | Inl e \<Rightarrow> into_response list_headers e), w')"
proof -
  from assms(1) have "sb_immutable_metrics_endpoint b = ob_metrics_endpoint (cf_observability cfg)"
    by (simp add: stack_of_def Let_def)
  with assms(4) have "ops_route list_headers [] (b\<lparr>sb_inflight := 1\<rparr>) (u_path (rq_uri rq)) = None"
    by (simp add: ops_route_def proxied_path_def)
  with assms(5) obtain ms' where
    "route_service list_headers plain_urls plain_nets alist_dash example_limiters E (\<lambda>_. []) (V4 0x7F000001) rq w
       (b\<lparr>sb_inflight := 1\<rparr>) =
     (ms', ev, Ready (case outcome of Inr r \<Rightarrow> r | Inl e \<Rightarrow> into_response list_headers e), w', b')"
    by (cases outcome) (auto simp: route_service_def proxy_def respond_def Let_def)
  from oneshot_routed [OF assms(1-3) this assms(6)] show ?thesis .
qed


subsection \<open>The requests of the tests\<close>

definition peer_request :: "http_method \<Rightarrow> string \<Rightarrow> entries \<Rightarrow> entries request" where
  "peer_request m path headers =
     \<lparr>rq_method = m,
      rq_uri = \<lparr>u_scheme = None, u_authority = None, u_host = None, u_path = path, u_query = None\<rparr>,
      rq_headers = headers, rq_body = []\<rparr>"

text \<open>A test that stamps no origin of its own gets the default one.\<close>

abbreviation test_local :: entries where "test_local \<equiv> [(ORIGIN, ''https://test.local'')]"

lemma with_peer_eq:
  assumes "starts_with ''/'' path" "CHR ''?'' \<notin> set path"
  shows "with_peer m path headers = Inr (peer_request m path
    (if hm_contains list_headers headers ORIGIN then headers
     else hm_insert list_headers headers ORIGIN ''https://test.local''))"
proof -
  have "split_once ''?'' path = None"
    using assms(2) by (cases "split_once ''?'' path") (auto simp: split_once_char)
  then show ?thesis
    using assms(1) by (simp add: with_peer_def peer_request_def plain_urls_sel plain_uri_parse_def plain_query_def)
qed

subsection \<open>What the handler answers\<close>

lemma into_response_status: "rs_status (into_response list_headers e) = kind_status (error_kind_of e)"
  by (simp add: into_response_def to_payload_def json_response_def typed_response_def Let_def split: option.split)

text \<open>A request that reaches the handler of an idle server.\<close>

definition reaches_handler where
  "reaches_handler cfg b rq \<longleftrightarrow> stack_of cfg b \<and> sb_inflight b = 0 \<and> passes_front cfg rq
      \<and> proxied_path cfg rq"

lemma served_as:
  assumes "reaches_handler cfg b rq"
    "serve list_headers plain_urls plain_nets alist_dash example_limiters E rq (V4 0x7F000001) w
       (b\<lparr>sb_inflight := 1\<rparr>) = (ms, ev, Ready outcome, w', b')"
    "lp_cors (sb_policies b') = lp_cors (sb_policies b)"
  shows "oneshot E rq w b =
    Some (cors_stamped cfg rq (case outcome of Inr r \<Rightarrow> r | Inl e \<Rightarrow> into_response list_headers e), w')"
  using assms(1) by (intro oneshot_served [OF _ _ _ _ assms(2,3)]) (simp_all add: reaches_handler_def)

lemma policies:
  assumes "reaches_handler cfg b rq"
  shows "lp_config (sb_policies b) = cfg"
    "rg_origin (lp_guard (sb_policies b)) = origin_from_config list_headers (cf_security cfg)"
    "lp_cors (sb_policies b) = cors_from_config list_headers (cf_cors cfg)"
    "lp_target_policy (sb_policies b) = target_from_config (cf_target cfg)"
    "check_rate list_headers plain_nets example_limiters now request ip host (lp_guard (sb_policies b)) =
      (([], Inr ()), lp_guard (sb_policies b))"
  using assms by (simp_all add: reaches_handler_def stack_of_def Let_def check_rate_def rate_check_def)

lemma preflight_refused:
  assumes "reaches_handler cfg b rq" "is_preflight list_headers rq" "pf_mode (sc_preflight (cf_security cfg)) = Enforce"
    "origin_evaluate list_headers (origin_from_config list_headers (cf_security cfg)) (rq_method rq) (rq_headers rq) = Inl e"
  shows "oneshot E rq w b = Some (cors_stamped cfg rq (into_response list_headers e), w)"
  using served_as [OF assms(1), of E w "[]" "[]" "Inl e" w] assms(2-)
  by (simp add: serve_def preflight_guards_def check_origin_def policies [OF assms(1)] Let_def)

lemma preflight_answered:
  assumes "reaches_handler cfg b rq" "is_preflight list_headers rq" "pf_mode (sc_preflight (cf_security cfg)) = Enforce
      \<longrightarrow>
    origin_evaluate list_headers (origin_from_config list_headers (cf_security cfg)) (rq_method rq) (rq_headers rq) = Inr ()"
  shows "oneshot E rq w b = Some (cors_stamped cfg rq
    (build_preflight_response list_headers rq (cors_from_config list_headers (cf_cors cfg))), w)"
  using served_as [OF assms(1), of E w "[]" "[]"
      "Inr (build_preflight_response list_headers rq (cors_from_config list_headers (cf_cors cfg)))" w] assms(2-)
  by (simp add: serve_def preflight_guards_def check_origin_def policies [OF assms(1)] with_guard_def Let_def)

lemma origin_refused:
  assumes "reaches_handler cfg b rq" "\<not> is_preflight list_headers rq"
    "origin_evaluate list_headers (origin_from_config list_headers (cf_security cfg)) (rq_method rq) (rq_headers rq) = Inl e"
  shows "oneshot E rq w b = Some (cors_stamped cfg rq (into_response list_headers e), w)"
  using served_as [OF assms(1), of E w "[]" "[]" "Inl e" w] assms(2-)
  by (simp add: serve_def check_origin_def policies [OF assms(1)] Let_def)

lemma target_refused:
  assumes "reaches_handler cfg b rq" "\<not> is_preflight list_headers rq"
    "origin_evaluate list_headers (origin_from_config list_headers (cf_security cfg)) (rq_method rq) (rq_headers rq) = Inr ()"
    "extract_target plain_urls (rq_uri rq) = Inr t" "check_target plain_urls (target_from_config (cf_target cfg)) t = Inl e"
  shows "oneshot E rq w b = Some (cors_stamped cfg rq (into_response list_headers e), w)"
  using served_as [OF assms(1), of E w "[]" "[]" "Inl e" w] assms(2-)
  by (simp add: serve_def check_origin_def policies [OF assms(1)] Let_def)


lemma ops_answered:
  assumes "stack_of cfg b" "sb_inflight b = 0" "passes_front cfg rq" "rq_method rq = ''GET''"
    "\<And>b' :: example_build. sb_ready b' = sb_ready b \<Longrightarrow> ops_route list_headers [] b' (u_path (rq_uri
        rq)) = Some r"
  shows "oneshot E rq w b = Some (cors_stamped cfg rq r, w)"
  using assms(4) assms(5) [of "b\<lparr>sb_inflight := 1\<rparr>"]
  by (intro oneshot_routed [OF assms(1-3), where b' = "b\<lparr>sb_inflight := 1\<rparr>" and ms = "[]" and ev = "[]"])
    (simp_all add: route_service_def)

lemma headers_refused:
  assumes "stack_of cfg b"
    "(ucast (lm_max_request_header_bytes (cf_limits cfg)) :: u64) < header_map_bytes list_headers (rq_headers rq)"
  shows "oneshot E rq w b = Some (cors_stamped cfg rq (text_response list_headers 431 ''request header fields too large''), w)"
  using assms by (simp add: oneshot_def build_router_def access_log_layer_def cors_layer_def timeout_layer_def
      header_limit_layer_def cors_stamped_def stack_of_def Let_def)

lemma token_refused:
  assumes "stack_of cfg b" "sb_inflight b = 0"
    "header_map_bytes list_headers (rq_headers rq) \<le> ucast (lm_max_request_header_bytes (cf_limits cfg))"
    "lm_inflight_max (cf_limits cfg) = 1000" "rq_method rq \<noteq> ''OPTIONS''" "proxied_path cfg rq"
    "au_mode (sc_auth (cf_security cfg)) = Bearer"
    "check_bearer list_headers (rq_headers rq) (au_bearer_tokens (sc_auth (cf_security cfg))) = Inl e"
  shows "oneshot E rq w b = Some (cors_stamped cfg rq (into_response list_headers e), w)"
  using assms by (simp add: oneshot_def build_router_def access_log_layer_def cors_layer_def timeout_layer_def
      header_limit_layer_def load_shed_layer_def auth_layer_def is_ops_path_def proxied_path_def
      cors_stamped_def stack_of_def permit_drop_def Let_def not_less)

text \<open>A test whose response is known for every stack of its configuration.\<close>

lemma answered_test:
  assumes "test_config (mutator base_config)" "request = Inr rq"
    "\<And>b. stack_of (mutator base_config) b \<Longrightarrow> sb_inflight b = 0 \<Longrightarrow>
       oneshot (E b) rq w b = Some (cors_stamped (mutator base_config) rq r, w')"
    "P (cors_stamped (mutator base_config) rq r) w'"
  shows "responds mutator E request w P"
  using assms by (intro respondsI [where mutator = mutator, OF assms(1,2)]) blast

lemma handled_test:
  assumes "test_config (mutator base_config)" "request = Inr rq" "passes_front (mutator base_config) rq"
    "proxied_path (mutator base_config) rq"
    "\<And>b. reaches_handler (mutator base_config) b rq \<Longrightarrow>
       oneshot (E b) rq w b = Some (cors_stamped (mutator base_config) rq r, w')"
    "P (cors_stamped (mutator base_config) rq r) w'"
  shows "responds mutator E request w P"
  using assms(3-) by (intro answered_test [where mutator = mutator, OF assms(1,2)]) (simp_all add: reaches_handler_def)

subsection \<open>Configurations of the tests\<close>

definition blacklisting :: "config \<Rightarrow> config" where
  "blacklisting cfg = cfg\<lparr>cf_security := (cf_security cfg)
     \<lparr>sc_origin_blacklist := sc_origin_blacklist (cf_security cfg) @ [''https://blocked.example.com'']\<rparr>\<rparr>"

definition open_preflight :: "config \<Rightarrow> config" where
  "open_preflight cfg = cfg\<lparr>cf_security := (cf_security cfg)
     \<lparr>sc_preflight := (sc_preflight (cf_security cfg))\<lparr>pf_mode := Open_Mode\<rparr>\<rparr>\<rparr>"

definition small_headers :: "config \<Rightarrow> config" where
  "small_headers cfg = cfg\<lparr>cf_limits := (cf_limits cfg)\<lparr>lm_max_request_header_bytes := 64\<rparr>\<rparr>"

definition allowlisting :: "string list \<Rightarrow> config \<Rightarrow> config" where
  "allowlisting hosts cfg = cfg\<lparr>cf_target := (cf_target cfg)\<lparr>tc_mode := Allowlist, tc_hosts :=
      hosts\<rparr>\<rparr>"

definition with_token :: "config \<Rightarrow> config" where
  "with_token cfg = cfg\<lparr>cf_security := (cf_security cfg)
     \<lparr>sc_auth := (sc_auth (cf_security cfg))\<lparr>au_mode := Bearer, au_bearer_tokens :=
         [''s3cret'']\<rparr>\<rparr>\<rparr>"

definition redirecting :: "redirect_policy \<Rightarrow> config \<Rightarrow> config" where
  "redirecting policy cfg = cfg\<lparr>cf_limits := (cf_limits cfg)\<lparr>lm_redirect_policy := policy\<rparr>\<rparr>"

definition guarded_loopback :: "config \<Rightarrow> config" where
  "guarded_loopback cfg = cfg\<lparr>cf_ssrf := (cf_ssrf cfg)\<lparr>sf_extra_allowed_cidrs := []\<rparr>\<rparr>"

definition allowing_loopback :: "config \<Rightarrow> config" where
  "allowing_loopback cfg = cfg\<lparr>cf_ssrf := (cf_ssrf cfg)
     \<lparr>sf_extra_allowed_cidrs := sf_extra_allowed_cidrs (cf_ssrf cfg) @ [(V4 0x7F000000, 8)]\<rparr>\<rparr>"

lemmas test_configs = allowing_loopback_def blacklisting_def open_preflight_def small_headers_def allowlisting_def with_token_def
  redirecting_def guarded_loopback_def base_config_def default_config_def default_security_config_def
  default_limits_config_def default_inflight_max_def default_observability_config_def default_auth_config_def
  default_preflight_config_def default_target_config_def default_schemes_def

subsection \<open>The tests that end before the upstream\<close>

definition livez_always_reports_healthy :: bool where
  "livez_always_reports_healthy =
     responds id (mock_env []) (with_peer ''GET'' ''/livez'' []) [] (\<lambda>r _. rs_status r = 200)"

definition readyz_starts_ready :: bool where
  "readyz_starts_ready =
     responds id (mock_env []) (with_peer ''GET'' ''/readyz'' []) [] (\<lambda>r _. rs_status r = 200)"

definition cors_preflight_returns_204_with_allow_headers :: bool where
  "cors_preflight_returns_204_with_allow_headers =
     responds id (mock_env [])
       (with_peer ''OPTIONS'' (upstream_url ''/foo'')
         [(ORIGIN, ''https://app.example.com''), (ACRM, ''POST''), (ACRH, ''x-custom'')]) []
       (\<lambda>r _. rs_status r = 204 \<and> hm_get list_headers (rs_headers r) ACAO = Some ''https://app.example.com'' \<and>
          hm_contains list_headers (rs_headers r) ACAM \<and> hm_contains list_headers (rs_headers r) ACAH)"

definition origin_blacklist_rejects_listed_origin :: bool where
  "origin_blacklist_rejects_listed_origin =
     responds blacklisting (mock_env [])
       (with_peer ''GET'' (upstream_url ''/x'') [(ORIGIN, ''https://blocked.example.com'')]) []
       (\<lambda>r _. rs_status r = 403)"

definition blocked_preflight :: "string + entries request" where
  "blocked_preflight = with_peer ''OPTIONS'' (upstream_url ''/x'')
     [(ORIGIN, ''https://blocked.example.com''), (ACRM, ''GET'')]"

definition origin_blacklist_rejects_preflight_by_default :: bool where
  "origin_blacklist_rejects_preflight_by_default =
     responds blacklisting (mock_env []) blocked_preflight [] (\<lambda>r _. rs_status r = 403)"

definition preflight_open_mode_skips_origin_guard :: bool where
  "preflight_open_mode_skips_origin_guard =
     responds (open_preflight \<circ> blacklisting) (mock_env []) blocked_preflight [] (\<lambda>r _. rs_status r = 204)"

definition oversized_headers_return_431 :: bool where
  "oversized_headers_return_431 =
     responds small_headers (mock_env [])
       (with_peer ''GET'' (upstream_url ''/x'') [(''x-big'', replicate 200 CHR ''x'')]) []
       (\<lambda>r _. rs_status r = 431)"

definition target_allowlist_rejects_other_hosts :: bool where
  "target_allowlist_rejects_other_hosts =
     responds (allowlisting [''allowed.example'']) (mock_env []) (with_peer ''GET'' (upstream_url ''/x'') []) []
       (\<lambda>r _. rs_status r = 403)"

definition bearer_auth_rejects_without_token :: bool where
  "bearer_auth_rejects_without_token =
     responds with_token (mock_env []) (with_peer ''GET'' (upstream_url ''/x'') []) [] (\<lambda>r _. rs_status r = 401)"

subsection \<open>They hold\<close>

lemmas front_eval = passes_front_def proxied_path_def peer_request_def test_configs header_map_bytes_def
  list_headers_eval ORIGIN_def cors_names sat_add_def Let_def

lemma ops_tests:
  "livez_always_reports_healthy" "readyz_starts_ready"
proof -
  have config: "test_config (id base_config)" by (simp add: test_config_def test_configs)
  have front: "passes_front (id base_config) (peer_request ''GET'' path test_local)" for path
    by (simp add: front_eval)
  have answered: "responds id (mock_env []) (with_peer ''GET'' path []) [] (\<lambda>r _. rs_status r = 200)"
    if path: "starts_with ''/'' path" "CHR ''?'' \<notin> set path" and status: "rs_status r = 200"
      and route: "\<And>b :: example_build. sb_ready b \<Longrightarrow> ops_route list_headers [] b path = Some r" for path r
  proof (rule answered_test [where mutator = id and r = r and w' = "[]", OF config])
    show "with_peer ''GET'' path [] = Inr (peer_request ''GET'' path test_local)"
      using path by (simp add: with_peer_eq list_headers_eval)
  qed (use front route status in \<open>auto simp: stack_of_def Let_def peer_request_def intro!: ops_answered\<close>)
  show "livez_always_reports_healthy"
    unfolding livez_always_reports_healthy_def
    by (rule answered) (simp_all add: starts_with_def ops_route_def, simp add: livez_def text_response_def typed_response_def)
  show "readyz_starts_ready"
    unfolding readyz_starts_ready_def
    by (rule answered) (simp_all add: starts_with_def ops_route_def, simp add: readyz_def json_response_def typed_response_def)
qed

lemma test_requests:
  "CHR ''?'' \<notin> set path \<Longrightarrow>
     (if hm_contains list_headers headers ORIGIN then headers
      else hm_insert list_headers headers ORIGIN ''https://test.local'') = headers' \<Longrightarrow>
     with_peer m (upstream_url path) headers = Inr (peer_request m (upstream_url path) headers')"
  by (auto simp: with_peer_eq starts_with_def upstream_url_def mock_authority_def)

text \<open>The reflecting policy of the tests answers a preflight with the origin it comes from.\<close>

lemma reflected_preflight:
  defines "p \<equiv> cors_from_config list_headers (default_cors_config\<lparr>cc_allow_any_origin := True\<rparr>)"
  assumes "hm_get list_headers (rq_headers rq) ORIGIN = Some org" "visible org"
  defines "h \<equiv> rs_headers (apply_to_response list_headers (build_preflight_response list_headers rq p)
      (rq_headers rq) p)"
  shows "hm_get list_headers h ACAO = Some org" "hm_contains list_headers h ACAM" "hm_contains list_headers h ACAH"
proof -
  have p: "resolve_allow_origin list_headers p (Some org) = Some org" "cp_allowed_methods p \<noteq> None"
      "cp_allowed_headers p \<noteq> None"
    using assms(3) by (simp_all add: p_def resolve_allow_origin_def cors_from_config_def compile_mode_def
        default_cors_config_def
        default_allowed_methods_def default_allowed_headers_def encode_token_list_def list_headers_eval)
  have "hm_get_all list_headers h ACAO = [org]" "hm_get_all list_headers h ACAM \<noteq> []" "hm_get_all list_headers h
      ACAH \<noteq> []"
    using build_preflight_response_headers [OF list_hdrs.header_map_axioms, of rq p] p assms(2)
    by (auto simp: h_def list_hdrs.get_all_response cors_names Let_def configured_or_echo_def)
  then show "hm_get list_headers h ACAO = Some org" "hm_contains list_headers h ACAM" "hm_contains list_headers h ACAH"
    by (simp_all add: list_hdrs.get_first list_hdrs.contains_get_all)
qed

definition mock_target :: "string \<Rightarrow> plain_url target_url" where
  "mock_target path = \<lparr>tu_url = \<lparr>pu_scheme = ''http'', pu_host = ''127.0.0.1'', pu_port = Some 9000,
     pu_path = path, pu_query = None\<rparr>, tu_host = ''127.0.0.1'', tu_port = 9000\<rparr>"

definition mock_uri :: "string \<Rightarrow> uri" where
  "mock_uri path = \<lparr>u_scheme = Some ''http'', u_authority = Some mock_authority, u_host = Some ''127.0.0.1'',
     u_path = path, u_query = None\<rparr>"

lemma mock_extract:
  assumes "path \<in> {''/x'', ''/payload'', ''/ok'', ''/start'', ''/bounce'', ''/echo''}"
  shows "extract_target plain_urls (rq_uri (peer_request m (upstream_url path) headers)) = Inr (mock_target path)"
    "to_uri plain_urls (mock_target path) = Inr (mock_uri path)"
  using assms
  by (auto simp: peer_request_def upstream_url_def mock_authority_def mock_target_def mock_uri_def extract_target_def
      candidate_from_uri_def trim_start_char_def normalize_scheme_def validate_url_def install_host_def http_scheme_def
      MAX_HOST_LEN_def to_uri_def host_with_port_def Let_def plain_urls_eval)

lemma refusing_tests:
  "cors_preflight_returns_204_with_allow_headers" "origin_blacklist_rejects_listed_origin"
  "origin_blacklist_rejects_preflight_by_default" "preflight_open_mode_skips_origin_guard"
  "oversized_headers_return_431" "target_allowlist_rejects_other_hosts" "bearer_auth_rejects_without_token"
proof -
  let ?blocked = "[(ORIGIN, ''https://blocked.example.com'')]"
  let ?preflight = "peer_request ''OPTIONS'' (upstream_url ''/x'') [(ORIGIN, ''https://blocked.example.com''), (ACRM, ''GET'')]"
  note eval = front_eval upstream_url_def mock_authority_def
  have configs: "test_config (blacklisting base_config)" "test_config ((open_preflight \<circ> blacklisting) base_config)"
    "test_config (allowlisting hosts base_config)" "test_config (small_headers base_config)" "test_config (with_token
        base_config)"
    "test_config (id base_config)" for hosts
    by (simp_all add: test_config_def test_configs)
  have judged: "rq_method (peer_request m path h) = m" "rq_headers (peer_request m path h) = h" for m path h
    by (simp_all add: peer_request_def)
  have listed: "origin_evaluate list_headers (origin_from_config list_headers (cf_security (blacklisting base_config)))
      (rq_method (peer_request m path ((ORIGIN, ''https://blocked.example.com'') # h)))
      (rq_headers (peer_request m path ((ORIGIN, ''https://blocked.example.com'') # h))) =
      Inl (OriginNotAllowed ''https://blocked.example.com'')" if "m = ''GET'' \<or> m = ''OPTIONS''" for m path h
    using that
    by (auto simp: judged origin_evaluate_def origin_from_config_def test_configs to_origin_set_def cors_names
        list_headers_eval List.map_filter_simps)
  have admitted: "origin_evaluate list_headers (origin_from_config list_headers (cf_security (allowlisting hosts base_config)))
      (rq_method (peer_request ''GET'' path test_local)) (rq_headers (peer_request ''GET'' path test_local)) = Inr ()"
    for hosts path
    by (simp add: judged origin_evaluate_def origin_from_config_def test_configs to_origin_set_def cors_names
        list_headers_eval List.map_filter_simps contains_name_def)
  show "origin_blacklist_rejects_listed_origin"
    unfolding origin_blacklist_rejects_listed_origin_def
    by (rule handled_test, rule configs, rule test_requests)
      (simp, simp add: list_headers_eval, simp add: eval, simp add: eval, rule origin_refused, assumption,
       simp add: is_preflight_def judged, rule listed, simp, simp add: into_response_status)
  show "origin_blacklist_rejects_preflight_by_default"
    unfolding origin_blacklist_rejects_preflight_by_default_def blocked_preflight_def
    by (rule handled_test, rule configs, rule test_requests)
      (simp, simp add: list_headers_eval, simp add: eval, simp add: eval, rule preflight_refused, assumption,
       simp add: is_preflight_def eval, simp add: test_configs, rule listed, simp, simp add: into_response_status)
  show "preflight_open_mode_skips_origin_guard"
    unfolding preflight_open_mode_skips_origin_guard_def blocked_preflight_def
    by (rule handled_test, rule configs, rule test_requests)
      (simp, simp add: list_headers_eval, simp add: eval, simp add: eval, rule preflight_answered, assumption,
       simp add: is_preflight_def eval, simp add: test_configs, simp add: build_preflight_response_def Let_def)
  show "oversized_headers_return_431"
    unfolding oversized_headers_return_431_def
    by (rule answered_test, rule configs, rule test_requests)
      (simp, simp add: list_headers_sel ORIGIN_def, rule headers_refused, assumption,
       simp add: judged header_map_bytes_def list_headers_sel sat_add_def test_configs,
       simp add: text_response_def typed_response_def)
  show "bearer_auth_rejects_without_token"
    unfolding bearer_auth_rejects_without_token_def
    by (rule answered_test, rule configs, rule test_requests)
      (simp, simp add: list_headers_eval, rule token_refused, assumption, assumption, simp add: eval, simp add: test_configs,
       simp add: judged, simp add: eval, simp add: test_configs, simp add: test_configs check_bearer_def judged
           list_headers_eval ORIGIN_def AUTHORIZATION_def,
       simp add: into_response_status)
  show "target_allowlist_rejects_other_hosts"
    unfolding target_allowlist_rejects_other_hosts_def
    by (rule handled_test, rule configs, rule test_requests)
      (simp, simp add: list_headers_eval, simp add: eval, simp add: eval, rule target_refused, assumption,
       simp add: is_preflight_def judged, rule admitted, rule mock_extract, simp,
       simp add: check_target_def check_authority_def target_from_config_def test_configs mock_target_def plain_urls_eval
         host_matches_def str_simps, simp add: into_response_status)
  have greeted: "origin_evaluate list_headers (origin_from_config list_headers (cf_security (id base_config)))
      (rq_method (peer_request ''OPTIONS'' path ((ORIGIN, ''https://app.example.com'') # h)))
      (rq_headers (peer_request ''OPTIONS'' path ((ORIGIN, ''https://app.example.com'') # h))) = Inr ()" for path h
    by (simp add: judged origin_evaluate_def origin_from_config_def test_configs to_origin_set_def cors_names
        list_headers_eval List.map_filter_simps contains_name_def)
  have cors: "cf_cors (id base_config) = default_cors_config\<lparr>cc_allow_any_origin := True\<rparr>"
    by (simp add: base_config_def default_config_def)
  show "cors_preflight_returns_204_with_allow_headers"
    unfolding cors_preflight_returns_204_with_allow_headers_def
    by (rule handled_test, rule configs, rule test_requests)
      (simp, simp add: list_headers_eval, simp add: eval, simp add: eval, rule preflight_answered, assumption,
       simp add: is_preflight_def eval, rule impI, rule greeted,
       simp only: cors_stamped_def cors, intro conjI,
       simp add: apply_to_response_def build_preflight_response_def Let_def,
       (rule reflected_preflight, simp add: judged list_headers_eval, simp add: str_simps)+)
qed

end
