(* ===== verification/Integration_Upstream.thy ===== *)
theory Integration_Upstream
  imports Integration_Tests
begin

text \<open>
  The integration tests that reach the upstream: what the client engine makes of the answers of a mock,
  and what comes back through the handler.
\<close>

subsection \<open>From the handler to the upstream and back\<close>

text \<open>The request the handler makes of \<open>rq\<close>.\<close>

definition outbound where
  "outbound fresh_id b rq t uri =
     \<lparr>rq_method = rq_method rq, rq_uri = uri,
      rq_headers = outbound_headers list_headers plain_urls fresh_id (b :: example_build) rq t (V4 0x7F000001),
      rq_body = axum_to_upstream_body (rq_body rq)\<rparr>"

lemma executed:
  fixes b :: example_build
  assumes "reaches_handler cfg b rq" "\<not> is_preflight list_headers rq"
    "origin_evaluate list_headers (origin_from_config list_headers (cf_security cfg)) (rq_method rq) (rq_headers rq) = Inr ()"
    "extract_target plain_urls (rq_uri rq) = Inr t" "check_target plain_urls (target_from_config (cf_target cfg)) t = Inr ()"
    "to_uri plain_urls t = Inr uri" "\<And>w b. se_others E w b = b"
    "execute list_headers plain_urls alist_dash (se_client E) (lp_upstream (sb_policies b)) (outbound (se_uuid E w) b
        rq t uri) w
       (lp_circuit (sb_policies b)) = (ms, ev, Ready outcome, w', cb)"
  shows "oneshot E rq w b = Some (cors_stamped cfg rq (case outcome of
      Inr r \<Rightarrow> shape_response list_headers plain_urls r b t (lm_redirect_policy (cf_limits cfg))
    | Inl e \<Rightarrow> into_response list_headers e), w')"
proof -
  let ?b = "b\<lparr>sb_inflight := 1\<rparr>"
  have "\<exists>ms. execute_proxy list_headers plain_urls alist_dash E rq t (V4 0x7F000001) w ?b =
      (ms, ev, Ready (map_sum id (\<lambda>r. shape_response list_headers plain_urls r b t (lm_redirect_policy
          (cf_limits cfg))) outcome),
       w', with_circuit cb ?b)"
    using assms(6-8) policies(1) [OF assms(1)]
    by (auto simp: execute_proxy_def outbound_def outbound_headers_def shape_response_def with_circuit_def Let_def
        split: sum.split)
  then obtain ms where "execute_proxy list_headers plain_urls alist_dash E rq t (V4 0x7F000001) w ?b =
      (ms, ev, Ready (map_sum id (\<lambda>r. shape_response list_headers plain_urls r b t (lm_redirect_policy
          (cf_limits cfg))) outcome),
       w', with_circuit cb ?b)" ..
  then have "oneshot E rq w b = Some (cors_stamped cfg rq
      (case map_sum id (\<lambda>r. shape_response list_headers plain_urls r b t (lm_redirect_policy (cf_limits cfg)))
          outcome of
         Inr r \<Rightarrow> r | Inl e \<Rightarrow> into_response list_headers e), w')"
    using assms(2-5) policies [OF assms(1)]
    by (intro served_as [OF assms(1), where b' = "with_circuit cb ?b"]) (simp_all add: serve_def check_origin_def
        with_guard_def with_circuit_def Let_def)
  then show ?thesis by (cases outcome) simp_all
qed

text \<open>The mock is asked once and its answer, not a redirect to follow, is the outcome.\<close>

lemma fresh_check: "\<exists>cb. check_circuit alist_dash now host (circuit_from_config alist_dash c) = ([], Inr (), cb)"
  by (auto simp: check_circuit_def circuit_from_config_def transition_on_check_def entry_or_new_def alist_dash_sel
      am_get_empty Let_def host_circuit_new_def)

definition mock_client :: "mount list \<Rightarrow> (entries request list, entries, 'm) client_env" where
  "mock_client mounts =
     \<lparr>ce_now = (\<lambda>_. 0),
      ce_request = (\<lambda>request received cb. (Ready (Inr (mock_answer mounts request)), received @ [request], cb))\<rparr>"

lemma mock_env_client [simp]: "se_client (mock_env mounts b) = mock_client mounts"
  by (simp add: mock_env_def mock_client_def)

lemma mock_execute:
  assumes "check_uri (ups_target_policy u) (rq_uri req) = Inr ()" "mock_answer mounts req = r"
    "\<not> is_redirect (rs_status r) \<or> cl_redirect_policy (ups_config u) = Rewrite"
  shows "\<exists>ms ev cb. execute list_headers plain_urls alist_dash (mock_client mounts) u req w
    (circuit_from_config alist_dash c) = (ms, ev, Ready (Inr r), w @ [req], cb)"
proof -
  obtain cb where "check_circuit alist_dash 0 (host_of (rq_uri req)) (circuit_from_config alist_dash c) = ([], Inr (), cb)"
    using fresh_check by blast
  with assms show ?thesis
    by (auto simp: execute_def execute_loop.simps split_initial_def hop_turn_def hop_admit_def mock_client_def
        after_response_def Let_def split: prod.split)
qed

definition mock_uuid :: string where "mock_uuid = ''0190163d-8694-739b-aea5-966c26f8ad91''"

lemma mock_env_uuid [simp]: "se_uuid (mock_env mounts b) w = mock_uuid"
  by (simp add: mock_env_def mock_uuid_def)

lemma mock_env_others [simp]: "se_others (mock_env mounts b) w b' = b'"
  by (simp add: mock_env_def)

definition mock_paths :: "string set" where
  "mock_paths = {''/x'', ''/payload'', ''/ok'', ''/start'', ''/bounce'', ''/echo''}"

lemma asked_test:
  fixes mutator rq defines "cfg \<equiv> mutator base_config"
  assumes "test_config cfg" "request = Inr rq" "rq_method rq = ''GET''" "passes_front cfg rq" "proxied_path cfg rq"
    "origin_evaluate list_headers (origin_from_config list_headers (cf_security cfg)) ''GET'' (rq_headers rq) = Inr ()"
    "extract_target plain_urls (rq_uri rq) = Inr t" "check_target plain_urls (target_from_config (cf_target cfg)) t = Inr ()"
    "to_uri plain_urls t = Inr uri" "\<And>b w b'. se_others (E b) w b' = b'"
    "\<And>b :: example_build. stack_of cfg b \<Longrightarrow> \<exists>ms ev outcome w' cb.
       execute list_headers plain_urls alist_dash (se_client (E b)) (lp_upstream (sb_policies b))
         (outbound (se_uuid (E b) w) b rq t uri) w (circuit_from_config alist_dash (cf_circuit_breaker cfg)) =
         (ms, ev, Ready outcome, w', cb) \<and>
       P (cors_stamped cfg rq (case outcome of
           Inr r \<Rightarrow> shape_response list_headers plain_urls r b t (lm_redirect_policy (cf_limits cfg))
         | Inl e \<Rightarrow> into_response list_headers e)) w'"
  shows "responds mutator E request w P"
proof (rule respondsI)
  show "test_config (mutator base_config)" "request = Inr rq" using assms by simp_all
  fix b :: example_build assume b: "stack_of (mutator base_config) b" "sb_inflight b = 0"
  then have reach: "reaches_handler cfg b rq" "lp_circuit (sb_policies b) = circuit_from_config alist_dash
      (cf_circuit_breaker cfg)"
    using assms(5,6) by (simp_all add: reaches_handler_def stack_of_def cfg_def Let_def)
  from assms(12) b(1) obtain ms ev outcome w' cb where
    run: "execute list_headers plain_urls alist_dash (se_client (E b)) (lp_upstream (sb_policies b))
      (outbound (se_uuid (E b) w) b rq t uri) w (lp_circuit (sb_policies b)) = (ms, ev, Ready outcome, w', cb)"
    and P: "P (cors_stamped cfg rq (case outcome of
           Inr r \<Rightarrow> shape_response list_headers plain_urls r b t (lm_redirect_policy (cf_limits cfg))
         | Inl e \<Rightarrow> into_response list_headers e)) w'"
    unfolding reach(2) cfg_def by blast
  have "\<not> is_preflight list_headers rq" using assms(4) by (simp add: is_preflight_def)
  with executed [OF reach(1) _ _ assms(8-11) run] assms(4,7) P
  show "\<exists>r w'. oneshot (E b) rq w b = Some (r, w') \<and> P r w'" by simp
qed

lemma mocked_test:
  fixes mutator path h defines "cfg \<equiv> mutator base_config" and "rq \<equiv> peer_request ''GET'' (upstream_url path) h"
  assumes "test_config cfg" "request = Inr rq" "path \<in> mock_paths" "passes_front cfg rq" "proxied_path cfg rq"
    "origin_evaluate list_headers (origin_from_config list_headers (cf_security cfg)) ''GET'' h = Inr ()"
    "check_target plain_urls (target_from_config (cf_target cfg)) (mock_target path) = Inr ()"
    "check_uri (target_from_config (cf_target cfg)) (mock_uri path) = Inr ()"
    "\<And>hs body. mock_answer mounts \<lparr>rq_method = ''GET'', rq_uri = mock_uri path, rq_headers = hs, rq_body =
        body\<rparr> = r"
    "\<not> is_redirect (rs_status r) \<or> lm_redirect_policy (cf_limits cfg) = Rewrite"
    "\<And>b :: example_build. stack_of cfg b \<Longrightarrow>
       P (cors_stamped cfg rq (shape_response list_headers plain_urls r b (mock_target path) (lm_redirect_policy
           (cf_limits cfg))))
         [outbound mock_uuid b rq (mock_target path) (mock_uri path)]"
  shows "responds mutator (mock_env mounts) request [] P"
proof (rule asked_test)
  show "extract_target plain_urls (rq_uri rq) = Inr (mock_target path)" "to_uri plain_urls (mock_target path) = Inr
      (mock_uri path)"
    using mock_extract [of path] assms(5) by (auto simp: mock_paths_def rq_def)
  show "rq_method rq = ''GET''" by (simp add: rq_def peer_request_def)
  fix b :: example_build assume b: "stack_of (mutator base_config) b"
  have u: "ups_target_policy (lp_upstream (sb_policies b)) = target_from_config (cf_target cfg)"
    "cl_redirect_policy (ups_config (lp_upstream (sb_policies b))) = lm_redirect_policy (cf_limits cfg)"
    using b by (simp_all add: stack_of_def cfg_def Let_def client_config_of_def)
  let ?out = "outbound mock_uuid b rq (mock_target path) (mock_uri path)"
  have "mock_answer mounts ?out = r" using assms(11) by (simp add: outbound_def rq_def peer_request_def)
  with mock_execute [where u = "lp_upstream (sb_policies b)" and req = ?out and mounts = mounts and r = r and w = "[]"
      and c = "cf_circuit_breaker cfg"] u assms(10,12)
  obtain ms ev cb where "execute list_headers plain_urls alist_dash (mock_client mounts) (lp_upstream (sb_policies b))
      ?out [] (circuit_from_config alist_dash (cf_circuit_breaker cfg)) = (ms, ev, Ready (Inr r), [?out], cb)"
    by (auto simp: outbound_def)
  then show "\<exists>ms ev outcome w' cb.
     execute list_headers plain_urls alist_dash (se_client (mock_env mounts b)) (lp_upstream (sb_policies b))
       (outbound (se_uuid (mock_env mounts b) []) b rq (mock_target path) (mock_uri path)) []
       (circuit_from_config alist_dash (cf_circuit_breaker (mutator base_config))) = (ms, ev, Ready outcome, w', cb) \<and>
     P (cors_stamped (mutator base_config) rq (case outcome of
         Inr r \<Rightarrow> shape_response list_headers plain_urls r b (mock_target path) (lm_redirect_policy
             (cf_limits (mutator base_config)))
       | Inl e \<Rightarrow> into_response list_headers e)) w'"
    using assms(13) b
    by (intro exI [of _ ms] exI [of _ ev] exI [of _ "Inr r"] exI [of _ "[?out]"] exI [of _ cb]) (simp add: cfg_def)
qed (use assms in \<open>simp_all add: cfg_def rq_def mock_env_def peer_request_def\<close>)

lemma shaped_body:
  fixes b :: example_build
  assumes "stack_of cfg b" "lm_max_response_body_bytes (cf_limits cfg) = 50 * 1048576"
    "sum_list (map (\<lambda>p. data_len (Some p)) (rs_body r)) < 1000"
  shows "rs_body (shape_response list_headers plain_urls r b t policy) = rs_body r"
proof -
  have "lm_max_response_body_bytes (sb_immutable_limits b) = 52428800"
    using assms(1,2) by (simp add: stack_of_def Let_def)
  with shape_body [of 52428800 "rs_body r"] assms(3) show ?thesis by (simp add: shape_response_def Let_def)
qed

lemma shaped_status: "rs_status (shape_response list_headers plain_urls r b t policy) = rs_status r"
  by (simp add: shape_response_def Let_def)

subsection \<open>The tests\<close>

text \<open>\<open>response.into_body().collect()\<close>\<close>

fun collected :: "body \<Rightarrow> string option" where
  "collected [] = Some []"
| "collected (ReadyFrame (Data d) # b) = map_option ((@) d) (collected b)"
| "collected (ReadyErr e # b) = None"
| "collected (p # b) = collected b"

definition plain_answer :: "nat \<Rightarrow> entries \<Rightarrow> string \<Rightarrow> entries response" where
  "plain_answer status headers text = \<lparr>rs_status = status, rs_headers = headers, rs_body = full_body text\<rparr>"

definition simple_proxy_forwards_response_body :: bool where
  "simple_proxy_forwards_response_body =
     responds id (mock_env [(mock_authority, ''/payload'', plain_answer 200 [] ''pong'')])
       (with_peer ''GET'' (upstream_url ''/payload'') []) []
       (\<lambda>r _. rs_status r = 200 \<and> collected (rs_body r) = Some ''pong'')"

definition bearer_auth_accepts_valid_token :: bool where
  "bearer_auth_accepts_valid_token =
     responds with_token (mock_env [(mock_authority, ''/ok'', plain_answer 200 [] ''ok'')])
       (with_peer ''GET'' (upstream_url ''/ok'') [(AUTHORIZATION, ''Bearer s3cret'')]) []
       (\<lambda>r _. rs_status r = 200)"

definition redirect_rewrite_rewrites_location_to_proxy_path :: bool where
  "redirect_rewrite_rewrites_location_to_proxy_path =
     responds (redirecting Rewrite)
       (mock_env [(mock_authority, ''/bounce'', plain_answer 302 [(LOCATION, ''https://next.example/path?q=1'')] [])])
       (with_peer ''GET'' (upstream_url ''/bounce'') []) []
       (\<lambda>r _. rs_status r = 302 \<and> hm_get list_headers (rs_headers r) LOCATION = Some
           ''/https://next.example/path?q=1'')"

definition proxy_injects_forwarded_and_request_id_headers :: bool where
  "proxy_injects_forwarded_and_request_id_headers =
     responds id (mock_env [(mock_authority, ''/echo'', plain_answer 200 [] [])])
       (with_peer ''GET'' (upstream_url ''/echo'') []) []
       (\<lambda>r received. rs_status r = 200 \<and>
          (case received of [] \<Rightarrow> False
             | upstream # _ \<Rightarrow> list_all (hm_contains list_headers (rq_headers upstream))
                 [''forwarded'', ''x-forwarded-for'', ''x-request-id'']))"

lemmas mock_eval = front_eval upstream_url_def mock_authority_def mock_paths_def

lemma local_origin:
  "sc_origin_blacklist sec = [] \<Longrightarrow> sc_origin_whitelist sec = [] \<Longrightarrow> sc_block_methods sec =
      [''CONNECT'', ''TRACE''] \<Longrightarrow>
     sc_require_header sec = [''origin''] \<Longrightarrow> hm_contains list_headers h ORIGIN \<Longrightarrow>
     origin_evaluate list_headers (origin_from_config list_headers sec) ''GET'' h = Inr ()"
  by (auto simp: origin_evaluate_def origin_from_config_def to_origin_set_def List.map_filter_simps contains_name_def
      list_headers_eval ORIGIN_def split: option.split)

lemma mock_checks:
  "check_target plain_urls (target_from_config default_target_config) (mock_target path) = Inr ()"
  "check_uri (target_from_config default_target_config) (mock_uri path) = Inr ()"
  by (simp_all add: check_target_def check_uri_def check_authority_def target_from_config_def default_target_config_def
      default_schemes_def mock_target_def mock_uri_def plain_urls_eval str_simps)

text \<open>What the layers add to a response leaves its other headers alone.\<close>

lemma cors_stamped_header:
  "n \<notin> {ACAO, ACAC, ACEH, VARY} \<Longrightarrow>
     hm_get list_headers (rs_headers (cors_stamped cfg rq r)) n = hm_get list_headers (rs_headers r) n"
  by (auto simp: cors_stamped_def list_hdrs.get_first list_hdrs.get_all_response split: option.split)

lemma rewritten:
  fixes b :: example_build
  assumes "stack_of cfg b" "visible v" "starts_with ''https://'' v"
  shows "hm_get list_headers (rs_headers (shape_response list_headers plain_urls (plain_answer status [(LOCATION, v)]
      text) b t Rewrite)) LOCATION =
    Some (''/'' @ v)"
proof -
  have "LOCATION \<notin> filtered_names list_headers (lp_response_filter (sb_policies b)) [(LOCATION, v)]"
    using assms(1) by (simp add: stack_of_def Let_def filtered_names_def connection_listed_def HOP_BY_HOP_def LOCATION_def
        CONNECTION_def list_headers_eval)
  then show ?thesis
    using assms(2,3)
    by (simp add: list_hdrs.get_first list_hdrs.get_all_shape_response rewritten_location_def plain_answer_def Let_def)
       (simp add: list_headers_sel)
qed

lemma injected:
  fixes b :: example_build
  assumes "stack_of cfg b" "cf_forwarded cfg = default_forwarded_config" "visible fresh_id" "visible (tu_host t)"
    "hm_get list_headers (rq_headers rq) HOST = None" "u_scheme (rq_uri rq) = None"
    "n \<in> {FORWARDED, X_FORWARDED_FOR, REQUEST_ID_HEADER}"
  shows "hm_contains list_headers (rq_headers (outbound fresh_id b rq t uri)) n"
proof -
  have cfg: "cf_forwarded (lp_config (sb_policies b)) = default_forwarded_config"
    using assms(1,2) by (simp add: stack_of_def Let_def)
  let ?scheme = "if sv_tls (sb_immutable_server b) \<noteq> None then ''https'' else ''http''"
  have "build_forwarded_value list_headers \<lparr>ib_client_ip = Some (V4 0x7F000001), ib_scheme = ?scheme, ib_host = None,
      ib_local_port = snd (sv_bind (sb_immutable_server b))\<rparr> t \<noteq> None"
    using assms(4) visible_show_ip [of "V4 0x7F000001"]
    by (simp add: build_forwarded_value_def list_hdrs.from_str_visible visible_byte_def show_ip_def)
  then have "hm_get_all list_headers (rq_headers (outbound fresh_id b rq t uri)) n \<noteq> []"
    using assms(3-)
    by (auto simp: outbound_def outbound_headers_def Let_def list_hdrs.get_all_set_host list_hdrs.get_all_default_user_agent
        list_hdrs.get_all_inject cfg default_forwarded_config_def list_hdrs.from_str_visible)
  then show ?thesis by (simp add: list_hdrs.contains_get_all)
qed

lemma proxied_tests:
  "simple_proxy_forwards_response_body" "bearer_auth_accepts_valid_token"
  "redirect_rewrite_rewrites_location_to_proxy_path" "proxy_injects_forwarded_and_request_id_headers"
proof -
  have configs: "test_config (id base_config)" "test_config (with_token base_config)" "test_config (redirecting p
      base_config)" for p
    by (simp_all add: test_config_def test_configs)
  have targets: "cf_target (id base_config) = default_target_config" "cf_target (with_token base_config) =
      default_target_config"
    "cf_target (redirecting p base_config) = default_target_config"
    "lm_redirect_policy (cf_limits (redirecting p base_config)) = p" for p
    by (simp_all add: base_config_def default_config_def with_token_def redirecting_def)
  note sizes = test_configs default_max_response_body_bytes_def MIB_def
  note answered = mock_answer_def mock_uri_def plain_answer_def is_redirect_def shaped_status
  show "simple_proxy_forwards_response_body"
    unfolding simple_proxy_forwards_response_body_def
    by (rule mocked_test, rule configs, rule test_requests)
      (simp, simp add: list_headers_eval, simp add: mock_paths_def, simp add: mock_eval, simp add: mock_eval,
       (rule local_origin; simp add: test_configs list_headers_eval), simp only: targets mock_checks,
       simp only: targets mock_checks, simp add: mock_answer_def mock_uri_def, simp add: answered,
       simp add: answered shaped_body full_body_def sizes)
  have bearer: "check_bearer list_headers ((AUTHORIZATION, ''Bearer s3cret'') # h) [''s3cret''] = Inr ()" for h
    by (simp add: check_bearer_def list_headers_eval ct_eq_eq)
  show "bearer_auth_accepts_valid_token"
    unfolding bearer_auth_accepts_valid_token_def
    by (rule mocked_test, rule configs, rule test_requests)
      (simp, simp add: list_headers_eval ORIGIN_def AUTHORIZATION_def, simp add: mock_paths_def,
       simp add: mock_eval bearer [unfolded AUTHORIZATION_def], simp add: mock_eval,
       (rule local_origin; simp add: test_configs list_headers_eval ORIGIN_def), simp only: targets mock_checks,
       simp only: targets mock_checks, simp add: mock_answer_def mock_uri_def, simp add: answered, simp add: answered)
  have location: "visible ''https://next.example/path?q=1''" "starts_with ''https://'' ''https://next.example/path?q=1''"
    by (simp_all add: str_simps starts_with_def)
  have own: "LOCATION \<noteq> ACAO" "LOCATION \<noteq> ACAC" "LOCATION \<noteq> ACEH" "LOCATION \<noteq> VARY"
    by (simp_all add: cors_names LOCATION_def)
  show "redirect_rewrite_rewrites_location_to_proxy_path"
    unfolding redirect_rewrite_rewrites_location_to_proxy_path_def
    by (rule mocked_test, rule configs, rule test_requests)
      (simp, simp add: list_headers_eval, simp add: mock_paths_def, simp add: mock_eval, simp add: mock_eval,
       (rule local_origin; simp add: test_configs list_headers_eval), simp only: targets mock_checks,
       simp only: targets mock_checks, simp add: mock_answer_def mock_uri_def, simp add: targets,
       simp add: targets shaped_status cors_stamped_header own rewritten [OF _ location], simp add: plain_answer_def)
  have received: "hm_contains list_headers (rq_headers (outbound mock_uuid b (peer_request ''GET'' path test_local)
      (mock_target mounted) uri)) n"
    if "stack_of base_config b" "n = ''forwarded'' \<or> n = ''x-forwarded-for'' \<or> n = ''x-request-id''"
    for b :: example_build and path mounted uri n
    using that(2) by (intro injected [OF that(1)])
      (auto simp: base_config_def default_config_def mock_uuid_def str_simps peer_request_def mock_target_def
        forwarded_names list_headers_eval ORIGIN_def HOST_def)
  show "proxy_injects_forwarded_and_request_id_headers"
    unfolding proxy_injects_forwarded_and_request_id_headers_def
    by (rule mocked_test, rule configs, rule test_requests)
      (simp, simp add: list_headers_eval, simp add: mock_paths_def, simp add: mock_eval, simp add: mock_eval,
       (rule local_origin; simp add: test_configs list_headers_eval), simp only: targets mock_checks,
       simp only: targets mock_checks, simp add: mock_answer_def mock_uri_def, simp add: answered,
       simp add: received, simp add: answered)
qed

subsection \<open>Redirects that are followed\<close>

text \<open>The breaker after any number of successes of one host.\<close>

definition visited :: "string \<Rightarrow> circuit_breaker_config \<Rightarrow> (string, host_circuit) alist_map
    circuit_breaker" where
  "visited host c = (circuit_from_config alist_dash c)\<lparr>br_hosts := am_insert am_empty host host_circuit_new\<rparr>"

lemma visits:
  assumes "cb_enabled c"
  shows "hop_admit alist_dash now host (circuit_from_config alist_dash c) =
      ([], Inr \<lparr>hop_host = host, hop_settled = False\<rparr>, visited host c)"
    "hop_admit alist_dash now host (visited host c) = ([], Inr \<lparr>hop_host = host, hop_settled = False\<rparr>,
        visited host c)"
    "settle_success alist_dash now \<lparr>hop_host = host, hop_settled = False\<rparr> (visited host c) =
      ([], [Succeeded host], visited host c)"
proof -
  have "max (cb_max_hosts c) 1 \<noteq> 0" by (auto simp: max_def)
  with assms show "hop_admit alist_dash now host (circuit_from_config alist_dash c) =
      ([], Inr \<lparr>hop_host = host, hop_settled = False\<rparr>, visited host c)"
    "hop_admit alist_dash now host (visited host c) = ([], Inr \<lparr>hop_host = host, hop_settled = False\<rparr>,
        visited host c)"
    "settle_success alist_dash now \<lparr>hop_host = host, hop_settled = False\<rparr> (visited host c) =
      ([], [Succeeded host], visited host c)"
    by (simp_all add: visited_def settle_success_def one_host_eval)
qed

lemma followed:
  assumes "cb_enabled c" "u_host (rq_uri req) = Some host" "check_uri (ups_target_policy u) (rq_uri req) = Inr ()"
    "mock_answer mounts req = r" "is_redirect (rs_status r)" "cl_redirect_policy (ups_config u) = Follow"
    "cl_max_redirects (ups_config u) \<noteq> 0"
    "prepare_next list_headers plain_urls (from_initial (rq_method req) (rq_uri req) (rq_headers req)) r
       (cl_allow_https_to_http_downgrade (ups_config u)) = (Inr (Continue req'), st')"
  shows "execute list_headers plain_urls alist_dash (mock_client mounts) u req w (circuit_from_config alist_dash c) =
    (case execute_loop list_headers plain_urls alist_dash (mock_client mounts) u host st' 1 req' (w @ [req]) (visited host c) of
       (ms, ev, r, w', cb) \<Rightarrow> (ms, [Admitted host, Requested req, Succeeded host] @ ev, r, w', cb))"
proof -
  have "hop_turn list_headers plain_urls alist_dash (mock_client mounts) u host
      (from_initial (rq_method req) (rq_uri req) (rq_headers req)) 0 req w (circuit_from_config alist_dash c) =
    ([], [Admitted host, Requested req, Succeeded host], Next st' req', w @ [req], visited host c)"
    using assms
    by (simp add: visits hop_turn_def host_of_def mock_client_def after_response_def Let_def)
  then show ?thesis
    using assms(2) by (simp add: execute_def split_initial_def execute_loop.simps [of _ _ _ _ _ _ _ 0] host_of_def
        from_initial_def sat_add_def split: prod.split)
qed

definition mock_host :: "string \<Rightarrow> string" where
  "mock_host uri =
     (let without_scheme =
        (case (case strip_prefix ''http://'' uri of Some s \<Rightarrow> Some s | None \<Rightarrow> strip_prefix
            ''https://'' uri) of
           Some s \<Rightarrow> s | None \<Rightarrow> uri)
      in hd (split_on CHR '':'' without_scheme))"

definition redirect_follow_rejects_hop_outside_allowlist :: bool where
  "redirect_follow_rejects_hop_outside_allowlist =
     responds (redirecting Follow \<circ> allowlisting [mock_host (''http://'' @ mock_authority)])
       (mock_env [(mock_authority, ''/start'', plain_answer 302 [(LOCATION, ''https://evil.example/secret'')] [])])
       (with_peer ''GET'' (upstream_url ''/start'') []) []
       (\<lambda>r _. rs_status r = 403)"

definition redirect_follow_admits_hop_on_allowlist :: bool where
  "redirect_follow_admits_hop_on_allowlist =
     responds (allowing_loopback \<circ> redirecting Follow \<circ> allowlisting [''127.0.0.1''])
       (mock_env [(mock_authority, ''/start'', plain_answer 302 [(LOCATION, ''http://127.0.0.1:9001/final'')] []),
                  (''127.0.0.1:9001'', ''/final'', plain_answer 200 [] ''landed'')])
       (with_peer ''GET'' (upstream_url ''/start'') []) []
       (\<lambda>r _. rs_status r = 200 \<and> collected (rs_body r) = Some ''landed'')"

lemma next_hop:
  assumes "uri_parse plain_urls location = Inr uri" "visible location" "contains_str ''://'' location"
    "u_scheme uri = Some ''http'' \<or> u_scheme uri = Some ''https''"
  shows "\<exists>hs st. prepare_next list_headers plain_urls (from_initial ''GET'' (mock_uri path) h)
    (plain_answer 302 [(LOCATION, location)] text) allow =
    (Inr (Continue \<lparr>rq_method = ''GET'', rq_uri = uri, rq_headers = hs, rq_body = []\<rparr>), st)"
  using assms
  by (auto simp: redirect_eval from_initial_def plain_answer_def mock_uri_def split: option.split)

text \<open>The configuration of both tests.\<close>

definition local_follow :: "bool \<Rightarrow> config" where
  "local_follow again =
     redirecting Follow (allowlisting [''127.0.0.1''] (if again then allowing_loopback base_config else base_config))"

lemma local_follow_facts:
  "test_config (local_follow again)" "lm_redirect_policy (cf_limits (local_follow again)) = Follow" "lm_max_redirects (cf_limits (local_follow again)) \<noteq> 0"
  "cb_enabled (cf_circuit_breaker (local_follow again))" "lm_max_response_body_bytes (cf_limits (local_follow again)) = 50 * 1048576"
  "cf_target (local_follow again) = default_target_config\<lparr>tc_mode := Allowlist, tc_hosts := [''127.0.0.1'']\<rparr>"
  "mock_host (''http://'' @ mock_authority) = ''127.0.0.1''"
  by (simp_all add: local_follow_def test_config_def test_configs default_circuit_breaker_config_def
      default_max_response_body_bytes_def MIB_def mock_host_def mock_authority_def)

lemma local_checks:
  "check_target plain_urls (target_from_config (cf_target (local_follow again))) (mock_target path) = Inr ()"
  "check_uri (target_from_config (cf_target (local_follow again))) (mock_uri path) = Inr ()"
  "u_scheme uri = Some ''http'' \<Longrightarrow> u_host uri = Some ''127.0.0.1'' \<Longrightarrow>
     check_uri (target_from_config (cf_target (local_follow again))) uri = Inr ()"
  "u_scheme uri = Some ''https'' \<Longrightarrow> u_host uri = Some ''evil.example'' \<Longrightarrow>
     \<exists>t. check_uri (target_from_config (cf_target (local_follow again))) uri = Inl (TargetNotAllowed t)"
  unfolding local_follow_facts
  by (simp_all add: check_target_def check_uri_def check_authority_def target_from_config_def default_target_config_def
      default_schemes_def mock_target_def mock_uri_def host_matches_def plain_urls_eval str_simps)

text \<open>A mock whose answer on \<open>/start\<close> is a redirect to \<open>location\<close>.\<close>

lemma follow_test:
  defines "rq \<equiv> peer_request ''GET'' (upstream_url ''/start'') test_local"
  assumes "mutator base_config = local_follow again" "uri_parse plain_urls location = Inr uri" "visible location"
    "contains_str ''://'' location" "u_scheme uri = Some ''http'' \<or> u_scheme uri = Some ''https''"
    "\<And>hs body. mock_answer mounts \<lparr>rq_method = ''GET'', rq_uri = mock_uri ''/start'', rq_headers = hs,
        rq_body = body\<rparr> =
       plain_answer 302 [(LOCATION, location)] []"
    "\<And>b :: example_build. stack_of (local_follow again) b \<Longrightarrow> \<forall>st hs w. \<exists>ms ev outcome w' cb.
       execute_loop list_headers plain_urls alist_dash (mock_client mounts) (lp_upstream (sb_policies b)) ''127.0.0.1'' st 1
         \<lparr>rq_method = ''GET'', rq_uri = uri, rq_headers = hs, rq_body = []\<rparr> w (visited ''127.0.0.1''
             (cf_circuit_breaker (local_follow again))) =
         (ms, ev, Ready outcome, w', cb) \<and>
       P (cors_stamped (local_follow again) rq (case outcome of
           Inr r \<Rightarrow> shape_response list_headers plain_urls r b (mock_target ''/start'') Follow
         | Inl e \<Rightarrow> into_response list_headers e)) w'"
  shows "responds mutator (mock_env mounts) (with_peer ''GET'' (upstream_url ''/start'') []) [] P"
proof -
  let ?cfg = "mutator base_config"
  have front: "passes_front ?cfg rq" "proxied_path ?cfg rq"
    unfolding assms(2) by (simp_all add: rq_def local_follow_def mock_eval)
  have origin: "origin_evaluate list_headers (origin_from_config list_headers (cf_security ?cfg)) ''GET'' (rq_headers
      rq) = Inr ()"
    unfolding assms(2) by (rule local_origin)
      (simp_all add: rq_def peer_request_def local_follow_def test_configs list_headers_eval)
  have request: "with_peer ''GET'' (upstream_url ''/start'') [] = Inr rq"
    unfolding rq_def by (rule test_requests) (simp_all add: list_headers_eval)
  have hop: "\<exists>ms ev outcome w' cb.
      execute list_headers plain_urls alist_dash (mock_client mounts) (lp_upstream (sb_policies b))
        (outbound mock_uuid b rq (mock_target ''/start'') (mock_uri ''/start'')) []
        (circuit_from_config alist_dash (cf_circuit_breaker (local_follow again))) = (ms, ev, Ready outcome, w', cb) \<and>
      P (cors_stamped (local_follow again) rq (case outcome of
           Inr r \<Rightarrow> shape_response list_headers plain_urls r b (mock_target ''/start'') Follow
         | Inl e \<Rightarrow> into_response list_headers e)) w'"
    if b: "stack_of (local_follow again) b" for b :: example_build
  proof -
    let ?u = "lp_upstream (sb_policies b)"
    let ?out = "outbound mock_uuid b rq (mock_target ''/start'') (mock_uri ''/start'')"
    have u: "ups_target_policy ?u = target_from_config (cf_target (local_follow again))"
      "cl_redirect_policy (ups_config ?u) = Follow" "cl_max_redirects (ups_config ?u) \<noteq> 0"
      using b local_follow_facts by (simp_all add: stack_of_def Let_def client_config_of_def)
    obtain hs st where next_hop: "prepare_next list_headers plain_urls
        (from_initial (rq_method ?out) (rq_uri ?out) (rq_headers ?out)) (plain_answer 302 [(LOCATION, location)] [])
        (cl_allow_https_to_http_downgrade (ups_config ?u)) =
        (Inr (Continue \<lparr>rq_method = ''GET'', rq_uri = uri, rq_headers = hs, rq_body = []\<rparr>), st)"
      using next_hop [OF assms(3-6)] by (fastforce simp: outbound_def rq_def peer_request_def)
    have "mock_answer mounts ?out = plain_answer 302 [(LOCATION, location)] []"
      using assms(7) by (simp add: outbound_def rq_def peer_request_def)
    from followed [OF local_follow_facts(4) _ _ this _ u(2,3) next_hop, of "''127.0.0.1''" "[]"] u(1)
    have "execute list_headers plain_urls alist_dash (mock_client mounts) ?u ?out []
        (circuit_from_config alist_dash (cf_circuit_breaker (local_follow again))) =
      (case execute_loop list_headers plain_urls alist_dash (mock_client mounts) ?u ''127.0.0.1'' st 1
         \<lparr>rq_method = ''GET'', rq_uri = uri, rq_headers = hs, rq_body = []\<rparr> [?out]
         (visited ''127.0.0.1'' (cf_circuit_breaker (local_follow again))) of
       (ms, ev, r, w', cb) \<Rightarrow> (ms, [Admitted ''127.0.0.1'', Requested ?out, Succeeded ''127.0.0.1''] @ ev,
           r, w', cb))"
      using local_checks(2) by (simp add: outbound_def mock_uri_def plain_answer_def is_redirect_def)
    moreover obtain ms ev outcome w' cb where
      "execute_loop list_headers plain_urls alist_dash (mock_client mounts) ?u ''127.0.0.1'' st 1
         \<lparr>rq_method = ''GET'', rq_uri = uri, rq_headers = hs, rq_body = []\<rparr> [?out]
         (visited ''127.0.0.1'' (cf_circuit_breaker (local_follow again))) = (ms, ev, Ready outcome, w', cb)"
      "P (cors_stamped (local_follow again) rq (case outcome of
           Inr r \<Rightarrow> shape_response list_headers plain_urls r b (mock_target ''/start'') Follow
         | Inl e \<Rightarrow> into_response list_headers e)) w'"
      using assms(8) [OF b] by blast
    ultimately show ?thesis by force
  qed
  show ?thesis
    by (rule asked_test [where rq = rq and uri = "mock_uri ''/start''" and t = "mock_target ''/start''"];
        (unfold assms(2) local_follow_facts(2) mock_env_uuid mock_env_client)?)
      (use request front origin hop local_follow_facts local_checks(1) mock_extract [of "''/start''"] in
        \<open>simp_all add: assms(2) rq_def peer_request_def\<close>)
qed

lemma follow_tests:
  "redirect_follow_rejects_hop_outside_allowlist" "redirect_follow_admits_hop_on_allowlist"
proof -
  let ?evil = "\<lparr>u_scheme = Some ''https'', u_authority = Some ''evil.example'', u_host = Some ''evil.example'',
    u_path = ''/secret'', u_query = None\<rparr>"
  let ?final = "\<lparr>u_scheme = Some ''http'', u_authority = Some ''127.0.0.1:9001'', u_host = Some ''127.0.0.1'',
    u_path = ''/final'', u_query = None\<rparr>"
  have configs: "(redirecting Follow \<circ> allowlisting [mock_host (''http://'' @ mock_authority)]) base_config =
      local_follow False"
    "(allowing_loopback \<circ> redirecting Follow \<circ> allowlisting [''127.0.0.1'']) base_config = local_follow True"
    unfolding local_follow_facts(7) by (simp_all add: local_follow_def test_configs)
  have locations: "uri_parse plain_urls ''https://evil.example/secret'' = Inr ?evil"
    "uri_parse plain_urls ''http://127.0.0.1:9001/final'' = Inr ?final"
    by (simp_all add: plain_urls_eval plain_uri_parse_def plain_uri_build_def starts_with_def str_simps Let_def)
  have policy: "ups_target_policy (lp_upstream (sb_policies b)) = target_from_config (cf_target (local_follow again))"
    if "stack_of (local_follow again) b" for b :: example_build and again
    using that by (simp add: stack_of_def Let_def)
  show "redirect_follow_rejects_hop_outside_allowlist"
    unfolding redirect_follow_rejects_hop_outside_allowlist_def
  proof (rule follow_test, rule configs(1), rule locations(1))
    fix b :: example_build assume b: "stack_of (local_follow False) b"
    obtain t where "check_uri (target_from_config (cf_target (local_follow False))) ?evil = Inl (TargetNotAllowed t)"
      using local_checks(4) [of ?evil] by auto
    then show "\<forall>st hs w. \<exists>ms ev outcome w' cb.
       execute_loop list_headers plain_urls alist_dash (mock_client [(mock_authority, ''/start'',
           plain_answer 302 [(LOCATION, ''https://evil.example/secret'')] [])]) (lp_upstream (sb_policies b)) ''127.0.0.1'' st 1
         \<lparr>rq_method = ''GET'', rq_uri = ?evil, rq_headers = hs, rq_body = []\<rparr> w (visited ''127.0.0.1''
             (cf_circuit_breaker (local_follow False))) =
         (ms, ev, Ready outcome, w', cb) \<and>
       rs_status (cors_stamped (local_follow False) (peer_request ''GET'' (upstream_url ''/start'') test_local) (case outcome of
           Inr r \<Rightarrow> shape_response list_headers plain_urls r b (mock_target ''/start'') Follow
         | Inl e \<Rightarrow> into_response list_headers e)) = 403"
      by (simp add: execute_loop.simps hop_turn_def policy [OF b] into_response_status)
  qed (simp_all add: mock_answer_def mock_uri_def contains_str_def str_simps)
  show "redirect_follow_admits_hop_on_allowlist"
    unfolding redirect_follow_admits_hop_on_allowlist_def
  proof (rule follow_test, rule configs(2), rule locations(2), goal_cases)
    case (5 b)
    let ?mounts = "[(mock_authority, ''/start'', plain_answer 302 [(LOCATION, ''http://127.0.0.1:9001/final'')] []),
      (''127.0.0.1:9001'', ''/final'', plain_answer 200 [] ''landed'')]"
    have "execute_loop list_headers plain_urls alist_dash (mock_client ?mounts) (lp_upstream (sb_policies b)) ''127.0.0.1'' st 1
         \<lparr>rq_method = ''GET'', rq_uri = ?final, rq_headers = hs, rq_body = []\<rparr> w (visited ''127.0.0.1''
             (cf_circuit_breaker (local_follow True))) =
      ([record_redirect_hops ''127.0.0.1'' 1], [Admitted ''127.0.0.1'', Requested \<lparr>rq_method = ''GET'', rq_uri =
          ?final, rq_headers = hs, rq_body = []\<rparr>,
         Succeeded ''127.0.0.1''], Ready (Inr (plain_answer 200 [] ''landed'')),
       w @ [\<lparr>rq_method = ''GET'', rq_uri = ?final, rq_headers = hs, rq_body = []\<rparr>], visited ''127.0.0.1''
           (cf_circuit_breaker (local_follow True)))"
      for st hs w
      using local_checks(3) [of ?final] visits [OF local_follow_facts(4)]
      by (simp add: execute_loop.simps hop_turn_def policy [OF 5] mock_client_def mock_answer_def mock_authority_def
          host_of_def after_response_def plain_answer_def is_redirect_def settle_terminal_def is_server_error_def
          visits [OF local_follow_facts(4)])
    with 5 show ?case
      by (simp add: shaped_status shaped_body local_follow_facts plain_answer_def full_body_def)
  qed (simp_all add: mock_answer_def mock_uri_def mock_authority_def contains_str_def str_simps)
qed

subsection \<open>Names that lead inside\<close>

definition local_dns :: "string \<Rightarrow> string + ip_addr list" where
  "local_dns host = (if host = ''localhost'' then Inr [V4 0x7F000001] else Inl ''no such host'')"

definition ssrf_blocks_loopback_hostname_when_not_allow_listed :: bool where
  "ssrf_blocks_loopback_hostname_when_not_allow_listed =
     responds guarded_loopback (resolving_env local_dns) (with_peer ''GET'' ''/http://localhost:9000/x'' []) ([], [])
       (\<lambda>r _. rs_status r \<in> {403, 502})"

definition error_payload_is_client_safe_test :: bool where
  "error_payload_is_client_safe_test =
     responds guarded_loopback (resolving_env local_dns) (with_peer ''GET'' ''/http://localhost/private'' []) ([], [])
       (\<lambda>r _. rs_status r \<in> {403, 502} \<and>
          (case collected (rs_body r) of None \<Rightarrow> False
             | Some text \<Rightarrow> \<not> contains_str ''os error'' text \<and> \<not> contains_str ''ConnectError'' text))"

lemma localhost_not_dialled:
  assumes "ups_guard u = ssrf_new plain_nets default_ssrf_config"
  shows "dial local_dns u ''localhost'' = None"
proof -
  have "parse_ip ''localhost'' = None" by (simp add: parse_ip_eval)
  moreover from this have "\<exists>e. snd (guarded_resolver plain_nets u local_dns ''localhost'') = Inl e"
    by (simp add: guarded_resolver_def assms local_dns_def resolve_cases default_admits canonicalise_def default_blocked_def)
  ultimately show ?thesis by (auto simp: dial_def address_literal_def)
qed

text \<open>A failed connection is answered with 502 and what the taxonomy says of it.\<close>

lemma refused_connection:
  assumes "check_uri (ups_target_policy u) (rq_uri req) = Inr ()" "u_host (rq_uri req) = Some host" "dial dns u host = None"
  shows "\<exists>ms ev cb. execute list_headers plain_urls alist_dash (dialling_env dns u) u req w
      (circuit_from_config alist_dash c) =
    (ms, ev, Ready (Inl (UpstreamErr ''connect'')), w, cb)"
proof -
  obtain cb where "check_circuit alist_dash 0 (host_of (rq_uri req)) (circuit_from_config alist_dash c) = ([], Inr (), cb)"
    using fresh_check by blast
  with assms show ?thesis
    by (cases w) (auto simp: execute_def execute_loop.simps split_initial_def hop_turn_def hop_admit_def dialling_env_def
        host_of_def Let_def split: prod.split)
qed

lemma localhost_test:
  fixes rq defines "cfg \<equiv> guarded_loopback base_config"
  assumes "with_peer ''GET'' target [] = Inr rq" "rq_method rq = ''GET''" "rq_headers rq = test_local"
    "passes_front cfg rq" "proxied_path cfg rq" "extract_target plain_urls (rq_uri rq) = Inr t"
    "to_uri plain_urls t = Inr uri" "url_scheme plain_urls (tu_url t) = ''http''" "u_scheme uri = Some ''http''"
    "u_host uri = Some ''localhost''" "P (cors_stamped cfg rq (into_response list_headers (UpstreamErr ''connect''))) ([], [])"
  shows "responds guarded_loopback (resolving_env local_dns) (with_peer ''GET'' target []) ([], []) P"
proof (rule asked_test [where rq = rq and t = t and uri = uri])
  have target: "cf_target cfg = default_target_config" by (simp add: cfg_def guarded_loopback_def base_config_def
      default_config_def)
  show "check_target plain_urls (target_from_config (cf_target (guarded_loopback base_config))) t = Inr ()"
    using assms(9) unfolding target [unfolded cfg_def]
    by (simp add: check_target_def check_authority_def target_from_config_def default_target_config_def
        default_schemes_def str_simps)
  fix b :: example_build assume b: "stack_of (guarded_loopback base_config) b"
  let ?u = "lp_upstream (sb_policies b)"
  have "default_ssrf_config\<lparr>sf_mode := Strict, sf_extra_allowed_cidrs := []\<rparr> = default_ssrf_config"
    by (simp add: default_ssrf_config_def)
  then have u: "ups_guard ?u = ssrf_new plain_nets default_ssrf_config"
    "ups_target_policy ?u = target_from_config default_target_config"
    using b by (simp_all add: stack_of_def Let_def guarded_loopback_def base_config_def default_config_def)
  let ?out = "outbound ''id'' b rq t uri"
  have "check_uri (ups_target_policy ?u) (rq_uri ?out) = Inr ()" "u_host (rq_uri ?out) = Some ''localhost''"
    using assms(10,11) by (simp_all add: u outbound_def check_uri_def check_authority_def target_from_config_def
        default_target_config_def default_schemes_def str_simps)
  from refused_connection [OF this localhost_not_dialled [OF u(1)], of "([], [])" "cf_circuit_breaker cfg"]
  show "\<exists>ms ev outcome w' cb.
     execute list_headers plain_urls alist_dash (se_client (resolving_env local_dns b)) ?u (outbound (se_uuid
         (resolving_env local_dns b) ([], [])) b rq t uri) ([], [])
       (circuit_from_config alist_dash (cf_circuit_breaker (guarded_loopback base_config))) = (ms, ev, Ready outcome,
           w', cb) \<and>
     P (cors_stamped (guarded_loopback base_config) rq (case outcome of
         Inr r \<Rightarrow> shape_response list_headers plain_urls r b t (lm_redirect_policy (cf_limits
             (guarded_loopback base_config)))
       | Inl e \<Rightarrow> into_response list_headers e)) w'"
    using assms(12) by (auto simp: resolving_env_def cfg_def intro!: exI [of _ "Inl (UpstreamErr ''connect'')"])
qed (use assms in \<open>simp_all add: cfg_def resolving_env_def test_config_def test_configs local_origin
    list_headers_eval\<close>)

definition localhost_target :: "string \<Rightarrow> 16 word option \<Rightarrow> plain_url target_url" where
  "localhost_target path port = \<lparr>tu_url = \<lparr>pu_scheme = ''http'', pu_host = ''localhost'', pu_port = port,
     pu_path = path, pu_query = None\<rparr>, tu_host = ''localhost'', tu_port = (case port of None \<Rightarrow> 80 |
         Some p \<Rightarrow> p)\<rparr>"

lemma localhost_tests:
  "ssrf_blocks_loopback_hostname_when_not_allow_listed" "error_payload_is_client_safe_test"
proof -
  let ?x = "peer_request ''GET'' ''/http://localhost:9000/x'' test_local"
  let ?private = "peer_request ''GET'' ''/http://localhost/private'' test_local"
  note eval = extract_target_def candidate_from_uri_def trim_start_char_def normalize_scheme_def validate_url_def
    install_host_def http_scheme_def MAX_HOST_LEN_def plain_urls_eval default_port_def
  have requests: "with_peer ''GET'' ''/http://localhost:9000/x'' [] = Inr ?x"
    "with_peer ''GET'' ''/http://localhost/private'' [] = Inr ?private"
    by (simp_all add: with_peer_eq starts_with_def list_headers_eval)
  have targets: "extract_target plain_urls (rq_uri ?x) = Inr (localhost_target ''/x'' (Some 9000))"
    "extract_target plain_urls (rq_uri ?private) = Inr (localhost_target ''/private'' None)"
    by (simp_all add: peer_request_def localhost_target_def eval Let_def)
  obtain x y where uris: "to_uri plain_urls (localhost_target ''/x'' (Some 9000)) = Inr x" "u_scheme x = Some ''http''"
    "u_host x = Some ''localhost''" "to_uri plain_urls (localhost_target ''/private'' None) = Inr y"
    "u_scheme y = Some ''http''" "u_host y = Some ''localhost''"
    by (simp add: to_uri_def localhost_target_def host_with_port_def plain_urls_eval plain_uri_build_def str_simps Let_def)
  have front: "passes_front (guarded_loopback base_config) ?x" "proxied_path (guarded_loopback base_config) ?x"
    "passes_front (guarded_loopback base_config) ?private" "proxied_path (guarded_loopback base_config) ?private"
    by (simp_all add: front_eval)
  have payload: "collected (rs_body (into_response list_headers (UpstreamErr e))) =
      Some ''{\"error\":\"upstream_unreachable\",\"message\":\"upstream unreachable\"}''" for e
    by (simp add: into_response_def to_payload_def json_response_def typed_response_def full_body_def json_object_def
        Let_def split: option.split)
  show "ssrf_blocks_loopback_hostname_when_not_allow_listed"
    unfolding ssrf_blocks_loopback_hostname_when_not_allow_listed_def
    by (rule localhost_test [OF requests(1) _ _ front(1,2) targets(1) uris(1) _ uris(2,3)])
      (simp_all add: peer_request_def localhost_target_def plain_urls_eval into_response_status)
  show "error_payload_is_client_safe_test"
    unfolding error_payload_is_client_safe_test_def
    by (rule localhost_test [OF requests(2) _ _ front(3,4) targets(2) uris(4) _ uris(5,6)])
      (simp_all add: peer_request_def localhost_target_def plain_urls_eval into_response_status payload
          contains_str_def str_simps)
qed

end
