(* ===== verification/Spec2Isabelle.thy ===== *)
theory Spec2Isabelle
  imports Errors Validate Cors Header_Filter Target Ssrf Circuit Redirect Upstream Forwarded
    Origin_Guard Auth Metering Rate_Limit Load_Shed Server_State Hot_Reload Handlers Router
    Metrics Tls Tracing Lifecycle Cli Request_Frame Connect
    Segments Concurrent Concurrent_Policies Concurrent_Requests Concurrent_Inflight Concurrent_Progress
    Sequential_Run Concurrent_Server Panics Client Unit_Tests_Server Unit_Tests_Rate
    Integration_Upstream
begin

text \<open>
  \<^bold>\<open>corx\<close>, a CORS forwarding proxy: a model of its crates and the properties that make it correct.

  \<^bold>\<open>The program.\<close> \<open>corx-core\<close> is the engine: configuration and its validator, the CORS policy, the
  header filter, the target URL parser, the target policy, the SSRF guard, the circuit breaker, and
  the redirect-following upstream client. \<open>corx-server\<close> binds it to HTTP: a router with a stack of
  layers (access log, CORS, timeout, header limit, load shedding, authentication), the proxy handler,
  the operational endpoints, and a snapshot of policies that a reload swaps; it also starts telemetry,
  the listener (cleartext or TLS) and its graceful shutdown. \<open>corx-cli\<close> is the command line. A request passes the
  layers, the origin guard, target extraction, the target policy and the rate limiter; the handler
  cleans its headers and hands it to the upstream client, which checks every hop against the target
  policy and the breaker and resolves every name through the SSRF guard; the response is filtered,
  capped and stamped with CORS headers on its way out.

  \<^bold>\<open>The theories\<close>, in the order they build on each other (files under \<open>src/crates/\<close>):

  \<^item> \<open>Prelude\<close>, \<open>Net\<close>: what the code uses of Rust's strings, integers, iterators and \<open>std::net\<close>.
  \<^item> \<open>Errors\<close> (\<open>corx-core/src/error.rs\<close>), \<open>Telemetry\<close> (\<open>observability/mod.rs\<close>), \<open>Config\<close>
    (\<open>config/*.rs\<close>), \<open>Validate\<close> (\<open>config/validate.rs\<close>).
  \<^item> \<open>Http_Lib\<close>: the interface of the crate \<open>http\<close>, a record of header-map operations with its laws in
    the locale \<open>header_map\<close>. \<open>Dash_Map\<close>: the same for \<open>dashmap\<close>. Both have an implementation on
    lists, an interpretation of the locale, on which concrete inputs are evaluated.
  \<^item> \<open>Cors\<close> (\<open>proxy/cors.rs\<close>), \<open>Header_Filter\<close> (\<open>proxy/headers.rs\<close>), \<open>Url_Parser\<close>
    (\<open>proxy/url_parser.rs\<close>, over the interface \<open>url_api\<close>), \<open>Target\<close> (\<open>policy/target.rs\<close>), \<open>Ssrf\<close>
    (\<open>proxy/ssrf.rs\<close>, over \<open>ip_nets\<close>), \<open>Circuit\<close> (\<open>policy/circuit.rs\<close>, over \<open>host_map\<close>),
    \<open>Redirect\<close> (\<open>proxy/redirect.rs\<close>), \<open>Upstream\<close> (\<open>proxy/upstream.rs\<close>), \<open>Forwarded\<close>
    (\<open>proxy/forwarded.rs\<close>).
  \<^item> \<open>Origin_Guard\<close>, \<open>Auth\<close>, \<open>Rate_Limit\<close>, \<open>Load_Shed\<close> (\<open>corx-server/src/middleware/\<close>), \<open>Metering\<close>
    (\<open>observability/metering.rs\<close>), \<open>Server_Error\<close> (\<open>error.rs\<close>, \<open>handlers/ops.rs\<close>).
  \<^item> \<open>Server_State\<close> (\<open>state.rs\<close>, \<open>middleware/request_guard.rs\<close>), \<open>Hot_Reload\<close> (\<open>hot_reload.rs\<close>,
    \<open>config_loader.rs\<close>), \<open>Handlers\<close> (\<open>handlers/proxy.rs\<close>, \<open>handlers/outbound.rs\<close>), \<open>Router\<close>
    (\<open>router.rs\<close> and the layers \<open>header_limit\<close>, \<open>auth\<close>, \<open>cors\<close>, \<open>access_log\<close>).
  \<^item> \<open>Metrics\<close> (\<open>observability/metrics.rs\<close>), \<open>Tracing\<close> (\<open>observability/tracing.rs\<close>, \<open>otel.rs\<close>): the
    start of telemetry. \<open>Tls\<close> (\<open>tls.rs\<close>, the configuration of the listener) and \<open>Lifecycle\<close>
    (\<open>shutdown.rs\<close> and the serving half of \<open>tls.rs\<close>). \<open>Cli\<close> (\<open>corx-cli/src/main.rs\<close>, \<open>cli.rs\<close>).
  \<^item> \<open>Connect\<close>: the contract with the connector of the HTTP client (locale \<open>connector\<close>), and the addresses
    a request makes the proxy connect to.
  \<^item> \<open>Client\<close>: the settings of the HTTP client (\<open>proxy/upstream.rs\<close>). \<open>Panics\<close>: the two panics that a
    validated configuration can reach, over the interface \<open>route_table\<close> of \<open>axum\<close>.
  \<^item> \<open>Request_Frame\<close>: what a request leaves of the server, layer by layer, and that every event it
    records is one of the described metrics. This theory joins it with start-up, reloads and the
    readiness probes.
  \<^item> \<open>Segments\<close>, \<open>Concurrent\<close>: the request path cut where other tasks may run (at the await of the upstream
    client and between two loads of the snapshot), and the server as the step relation \<open>sys_step\<close> on
    any number of requests, with reloads, the clock and the shutdown signal in between. What \<open>Arc\<close>
    shares is a store of cells; a request keeps the number of the snapshot it has loaded.
    \<open>Concurrent_Policies\<close>, \<open>Concurrent_Requests\<close>, \<open>Concurrent_Inflight\<close>, \<open>Concurrent_Progress\<close>: its
    invariants. \<open>Sequential_Run\<close>: the router is one of its runs. \<open>Concurrent_Server\<close>: what follows.
  \<^item> \<open>Unit_Tests_Proxy\<close>, \<open>Unit_Tests_Cors\<close>, \<open>Unit_Tests_Forward\<close>, \<open>Unit_Tests_Policy\<close>, \<open>Unit_Tests_Server\<close>,
    \<open>Unit_Tests_Rate\<close>: the unit tests kept in the sources, each a predicate with the name of its
    function, and the proof that the model passes it.
  \<^item> \<open>Test_Stack\<close>, \<open>Integration_Tests\<close>, \<open>Integration_Upstream\<close>: the same for the integration tests
    (\<open>corx-server/tests/integration_proxy.rs\<close>), which ask the whole router, on the example libraries and
    a mock of the upstream.

  \<^bold>\<open>How code and model correspond.\<close> A struct is a record, an enum a datatype, an integer a word of
  its width, a duration or instant a number of nanoseconds, text its bytes, an error a value of
  \<open>proxy_error\<close> on the left of a sum. Shared mutable state (\<open>Arc\<close>, \<open>ArcSwap\<close>, atomics, maps) is passed
  explicitly; an operation answers its result, the metrics it recorded and the state after it. An
  \<open>async\<close> function that can be dropped while it waits answers \<open>Ready\<close> or \<open>Dropped\<close>, and the drops of
  the guards it holds are run. What other tasks do during a wait is a parameter (\<open>ce_request\<close> may
  change the breaker, \<open>se_others\<close> the whole server). Where several requests race on a shared
  structure, the atomic operations are the steps of an inductive relation: \<open>cb_step\<close> for the breaker,
  \<open>admission_reach\<close> for the key registries, \<open>shed_reach\<close> for the in-flight counter. \<open>cb_step\<close> assumes a
  clock that does not run backwards between two steps, although the code reads it before it takes the
  entry; \<open>admission_reach\<close> reads the size of the map in one step, where \<open>DashMap::len\<close> sums its shards
  one by one. In \<open>sys_step\<close> a whole segment between two awaits is one step and no lock is modelled:
  finer interleavings, of worker threads inside the breaker or the limiter, are those of the first two
  relations only. A waiting request may be cancelled at any step, so that every request of \<open>sys_step\<close>
  can come to its end is a property of the relation, not of the program. The events \<open>Admitted\<close>,
  \<open>Succeeded\<close> and \<open>Failed\<close> of a hop are recorded by the model where the code admits and settles it; the
  code keeps no such log. A running listener
  is driven by a list of wake-ups (the time, the state of the signal sources, what connection tasks
  did, which branch of \<open>select!\<close> is polled first); its loop is structural in that list, so no fuel is
  needed, and \<open>None\<close> says that it still runs when the list is used up.

  \<^bold>\<open>Parameters.\<close> Third-party code is never modelled but passed in: the header map, URL and URI
  parsing, IDNA, \<open>ipnet\<close>, DNS, the HTTP client, clocks, token buckets, regular expressions, the
  concurrent map, the platform's root certificates, \<open>figment\<close>, the listeners of \<open>axum\<close> and
  \<open>axum_server\<close>, the PEM and certificate functions of \<open>rustls\<close>, the recorder of metrics, the tracing
  registry and the OTLP exporter, the TOML and JSON printers. The assumptions of the locales are
  the documented laws the proofs use, and each has an instance on which every property with a
  hypothesis is evaluated.

  \<^bold>\<open>What is shown.\<close>
  \<^item> SSRF: a strict guard answers no blocked address, mapped IPv6 forms included (\<open>Ssrf\<close>), and no request
    opens a connection to one, unless its host is written as an address (\<open>Connect\<close>).
  \<^item> Forwarding: nothing is sent upstream unless every guard passed, what is sent and what is given back
    is known header by header (\<open>Handlers\<close>, \<open>Forwarded\<close>); along redirects credentials stay with their
    authority, https is not downgraded, each hop is admitted and settled once, and every way a run can
    end is characterised (\<open>Redirect\<close>, \<open>Upstream\<close>). \<open>execute\<close> is a total function: its measure is the
    redirect budget left.
  \<^item> Authentication and CORS at the router: no effect without a token, every response stamped, the
    grant of the proxy only for listed origins under a validated configuration (what the upstream
    grants survives where the proxy grants nothing), the exact contract of the validator, and the
    decision of the origin guard (\<open>Router\<close>, \<open>Cors\<close>, \<open>Validate\<close>, \<open>Origin_Guard\<close>).
  \<^item> Breaker: invariant, refinement to an atomic machine, probe budget, tripping, no lock-out, bounded
    table (\<open>Circuit\<close>). Limits: rate limiter and its registries, load shedding, body caps
    (\<open>Rate_Limit\<close>, \<open>Load_Shed\<close>, \<open>Metering\<close>).
  \<^item> Reload: all or nothing, frozen fields, no stale component (\<open>Hot_Reload\<close>, \<open>Server_State\<close>).
  \<^item> Lifecycle: only \<open>serve\<close> starts a server and only from a validated configuration (\<open>Cli\<close>), which stays
    valid and in step with the listener whatever is requested and reloaded (\<open>live_server_valid\<close>,
    \<open>request_keeps_policies\<close>); a signal tells the listener to drain, the drain ends with the last connection or with the
    grace period, and the readiness probes follow the signal through the whole stack (\<open>Lifecycle\<close>,
    \<open>readiness_follows_signal\<close>); a handler that cannot be installed counts as a signal, as in the code; TLS never falls back to cleartext, nor client
    authentication to none (\<open>Lifecycle\<close>, \<open>Tls\<close>); every event has its description
    (\<open>every_event_described\<close>).
  \<^item> Concurrency: under every interleaving of requests and reloads each snapshot in use is valid and each
    breaker sound, a request that sends anything passed every check under the snapshot it used for it,
    and both counters are exact (\<open>Concurrent_Server\<close>). Two lemmas tie the models to each other and say
    nothing more of the code: \<open>router_run\<close>, that what \<open>build_router\<close> computes is a run of \<open>sys_step\<close>
    (\<open>Sequential_Run\<close>), and \<open>running_requests_progress\<close>, that every run of a request is short.
  \<^item> Target extraction and policy, header filter, forwarding headers, error rendering (\<open>Url_Parser\<close>,
    \<open>Target\<close>, \<open>Header_Filter\<close>, \<open>Forwarded\<close>, \<open>Errors\<close>).
  \<^item> Conformance: what the unit tests assert of the code holds of the model, for every library that obeys
    the laws of its locale where the test does not depend on more (\<open>Unit_Tests_Proxy\<close> and its siblings),
    and what the integration tests assert of the server holds of the composed model (\<open>Integration_Tests\<close>,
    \<open>Integration_Upstream\<close>).

  Where the code and its documentation disagree the model follows the code; the lemmas
  \<open>permissive_ignores_extra_blocked\<close>, \<open>relative_location_with_scheme_marker_fails\<close>,
  \<open>downgraded_request_keeps_body_headers\<close>, \<open>options_not_authenticated\<close>, \<open>root_query_is_usage\<close>,
  \<open>denylist_ignores_trailing_dot\<close>, \<open>literal_is_dialled\<close>, \<open>liveness_probe_is_shed\<close>,
  \<open>upstream_credentials_survive\<close>, \<open>further_vary_lines_lost\<close>,
  \<open>bad_header_passes_check\<close>, \<open>request_mixes_snapshots\<close>, \<open>endpoint_decides_start\<close> and
  \<open>open_duration_decides_panic\<close> state such behaviour.

  \<^bold>\<open>Not modelled\<close>: the internals of the crates named above, the attributes that drive \<open>serde\<close> and
  \<open>clap\<close>, log lines and \<open>Debug\<close> output, a metrics endpoint with a capture or wildcard segment
  (\<open>ops_route\<close> compares the endpoint with the path), accessors that only return a field, the empty
  \<open>watch_sighup\<close> of platforms without the signal, the one unit test that only compiles, and the
  module roots, which hold no code. Of
  panics only the two of \<open>Panics\<close> are modelled; elsewhere the modelled code raises none of its own. The
  unit tests of what \<open>idna\<close>, \<open>url\<close> and \<open>uuid\<close> do state those answers of the crates as hypotheses.
\<close>

subsection \<open>Readiness\<close>

text \<open>
  The status a client is answered with, which of the wake-ups of a running server have taken readiness
  down, and what the whole stack answers to a probe.
\<close>

definition answered_status :: "'h response awaited \<Rightarrow> nat option" where
  "answered_status r = (case r of Ready response \<Rightarrow> Some (rs_status response) | Dropped \<Rightarrow> None)"

lemma run_ready:
  assumes "graceful_server S" "tls_server poll" "run S T F poll cfg wks True w = (None, ready, w')"
  shows "ready \<longleftrightarrow> \<not> list_ex (\<lambda>wk. signalled wk \<and> (sv_tls cfg = None \<or> \<not> wk_server wk)) wks"
proof (cases "sv_tls cfg")
  case None
  with assms(3) have plain: "run_plain S cfg wks True w = (None, ready, w')" by (simp add: run_def)
  then obtain w1 where bind: "ls_bind S (sv_bind cfg) w = (Inr (), w1)"
    by (auto simp: run_plain_def split: prod.splits sum.splits)
  show ?thesis
  proof (cases "dropWhile (\<lambda>wk. \<not> signalled wk) wks")
    case Nil
    then have "\<not> list_ex signalled wks" by (auto simp: list_ex_iff)
    with run_plain_outcome [OF assms(1) bind plain] Nil None show ?thesis by (auto simp: list_ex_iff)
  next
    case (Cons s after)
    then have "s \<in> set wks" "signalled s"
      using set_dropWhileD [of s "\<lambda>wk. \<not> signalled wk" wks] hd_dropWhile [of "\<lambda>wk. \<not> signalled wk" wks]
      by auto
    with run_plain_outcome [OF assms(1) bind plain] Cons None show ?thesis by (auto simp: list_ex_iff)
  qed
next
  case (Some tls_cfg)
  with assms(3) obtain rc st where
    run: "tls_loop poll rc (sv_graceful_shutdown cfg) wks \<lparr>tn_world = w, tn_ready = True, tn_asked = None\<rparr> = (None, st)"
    and r: "ready = tn_ready st"
    by (auto simp: run_def run_tls_def serve_tls_def split: if_splits sum.splits prod.splits)
  note out = tls_server.tls_loop_outcome [OF assms(2) run]
  show ?thesis
  proof (cases "dropWhile (\<lambda>wk. wk_server wk \<or> \<not> signalled wk) wks")
    case Nil
    then have "\<forall>wk \<in> set wks. wk_server wk \<or> \<not> signalled wk" by auto
    with out Nil Some r show ?thesis by (auto simp: list_ex_iff)
  next
    case (Cons s after)
    then have "s \<in> set wks" "\<not> wk_server s \<and> signalled s"
      using set_dropWhileD [of s "\<lambda>wk. wk_server wk \<or> \<not> signalled wk" wks]
        hd_dropWhile [of "\<lambda>wk. wk_server wk \<or> \<not> signalled wk" wks]
      by auto
    with out Cons Some r show ?thesis by (auto simp: list_ex_iff)
  qed
qed

lemma probe_status:
  assumes "rq_method request \<in> {''GET'', ''HEAD''}"
  shows "let path = u_path (rq_uri request);
      status = answered_status (fst (snd (snd (snd
        (build_router H U N D L E render timed_out peer request v b)))));
      cap = (ucast (lm_inflight_max (sb_immutable_limits b)) :: u64)
    in if (ucast (lm_max_request_header_bytes (sb_immutable_limits b)) :: u64) < header_map_bytes H (rq_headers request)
       then status = Some 431
       else if cap \<noteq> 0 \<and> cap \<le> sb_inflight b then status = Some 503
       else (path \<in> {''/readyz'', ''/healthz''} \<longrightarrow> status = Some (if sb_ready b then 200 else 503)) \<and>
            (path = ''/livez'' \<longrightarrow> status = Some 200)"
proof -
  have layers: "fst (snd (snd (snd (build_router H U N D L E render timed_out peer request v b)))) =
      fst (snd (snd (cors_layer H (timeout_layer H timed_out (header_limit_layer H (load_shed_layer H
        (auth_layer H (route_service H U N D L E render peer))))) request v b)))"
    by (simp add: build_router_def access_log_layer_def split: prod.split awaited.split)
  have ops: "is_ops_path e p" if "p \<in> {''/readyz'', ''/healthz'', ''/livez''}" for e p
    using that by (auto simp: is_ops_path_def)
  have route: "\<exists>r. route_service H U N D L E render peer request v b' = ([], [], Ready r, v, b') \<and>
      rs_status r = (if p = ''/livez'' then 200 else if sb_ready b' then 200 else 503)"
    if "u_path (rq_uri request) = p" "p \<in> {''/readyz'', ''/healthz'', ''/livez''}" for b' p
    using that assms
    by (auto simp: route_service_def ops_route_def readyz_def healthz_def livez_def json_response_def
        text_response_def typed_response_def Let_def)
  have stamp: "rs_status (apply_to_response H r rq p) = rs_status r" for r rq p
    by (simp add: apply_to_response_def)
  let ?cap = "ucast (lm_inflight_max (sb_immutable_limits b)) :: u64"
  let ?ask = "fst (snd (snd (cors_layer H (timeout_layer H timed_out (header_limit_layer H (load_shed_layer H
        (auth_layer H (route_service H U N D L E render peer))))) request v b)))"
  show ?thesis
  proof (cases "(ucast (lm_max_request_header_bytes (sb_immutable_limits b)) :: u64) < header_map_bytes H (rq_headers request)")
    case True
    then show ?thesis
      unfolding layers
      by (simp add: answered_status_def cors_layer_def timeout_layer_def header_limit_layer_def stamp
          text_response_def typed_response_def Let_def)
  next
    case False
    note small = this
    show ?thesis
    proof (cases "?cap \<noteq> 0 \<and> ?cap \<le> sb_inflight b")
      case True
      with small show ?thesis
        unfolding layers
        by (simp add: answered_status_def cors_layer_def timeout_layer_def header_limit_layer_def load_shed_layer_def
            stamp shed_response_def text_response_def typed_response_def Let_def)
    next
      case False
      have "answered_status ?ask = Some (if p = ''/livez'' then 200 else if sb_ready b then 200 else 503)"
        if p: "u_path (rq_uri request) = p" "p \<in> {''/readyz'', ''/healthz'', ''/livez''}" for p
        using route [OF p, of b] route [OF p, of "b\<lparr>sb_inflight := sb_inflight b + 1\<rparr>"] False small p ops [OF p(2)]
        by (auto simp: answered_status_def cors_layer_def timeout_layer_def header_limit_layer_def load_shed_layer_def
            auth_layer_def stamp Let_def)
      with False small show ?thesis unfolding layers by (auto simp: Let_def)
    qed
  qed
qed

subsection \<open>Requests and reloads\<close>

text \<open>The requests served between two reloads, and what they leave of the policies.\<close>

definition served_between ::
  "'h header_lib \<Rightarrow> 'u url_lib \<Rightarrow> net_lib \<Rightarrow> 'm hosts_lib \<Rightarrow>
     ('gs, 'gi, 'gd, 'ms, 'mi, 'r) limiter_lib \<Rightarrow>
     ('w, 'h, 'm, ('m, 'gs, 'gi, 'gd, 'ms, 'mi, 'r) server_build) serve_env \<Rightarrow> ('w \<Rightarrow> string) \<Rightarrow>
     ('w \<Rightarrow> bool) \<Rightarrow> ('m, 'gs, 'gi, 'gd, 'ms, 'mi, 'r) server_build \<Rightarrow>
     (ip_addr \<times> 'h request \<times> 'w) list \<Rightarrow> ('m, 'gs, 'gi, 'gd, 'ms, 'mi, 'r) live_policies \<Rightarrow>
     ('m, 'gs, 'gi, 'gd, 'ms, 'mi, 'r) live_policies" where
  "served_between H U N D L E render timed_out b requests p =
     sb_policies (fold (\<lambda>(peer, request, w) b.
       snd (snd (snd (snd (snd (build_router H U N D L E render timed_out peer request w b))))))
       requests (b\<lparr>sb_policies := p\<rparr>))"

lemma view_as_configured:
  "policy_view b' = policy_view b \<Longrightarrow>
     lp_config (sb_policies b') = lp_config (sb_policies b) \<and>
     as_configured H N D L (sb_policies b') = as_configured H N D L (sb_policies b)"
  by (simp add: policy_view_def as_configured_def limiter_as_configured_def Let_def)

lemma fold_view:
  assumes "framed_env E"
  shows "policy_view (fold (\<lambda>(peer, request, w) b.
      snd (snd (snd (snd (snd (build_router H U N D L E render timed_out peer request w b)))))) requests b) =
    policy_view b"
proof (induction requests arbitrary: b)
  case Nil
  then show ?case by simp
next
  case (Cons x requests)
  obtain peer request w where x: "x = (peer, request, w)" by (cases x)
  obtain entry ms ev r w' b' where
    run: "build_router H U N D L E render timed_out peer request w b = (entry, ms, ev, r, w', b')"
    by (metis prod_cases6)
  from router_frame [OF run assms] Cons.IH [of b'] show ?case by (simp add: x run)
qed

lemma served_between_keeps:
  assumes "framed_env E"
  shows "lp_config (served_between H U N D L E render timed_out b requests p) = lp_config p \<and>
    as_configured H' N' D' L' (served_between H U N D L E render timed_out b requests p) =
    as_configured H' N' D' L' p"
proof -
  have "policy_view (fold (\<lambda>(peer, request, w) b.
      snd (snd (snd (snd (snd (build_router H U N D L E render timed_out peer request w b))))))
      requests (b\<lparr>sb_policies := p\<rparr>)) = policy_view (b\<lparr>sb_policies := p\<rparr>)"
    by (rule fold_view [OF assms])
  from view_as_configured [OF this, of H' N' D' L'] show ?thesis by (simp add: served_between_def)
qed

lemma watch_sighup_described:
  "described (fst (watch_sighup H N D L tls_roots h path signals p))"
  by (induction H N D L tls_roots h path signals p rule: watch_sighup.induct)
    (auto simp: config_reload_def split: prod.splits)

lemma counting_described:
  "(\<And>b. described (fst (f b))) \<Longrightarrow> described (fst (counting_poll f c))"
  by (auto simp: counting_poll_def count_bytes_def Let_def case_prod_beta
      split: option.split poll.split frame.split)

subsection \<open>Rewritten redirects\<close>

lemma split_once_scheme:
  "split_once ''://'' (''http://'' @ rest) = Some (''http'', rest)"
  "split_once ''://'' (''https://'' @ rest) = Some (''https'', rest)"
  by simp_all

lemma normalize_absolute:
  "starts_with ''http://'' raw \<or> starts_with ''https://'' raw \<Longrightarrow> normalize_scheme raw = Inr raw"
  by (auto simp: starts_with_iff normalize_scheme_def http_scheme_def Let_def str_simps)

lemma candidate_slash_free:
  assumes "u_path uri = CHR ''/'' # c # cs" "c \<noteq> CHR ''/''"
    "Option.bind (u_query uri) (\<lambda>q. find_query_value q ''url'') = None"
  shows "candidate_from_uri uri = Inr (c # cs @ (case u_query uri of None \<Rightarrow> [] | Some q \<Rightarrow> ''?'' @ q))"
  using assms by (simp add: candidate_from_uri_def trim_start_char_def split: option.split)

subsection \<open>Properties\<close>

text \<open>
  C12. A request changes nothing but counters, budgets and tables: whatever it is and however it ends
  (answered, refused, timed out or dropped), configuration, CORS policy, filters, guards, target
  policy, limiter and breaker settings, upstream client, frozen sections and readiness are afterwards
  what they were, and a snapshot compiled from its configuration stays one.
\<close>

theorem request_keeps_policies:
  assumes "framed_env E"
    "build_router H U N D L E render timed_out peer request w b = (entry, ms, ev, r, w', b')"
  shows "policy_view b' = policy_view b \<and>
    as_configured H N D L (sb_policies b') = as_configured H N D L (sb_policies b)"
  using router_frame [OF assms(2,1)] view_as_configured by blast

lemma example_framed: "framed_env example_serve_env"
  by (simp add: framed_env_def example_serve_env_def example_env_def split: list.split)

lemma request_keeps_policies_witness:
  "\<exists>entry ms ev r w' b'. build_router list_headers plain_urls plain_nets alist_dash example_limiters
       example_serve_env (\<lambda>_. []) (\<lambda>_. False) (V4 0x01020304) example_inbound [example_ok] example_server =
     (entry, ms, ev, r, w', b') \<and> policy_view b' = policy_view example_server"
proof -
  obtain entry ms ev r w' b' where run:
    "build_router list_headers plain_urls plain_nets alist_dash example_limiters
       example_serve_env (\<lambda>_. []) (\<lambda>_. False) (V4 0x01020304) example_inbound [example_ok] example_server =
     (entry, ms, ev, r, w', b')" by (metis prod_cases6)
  from request_keeps_policies [OF example_framed run] run show ?thesis by blast
qed

text \<open>
  C17. Every event a component records belongs to a metric that was described to the recorder at
  start-up as the kind of instrument it moves, and carries the label names of that metric, always the
  same ones (\<open>label_keys\<close>): those of a
  request (guards, limiter, breaker, hops, outcome), of a name resolution, of body transfer and of
  reloads. A second installation is refused and leaves the recorder as it is.
\<close>

theorem every_event_described:
  assumes "prometheus P taken kept" "\<not> taken g" "init_metrics P F g = (res, g')" "framed_env E"
  shows "(\<exists>h. res = Inr h \<and> mh_inner h \<noteq> None) \<and>
    list_all (conforms (kept g'))
      (fst (snd (build_router H U N D L E render timed_out peer request w b)) @
       fst (resolve N guard dns host port) @
       fst (counting_poll body_poll body) @
       fst (watch_sighup H N D L tls_roots h path signals p)) \<and>
    (\<exists>err. init_metrics P F g' = (Inl err, g'))"
proof -
  obtain handle g'' where init: "init_metrics P F g = (Inr handle, g'')" "mh_inner handle \<noteq> None"
    "taken g''" "kept g'' = kept g @ descriptions"
    using prometheus.init_metrics_free [OF assms(1,2)] by blast
  with assms(3) have kept: "res = Inr handle" "g' = g''" by simp_all
  obtain entry ms ev r w' b' where
    "build_router H U N D L E render timed_out peer request w b = (entry, ms, ev, r, w', b')"
    by (metis prod_cases6)
  with router_frame [OF this assms(4)]
  have "described (fst (snd (build_router H U N D L E render timed_out peer request w b)))" by simp
  moreover have "described (fst (counting_poll body_poll body))"
    by (rule counting_described) (simp add: body_poll_def split: list.split)
  ultimately have "described
      (fst (snd (build_router H U N D L E render timed_out peer request w b)) @
       fst (resolve N guard dns host port) @ fst (counting_poll body_poll body) @
       fst (watch_sighup H N D L tls_roots h path signals p))"
    using resolve_described watch_sighup_described by simp
  then have "list_all (conforms (kept g'))
      (fst (snd (build_router H U N D L E render timed_out peer request w b)) @
       fst (resolve N guard dns host port) @ fst (counting_poll body_poll body) @
       fst (watch_sighup H N D L tls_roots h path signals p))"
    by (rule list.pred_mono_strong) (simp add: kept init(4) conforms_append)
  with kept init prometheus.init_metrics_taken [OF assms(1) init(3)] show ?thesis by simp
qed

lemma every_event_described_witness:
  "\<exists>h g'. init_metrics plain_prometheus no_features fresh_recorder = (Inr h, g') \<and>
     list_all (conforms (pr_described g')) (fst (resolve plain_nets (ssrf_new plain_nets default_ssrf_config)
       (\<lambda>_. Inl ''timeout'') ''a.test'' 443))"
proof -
  obtain res g' where init: "init_metrics plain_prometheus no_features fresh_recorder = (res, g')" by fastforce
  have free: "\<not> pr_taken fresh_recorder" by (simp add: fresh_recorder_def)
  obtain p where "example_policies = Inr p" using example_policies_Inr by blast
  from every_event_described [OF plain_prom.prometheus_axioms free init example_framed,
      of list_headers plain_urls plain_nets alist_dash example_limiters "\<lambda>_. []" "\<lambda>_. False" "V4 0"
        example_inbound "[example_ok]" example_server "ssrf_new plain_nets default_ssrf_config"
        "\<lambda>_. Inl ''timeout''" "''a.test''" 443 "counting_new [] ''response''" "Inr ()" example_handle None "[]" p]
    init show ?thesis by auto
qed

text \<open>
  C10. From the command line to the last reload: in whatever way a started server is reloaded while it
  serves requests, the policies in force are compiled from a configuration that was loaded and
  validated (no credentials for a wildcard, no empty allowlist, tokens where bearer mode is on, usable
  rate limits) and agrees with the running listener on every frozen field.
\<close>

theorem live_server_valid:
  assumes "main_command L F to_toml to_json os arch S cli wks ps = (res, out, Some st, ps')"
    "framed_env E"
    "watch_sighup (sl_headers L) (sl_nets L) (sl_hosts L) (sl_limiters L) (sl_roots L) (st_handle st)
       (st_path st)
       (map (\<lambda>(S, requests). (S, served_between (sl_headers L) U (sl_nets L) (sl_hosts L) (sl_limiters L) E
          render timed_out (st_build st) requests)) signals)
       (sb_policies (st_build st)) = (ms, p)"
  shows "let cfg = lp_config p in
    frozen_fields cfg = frozen_fields (lp_config (sb_policies (st_build st))) \<and>
    as_configured (sl_headers L) (sl_nets L) (sl_hosts L) (sl_limiters L) p \<and>
    (\<exists>S' \<in> insert S (fst ` set signals). load S' (st_path st) = Inr cfg) \<and>
    cors_safe cfg \<and> target_ok cfg \<and> auth_ok cfg \<and> rate_limit_ok (cf_rate_limit cfg) \<and>
    length ms = length signals"
proof -
  let ?f = "\<lambda>requests. served_between (sl_headers L) U (sl_nets L) (sl_hosts L) (sl_limiters L) E
    render timed_out (st_build st) requests"
  have fst: "fst ` set (map (\<lambda>(S, requests). (S, ?f requests)) signals) = fst ` set signals" by force
  have "\<forall>(S, serve) \<in> set (map (\<lambda>(S, requests). (S, ?f requests)) signals). \<forall>q.
      lp_config (serve q) = lp_config q \<and>
      (as_configured (sl_headers L) (sl_nets L) (sl_hosts L) (sl_limiters L) q \<longrightarrow>
       as_configured (sl_headers L) (sl_nets L) (sl_hosts L) (sl_limiters L) (serve q))"
    by (auto simp: served_between_keeps [OF assms(2)])
  from started_server_stays_valid [OF assms(1,3) this] show ?thesis
    unfolding fst Let_def by simp
qed

lemma live_server_valid_witness:
  "\<exists>res st ps' ms p. main_command example_libs no_features (\<lambda>_. Inl []) (\<lambda>_. Inl []) [] []
       (example_sources default_config) \<lparr>cli_config = None, cli_command = None\<rparr> [wakeup_at 5 False True]
       example_process = (res, [], Some st, ps') \<and>
     watch_sighup list_headers plain_nets alist_dash example_limiters (Inr ()) (st_handle st) (st_path st)
       [(example_sources (default_config\<lparr>cf_server := default_server_config\<lparr>sv_http2 := False\<rparr>\<rparr>),
         served_between list_headers plain_urls plain_nets alist_dash example_limiters example_serve_env
           (\<lambda>_. []) (\<lambda>_. False) (st_build st) [(V4 0x01020304, example_inbound, [example_ok])])]
       (sb_policies (st_build st)) = (ms, p) \<and> cors_safe (lp_config p)"
proof -
  let ?S = "example_sources (default_config\<lparr>cf_server := default_server_config\<lparr>sv_http2 := False\<rparr>\<rparr>)"
  let ?rs = "[(V4 0x01020304, example_inbound, [example_ok])]"
  obtain res st ps' where m: "main_command example_libs no_features (\<lambda>_. Inl []) (\<lambda>_. Inl []) [] []
      (example_sources default_config) \<lparr>cli_config = None, cli_command = None\<rparr> [wakeup_at 5 False True]
      example_process = (res, [], Some st, ps')"
    using example_started by blast
  obtain ms p where w: "watch_sighup (sl_headers example_libs) (sl_nets example_libs) (sl_hosts example_libs)
      (sl_limiters example_libs) (sl_roots example_libs) (st_handle st) (st_path st)
      (map (\<lambda>(S, requests). (S, served_between (sl_headers example_libs) plain_urls (sl_nets example_libs)
         (sl_hosts example_libs) (sl_limiters example_libs) example_serve_env (\<lambda>_. []) (\<lambda>_. False)
         (st_build st) requests)) [(?S, ?rs)])
      (sb_policies (st_build st)) = (ms, p)" by fastforce
  from live_server_valid [OF m example_framed w] have "cors_safe (lp_config p)" by (simp add: Let_def)
  with m w show ?thesis by (auto simp: example_libs_def)
qed

text \<open>
  C14. Readiness is the signal. While the server runs, on either listener, a \<open>GET\<close> or \<open>HEAD\<close> of
  \<open>/readyz\<close> or \<open>/healthz\<close> that gets past the two layers in front of the endpoints is answered 200
  until a shutdown signal has arrived and 503 from then on, whatever connections are still being
  drained, and one of \<open>/livez\<close> is answered 200 throughout. The two layers refuse every request alike:
  headers over the limit are answered 431, and at the in-flight cap the answer is 503, liveness probes
  included. A signal handler that cannot be installed counts as a signal; on the TLS listener the
  signal counts when the task that waits for it is the one that wakes up.
\<close>

theorem readiness_follows_signal:
  assumes "graceful_server S" "tls_server poll" "run S T F poll cfg wks True w = (None, ready, w')"
    "rq_method request \<in> {''GET'', ''HEAD''}" "sb_ready b = ready"
  shows "let path = u_path (rq_uri request);
      asked_to_stop = list_ex (\<lambda>wk. signalled wk \<and> (sv_tls cfg = None \<or> \<not> wk_server wk)) wks;
      status = answered_status (fst (snd (snd (snd
        (build_router H U N D L E render timed_out peer request v b)))));
      cap = (ucast (lm_inflight_max (sb_immutable_limits b)) :: u64)
    in if (ucast (lm_max_request_header_bytes (sb_immutable_limits b)) :: u64) < header_map_bytes H (rq_headers request)
       then status = Some 431
       else if cap \<noteq> 0 \<and> cap \<le> sb_inflight b then status = Some 503
       else (path \<in> {''/readyz'', ''/healthz''} \<longrightarrow> status = Some (if asked_to_stop then 503 else 200)) \<and>
            (path = ''/livez'' \<longrightarrow> status = Some 200)"
proof -
  have "(if list_ex (\<lambda>wk. signalled wk \<and> (sv_tls cfg = None \<or> \<not> wk_server wk)) wks then 503 else 200 :: nat) =
      (if sb_ready b then 200 else 503)"
    using run_ready [OF assms(1-3)] assms(5) by simp
  then show ?thesis
    using probe_status [OF assms(4), of H U N D L E render timed_out peer v b] by (simp only: Let_def)
qed

lemma readiness_follows_signal_witness:
  "\<exists>ready w'. run plain_server (plain_tls example_files) no_features plain_tls_poll default_server_config
       [wakeup_at 5 False True, wakeup_at 10 True True] True 9 = (None, ready, w') \<and>
     answered_status (fst (snd (snd (snd (build_router list_headers plain_urls plain_nets alist_dash example_limiters
        example_serve_env (\<lambda>_. []) (\<lambda>_. False) (V4 0)
        (example_inbound\<lparr>rq_uri := (rq_uri example_inbound)\<lparr>u_path := ''/readyz''\<rparr>\<rparr>)
        [] (example_server\<lparr>sb_ready := ready\<rparr>)))))) = Some 503"
proof -
  let ?wks = "[wakeup_at 5 False True, wakeup_at 10 True True]"
  let ?rq = "example_inbound\<lparr>rq_uri := (rq_uri example_inbound)\<lparr>u_path := ''/readyz''\<rparr>\<rparr>"
  obtain result ready w' where r: "run plain_server (plain_tls example_files) no_features plain_tls_poll
      default_server_config ?wks True 9 = (result, ready, w')"
    by (metis prod_cases3)
  have "result = None"
    using r by (simp add: run_def run_plain_def plain_server_def wakeup_eval select_poll_def poll_server_def
        poll_signal_arm_def default_server_config_def from_secs_def split: if_splits)
  with r have run: "run plain_server (plain_tls example_files) no_features plain_tls_poll
      default_server_config ?wks True 9 = (None, ready, w')" by simp
  have get: "rq_method ?rq \<in> {''GET'', ''HEAD''}" by (simp add: example_inbound_def)
  have "list_ex (\<lambda>wk. signalled wk \<and> (sv_tls default_server_config = None \<or> \<not> wk_server wk)) ?wks"
    by (simp add: wakeup_eval default_server_config_def)
  moreover have "\<not> (ucast (lm_max_request_header_bytes (sb_immutable_limits example_server)) :: u64) <
      header_map_bytes list_headers (rq_headers ?rq)"
    by (simp add: example_server_def example_inbound_def default_limits_config_def header_map_bytes_def
        list_headers_sel ORIGIN_def sat_add_def)
  moreover have "sb_inflight example_server = 0" "(ucast (lm_inflight_max (sb_immutable_limits example_server)) :: u64) \<noteq> 0"
    by (simp_all add: example_server_def default_limits_config_def default_inflight_max_def)
  ultimately show ?thesis
    using readiness_follows_signal [OF plain_srv.graceful_server_axioms plain_tls_srv.tls_server_axioms run get,
        of "example_server\<lparr>sb_ready := ready\<rparr>" list_headers plain_urls plain_nets alist_dash example_limiters example_serve_env
          "\<lambda>_. []" "\<lambda>_. False" "V4 0" "[]"] run
    by (auto simp: Let_def)
qed
text \<open>
  The operational endpoints sit behind the load-shedding layer: at the cap even a liveness probe is
  answered 503.
\<close>

lemma liveness_probe_is_shed:
  assumes "(ucast (lm_inflight_max (sb_immutable_limits b)) :: u64) \<noteq> 0"
    "(ucast (lm_inflight_max (sb_immutable_limits b)) :: u64) \<le> sb_inflight b"
  shows "fst (snd (snd (load_shed_layer H service request w b))) = Ready (shed_response H)"
  using assms by (simp add: load_shed_layer_def Let_def)

text \<open>
  C18. Rewriting a redirect is undone by following it, as far as the syntax of a request allows. Under
  the rewrite policy an absolute HTTP \<open>Location\<close> becomes a path on the proxy. When a client sends
  that text as its request target (it has no fragment, which clients do not send), the target the
  proxy takes is the original location, character by character, unless the location has a \<open>url\<close>
  query parameter: then the value of that parameter is taken, whatever the path says. The text taken
  is percent-decoded once more, so the original location itself is parsed and validated when it has
  neither such a parameter nor a percent escape.
\<close>

theorem rewritten_location_roundtrip:
  assumes "header_map H" "hm_get H h LOCATION = Some raw" "visible raw"
    "starts_with ''http://'' raw \<or> starts_with ''https://'' raw"
    "hm_get H (rewrite_location_header H h) LOCATION =
       Some (u_path uri @ (case u_query uri of None \<Rightarrow> [] | Some q \<Rightarrow> ''?'' @ q))"
    "2 \<le> length (u_path uri)"
  shows "let url_parameter = Option.bind (u_query uri) (\<lambda>q. find_query_value q ''url'')
    in candidate_from_uri uri = Inr (case url_parameter of None \<Rightarrow> raw | Some v \<Rightarrow> v) \<and>
       (url_parameter = None \<and> percent_decode_utf8 U raw = Some raw \<longrightarrow>
          extract_target U uri =
            (case url_parse U raw of
               Inl err \<Rightarrow> Inl (InvalidUrl (''url parse failed: '' @ err))
             | Inr parsed \<Rightarrow> validate_url U parsed))"
proof -
  have loc: "hm_get H (rewrite_location_header H h) LOCATION = Some (''/'' @ raw)"
    using assms(2-4) header_map.to_str_visible [OF assms(1), of raw]
      header_map.from_str_visible [OF assms(1), of "''/'' @ raw"] header_map.get_insert [OF assms(1)]
    by (auto simp: rewrite_location_header_def visible_byte_def)
  obtain cs where raw: "raw = CHR ''h'' # cs" using assms(4) by (auto simp: starts_with_iff)
  have eq: "u_path uri @ (case u_query uri of None \<Rightarrow> [] | Some q \<Rightarrow> ''?'' @ q) = CHR ''/'' # CHR ''h'' # cs"
    using loc assms(5) raw by simp
  then obtain cs' where path: "u_path uri = CHR ''/'' # CHR ''h'' # cs'"
    using assms(6) by (cases "u_path uri"; cases "tl (u_path uri)") auto
  with eq have "cs = cs' @ (case u_query uri of None \<Rightarrow> [] | Some q \<Rightarrow> ''?'' @ q)" by simp
  then have candidate: "candidate_from_uri uri = Inr raw"
    if "Option.bind (u_query uri) (\<lambda>q. find_query_value q ''url'') = None"
    using candidate_slash_free [OF path _ that] raw by simp
  show ?thesis
  proof (cases "Option.bind (u_query uri) (\<lambda>q. find_query_value q ''url'')")
    case None
    with candidate normalize_absolute [OF assms(4)] show ?thesis by (simp add: extract_target_def Let_def)
  next
    case (Some v)
    then show ?thesis by (simp add: candidate_from_uri_def)
  qed
qed

lemma rewritten_location_roundtrip_witness:
  "candidate_from_uri \<lparr>u_scheme = None, u_authority = None, u_host = None, u_path = ''/https://b.test/x'',
     u_query = Some ''y=1''\<rparr> = Inr ''https://b.test/x?y=1''"
proof -
  let ?uri = "\<lparr>u_scheme = None, u_authority = None, u_host = None, u_path = ''/https://b.test/x'',
     u_query = Some ''y=1''\<rparr>"
  have "hm_get list_headers [(LOCATION, ''https://b.test/x?y=1'')] LOCATION = Some ''https://b.test/x?y=1''"
    by (simp add: list_headers_sel)
  from rewritten_location_roundtrip [OF list_hdrs.header_map_axioms this, of ?uri plain_urls] show ?thesis
    by (simp add: rewrite_location_header_def list_headers_eval find_query_value_def starts_with_def Let_def)
qed

end
